(* ===== verification/Prelude_Axum.thy ===== *)
theory Prelude_Axum
  imports
    Main
    "HOL-Library.Word"
    "HOL-Library.Char_ord"
    "HOL-Library.List_Lexorder"
    "HOL-Library.Option_ord"
    "HOL-Library.Multiset"
begin

text \<open>
  What every component shares: the effect type of a handler (a state transformer with a
  result, the source's \<open>async fn ... -> Result<_, _>\<close> with \<open>?\<close>) and its proof rules, the
  parts of Rust's standard library the source uses on strings, numbers, ordered maps and
  stable sorting, and their generic lemmas.

  A Rust string is a \<^typ>\<open>string\<close> here: a list of code points, restricted to
  U+0000 to U+00FF (what \<^typ>\<open>char\<close> holds). The character classes below are Rust's on that
  range. \<open>i32\<close>, \<open>i64\<close> and instants are \<^typ>\<open>int\<close> or \<^typ>\<open>nat\<close>, with the
  wrap-around written out where the source can reach it; \<open>u32\<close> counters are words.
\<close>

section \<open>Effects with early return\<close>

named_theorems run_simps
named_theorems std_simps

type_synonym ('w, 'e, 'a) eff = "'w \<Rightarrow> ('e + 'a) \<times> 'w"

text \<open>\<open>Ok(x)\<close>, a pure \<open>Result\<close>, the \<open>?\<close> sequencing and \<open>map_err\<close>.\<close>

definition ok :: "'a \<Rightarrow> ('w, 'e, 'a) eff" where
  "ok x = (\<lambda>w. (Inr x, w))"

definition lift :: "'e + 'a \<Rightarrow> ('w, 'e, 'a) eff" where
  "lift r = (\<lambda>w. (r, w))"

definition and_then :: "('w, 'e, 'a) eff \<Rightarrow> ('a \<Rightarrow> ('w, 'e, 'b) eff) \<Rightarrow> ('w, 'e, 'b) eff" where
  "and_then m f = (\<lambda>w. case m w of (Inl e, w') \<Rightarrow> (Inl e, w') | (Inr x, w') \<Rightarrow> f x w')"

definition map_err :: "('e \<Rightarrow> 'f) \<Rightarrow> 'e + 'a \<Rightarrow> 'f + 'a" where
  "map_err g r = (case r of Inl e \<Rightarrow> Inl (g e) | Inr x \<Rightarrow> Inr x)"

definition ok_or :: "'e \<Rightarrow> 'a option \<Rightarrow> 'e + 'a" where
  "ok_or e v = (case v of None \<Rightarrow> Inl e | Some x \<Rightarrow> Inr x)"

definition and_then_r :: "'e + 'a \<Rightarrow> ('a \<Rightarrow> 'e + 'b) \<Rightarrow> 'e + 'b" where
  "and_then_r r f = (case r of Inl e \<Rightarrow> Inl e | Inr x \<Rightarrow> f x)"

lemma ok_run [run_simps]: "ok x w = (Inr x, w)"
  by (simp add: ok_def)

lemma lift_run [run_simps]: "lift r w = (r, w)"
  by (simp add: lift_def)

lemma and_then_run [run_simps]:
  "and_then m f w = (case m w of (Inl e, w') \<Rightarrow> (Inl e, w') | (Inr x, w') \<Rightarrow> f x w')"
  by (simp add: and_then_def)

lemma and_then_lift [simp]:
  "and_then (lift (Inr x)) f = f x" "and_then (lift (Inl e)) f = lift (Inl e)"
  by (simp_all add: and_then_def lift_def fun_eq_iff)

lemma and_then_ok [simp]: "and_then (ok x) f = f x"
  by (simp add: and_then_def ok_def fun_eq_iff)

lemma and_then_assoc: "and_then (and_then m f) g = and_then m (\<lambda>x. and_then (f x) g)"
  by (auto simp: and_then_def fun_eq_iff split: prod.splits sum.splits)

lemma map_err_simps [simp]:
  "map_err g (Inl e) = Inl (g e)" "map_err g (Inr x) = Inr x"
  by (simp_all add: map_err_def)

lemma map_err_Inr_iff [simp]: "map_err g r = Inr x \<longleftrightarrow> r = Inr x"
  by (cases r) simp_all

lemma ok_or_simps [simp]: "ok_or e None = Inl e" "ok_or e (Some x) = Inr x"
  by (simp_all add: ok_or_def)

lemma and_then_r_simps [simp]:
  "and_then_r (Inl e) f = Inl e" "and_then_r (Inr x) f = f x"
  by (simp_all add: and_then_r_def)

lemma and_then_r_Inr: "and_then_r r f = Inr y \<longleftrightarrow> (\<exists>x. r = Inr x \<and> f x = Inr y)"
  by (cases r) simp_all

lemma ok_or_Inr: "ok_or e v = Inr x \<longleftrightarrow> v = Some x"
  by (cases v) simp_all

text \<open>
  The weakest-precondition style triple used for the handlers: from \<open>P\<close>, a run that
  returns \<open>x\<close> ends in \<open>Q x\<close>, one that returns early with the error \<open>e\<close> in \<open>E e\<close>.
\<close>

definition triple ::
  "('w \<Rightarrow> bool) \<Rightarrow> ('w, 'e, 'a) eff \<Rightarrow> ('a \<Rightarrow> 'w \<Rightarrow> bool) \<Rightarrow> ('e \<Rightarrow> 'w \<Rightarrow> bool) \<Rightarrow> bool" where
  "triple P m Q E \<longleftrightarrow>
     (\<forall>w. P w \<longrightarrow> (case m w of (Inl e, w') \<Rightarrow> E e w' | (Inr x, w') \<Rightarrow> Q x w'))"

lemma triple_and_then:
  assumes "triple P m R E" and "\<And>x. triple (R x) (f x) Q E"
  shows "triple P (and_then m f) Q E"
  using assms unfolding triple_def and_then_def
  by (fastforce split: prod.splits sum.splits)

lemma triple_lift: "(\<And>w x. P w \<Longrightarrow> r = Inr x \<Longrightarrow> Q x w) \<Longrightarrow> (\<And>w e. P w \<Longrightarrow> r = Inl e \<Longrightarrow> E e w)
  \<Longrightarrow> triple P (lift r) Q E"
  by (auto simp: triple_def lift_def split: sum.splits)

lemma triple_ok: "(\<And>w. P w \<Longrightarrow> Q x w) \<Longrightarrow> triple P (ok x) Q E"
  by (auto simp: triple_def ok_def)

lemma triple_Inr: "triple P m Q E \<Longrightarrow> P w \<Longrightarrow> m w = (Inr x, w') \<Longrightarrow> Q x w'"
  by (fastforce simp: triple_def)

lemma triple_Inl: "triple P m Q E \<Longrightarrow> P w \<Longrightarrow> m w = (Inl e, w') \<Longrightarrow> E e w'"
  by (fastforce simp: triple_def)

lemma tripleI:
  "(\<And>w x w'. P w \<Longrightarrow> m w = (Inr x, w') \<Longrightarrow> Q x w') \<Longrightarrow>
   (\<And>w e w'. P w \<Longrightarrow> m w = (Inl e, w') \<Longrightarrow> E e w') \<Longrightarrow> triple P m Q E"
  by (auto simp: triple_def split: prod.splits sum.splits)

section \<open>Strings\<close>

definition code :: "char \<Rightarrow> nat" where
  "code c = of_char c"

definition is_whitespace :: "char \<Rightarrow> bool" where
  "is_whitespace c = (let n = code c in (9 \<le> n \<and> n \<le> 13) \<or> n = 32 \<or> n = 133 \<or> n = 160)"

definition is_control :: "char \<Rightarrow> bool" where
  "is_control c = (let n = code c in n < 32 \<or> (127 \<le> n \<and> n < 160))"

definition char_lower :: "char \<Rightarrow> char" where
  "char_lower c = (let n = code c in
     if (65 \<le> n \<and> n \<le> 90) \<or> (192 \<le> n \<and> n \<le> 222 \<and> n \<noteq> 215) then char_of (n + 32) else c)"

definition to_lowercase :: "string \<Rightarrow> string" where
  "to_lowercase s = map char_lower s"

definition trim_start :: "string \<Rightarrow> string" where
  "trim_start s = dropWhile is_whitespace s"

definition trim_end :: "string \<Rightarrow> string" where
  "trim_end s = rev (dropWhile is_whitespace (rev s))"

definition trim :: "string \<Rightarrow> string" where
  "trim s = trim_end (trim_start s)"

definition trim_end_matches :: "char \<Rightarrow> string \<Rightarrow> string" where
  "trim_end_matches d s = rev (dropWhile (\<lambda>c. c = d) (rev s))"

definition starts_with :: "string \<Rightarrow> string \<Rightarrow> bool" where
  "starts_with s p = (take (length p) s = p)"

definition strip_prefix :: "string \<Rightarrow> string \<Rightarrow> string option" where
  "strip_prefix s p = (if starts_with s p then Some (drop (length p) s) else None)"

definition strip_suffix :: "string \<Rightarrow> string \<Rightarrow> string option" where
  "strip_suffix s p = map_option rev (strip_prefix (rev s) (rev p))"

fun str_contains :: "string \<Rightarrow> string \<Rightarrow> bool" where
  "str_contains [] p = (p = [])"
| "str_contains (c # cs) p = (starts_with (c # cs) p \<or> str_contains cs p)"

fun split_on :: "char \<Rightarrow> string \<Rightarrow> string list" where
  "split_on d [] = [[]]"
| "split_on d (c # cs) =
     (if c = d then [] # split_on d cs
      else (case split_on d cs of [] \<Rightarrow> [[c]] | p # ps \<Rightarrow> (c # p) # ps))"

fun split_once :: "char \<Rightarrow> string \<Rightarrow> (string \<times> string) option" where
  "split_once d [] = None"
| "split_once d (c # cs) =
     (if c = d then Some ([], cs) else map_option (\<lambda>(a, b). (c # a, b)) (split_once d cs))"

fun join :: "string \<Rightarrow> string list \<Rightarrow> string" where
  "join sep [] = []"
| "join sep [s] = s"
| "join sep (s # t # ts) = s @ sep @ join sep (t # ts)"

definition replace_char :: "char \<Rightarrow> string \<Rightarrow> string \<Rightarrow> string" where
  "replace_char a t s = concat (map (\<lambda>c. if c = a then t else [c]) s)"

lemma split_on_not_Nil [simp]: "split_on d s \<noteq> []"
  by (induction s) (auto split: list.splits)

lemma split_on_append_sep:
  "d \<notin> set a \<Longrightarrow> split_on d (a @ d # b) = a # split_on d b"
  by (induction a) auto

lemma split_on_no_sep: "d \<notin> set a \<Longrightarrow> split_on d a = [a]"
  by (induction a) auto

lemma split_on_join:
  "ls \<noteq> [] \<Longrightarrow> (\<And>l. l \<in> set ls \<Longrightarrow> d \<notin> set l) \<Longrightarrow> split_on d (join [d] ls) = ls"
proof (induction "[d]" ls rule: join.induct)
  case (3 s t ts)
  then have "split_on d (join [d] (t # ts)) = t # ts" "d \<notin> set s" by simp_all
  then show ?case by (simp add: split_on_append_sep)
qed (simp_all add: split_on_no_sep)

lemma split_once_append: "d \<notin> set a \<Longrightarrow> split_once d (a @ d # b) = Some (a, b)"
  by (induction a) auto

lemma starts_with_append [simp]: "starts_with (p @ s) p"
  by (simp add: starts_with_def)

lemma strip_prefix_append [simp]: "strip_prefix (p @ s) p = Some s"
  by (simp add: strip_prefix_def)

lemma strip_prefix_Some: "strip_prefix s p = Some r \<longleftrightarrow> s = p @ r"
proof
  assume "strip_prefix s p = Some r"
  then have "take (length p) s = p" "drop (length p) s = r"
    by (auto simp: strip_prefix_def starts_with_def split: if_splits)
  then show "s = p @ r" by (metis append_take_drop_id)
qed simp

lemma trim_start_ident: "s = [] \<or> \<not> is_whitespace (hd s) \<Longrightarrow> trim_start s = s"
  by (cases s) (auto simp: trim_start_def)

lemma trim_end_ident: "s = [] \<or> \<not> is_whitespace (last s) \<Longrightarrow> trim_end s = s"
proof -
  assume a: "s = [] \<or> \<not> is_whitespace (last s)"
  show "trim_end s = s"
  proof (cases s rule: rev_cases)
    case Nil
    then show ?thesis by (simp add: trim_end_def)
  next
    case (snoc ys y)
    with a show ?thesis by (simp add: trim_end_def)
  qed
qed

text \<open>A string that \<open>trim\<close> leaves alone.\<close>

definition trimmed :: "string \<Rightarrow> bool" where
  "trimmed s = (s = [] \<or> (\<not> is_whitespace (hd s) \<and> \<not> is_whitespace (last s)))"

lemma trim_trimmed: "trimmed s \<Longrightarrow> trim s = s"
  by (auto simp: trimmed_def trim_def trim_start_ident trim_end_ident)

lemma trim_space_trimmed: "trimmed s \<Longrightarrow> trim (CHR '' '' # s) = s"
proof -
  assume a: "trimmed s"
  have "is_whitespace (CHR '' '')" by (simp add: is_whitespace_def code_def)
  then have "trim_start (CHR '' '' # s) = trim_start s" by (simp add: trim_start_def)
  then show ?thesis using trim_trimmed [OF a] by (simp add: trim_def)
qed

lemma trimmed_trim: "trimmed (trim s)"
proof (cases "trim s = []")
  case True
  then show ?thesis by (simp add: trimmed_def)
next
  case False
  let ?a = "trim_start s"
  have ne: "rev (dropWhile is_whitespace (rev ?a)) \<noteq> []"
    using False by (simp add: trim_def trim_end_def)
  obtain z where z: "?a = trim s @ z"
    by (metis rev_append rev_rev_ident takeWhile_dropWhile_id trim_def trim_end_def)
  have "?a \<noteq> []" using False z by auto
  then have "\<not> is_whitespace (hd ?a)"
    by (simp add: trim_start_def hd_dropWhile)
  moreover have "hd (trim s) = hd ?a" using z False by (metis hd_append2)
  moreover have "\<not> is_whitespace (last (trim s))"
    using ne by (simp add: trim_def trim_end_def last_rev hd_dropWhile)
  ultimately show ?thesis by (simp add: trimmed_def)
qed

section \<open>Decimal numbers\<close>

definition digit_val :: "char \<Rightarrow> nat option" where
  "digit_val c = (let n = code c in if 48 \<le> n \<and> n \<le> 57 then Some (n - 48) else None)"

fun digits_val :: "nat \<Rightarrow> string \<Rightarrow> nat option" where
  "digits_val acc [] = Some acc"
| "digits_val acc (c # cs) =
     (case digit_val c of None \<Rightarrow> None | Some d \<Rightarrow> digits_val (10 * acc + d) cs)"

definition parse_digits :: "string \<Rightarrow> nat option" where
  "parse_digits s = (if s = [] then None else digits_val 0 s)"

text \<open>\<open>str::parse\<close> for an unsigned type with maximum \<open>mx\<close>: an optional \<open>+\<close>, then digits.\<close>

definition parse_unsigned :: "nat \<Rightarrow> string \<Rightarrow> nat option" where
  "parse_unsigned mx s =
     (case parse_digits (case s of [] \<Rightarrow> [] | c # cs \<Rightarrow> if c = CHR ''+'' then cs else s) of
        None \<Rightarrow> None | Some n \<Rightarrow> if n \<le> mx then Some n else None)"

definition parse_u16 :: "string \<Rightarrow> nat option" where
  "parse_u16 s = parse_unsigned (2 ^ 16 - 1) s"

definition parse_u32 :: "string \<Rightarrow> nat option" where
  "parse_u32 s = parse_unsigned (2 ^ 32 - 1) s"

definition parse_u64 :: "string \<Rightarrow> nat option" where
  "parse_u64 s = parse_unsigned (2 ^ 64 - 1) s"

definition parse_i32 :: "string \<Rightarrow> int option" where
  "parse_i32 s =
     (case s of
        [] \<Rightarrow> None
      | c # cs \<Rightarrow>
          if c = CHR ''-'' then
            (case parse_digits cs of None \<Rightarrow> None
             | Some n \<Rightarrow> if n \<le> 2 ^ 31 then Some (- int n) else None)
          else map_option int (parse_unsigned (2 ^ 31 - 1) s))"

fun show_nat :: "nat \<Rightarrow> string" where
  "show_nat n = (if n < 10 then [char_of (48 + n)] else show_nat (n div 10) @ [char_of (48 + n mod 10)])"

declare show_nat.simps [simp del]

definition show_int :: "int \<Rightarrow> string" where
  "show_int i = (if i < 0 then CHR ''-'' # show_nat (nat (- i)) else show_nat (nat i))"

text \<open>\<open>as i32\<close> on a wider integer, and \<open>i32\<close> addition in a release build: both wrap.\<close>

definition as_i32 :: "int \<Rightarrow> int" where
  "as_i32 v = (v + 2 ^ 31) mod 2 ^ 32 - 2 ^ 31"

definition i32_range :: "int \<Rightarrow> bool" where
  "i32_range v = (- (2 ^ 31) \<le> v \<and> v < 2 ^ 31)"

lemma as_i32_range: "i32_range (as_i32 v)"
  by (simp add: i32_range_def as_i32_def)

lemma as_i32_ident: "i32_range v \<Longrightarrow> as_i32 v = v"
  by (simp add: i32_range_def as_i32_def)

lemma code_digit: "n < 10 \<Longrightarrow> code (char_of (48 + n)) = 48 + n"
  by (simp add: code_def)

lemma digit_val_char_of [simp]: "n < 10 \<Longrightarrow> digit_val (char_of (48 + n)) = Some n"
  by (simp add: digit_val_def code_digit)

lemma digits_val_append:
  "digits_val acc (s @ t) = (case digits_val acc s of None \<Rightarrow> None | Some m \<Rightarrow> digits_val m t)"
  by (induction s arbitrary: acc) (auto split: option.splits)

lemma show_nat_not_Nil [simp]: "show_nat n \<noteq> []"
  by (subst show_nat.simps) simp

lemma digits_val_show_nat: "digits_val 0 (show_nat n) = Some n"
proof (induction n rule: show_nat.induct)
  case (1 n)
  show ?case
  proof (cases "n < 10")
    case True
    then show ?thesis by (simp add: show_nat.simps [of n])
  next
    case False
    with 1 have "digits_val 0 (show_nat (n div 10)) = Some (n div 10)" by simp
    with False show ?thesis by (simp add: show_nat.simps [of n] digits_val_append)
  qed
qed

lemma show_nat_digits: "c \<in> set (show_nat n) \<Longrightarrow> 48 \<le> code c \<and> code c \<le> 57"
proof (induction n rule: show_nat.induct)
  case (1 n)
  show ?case
  proof (cases "n < 10")
    case True
    with 1 show ?thesis by (simp add: show_nat.simps [of n] code_digit)
  next
    case False
    have "code (char_of (48 + n mod 10)) = 48 + n mod 10" by (rule code_digit) simp
    with False 1 show ?thesis by (auto simp: show_nat.simps [of n])
  qed
qed

lemma show_nat_no_plus: "CHR ''+'' \<notin> set (show_nat n)" "CHR ''-'' \<notin> set (show_nat n)"
  using show_nat_digits by (force simp: code_def)+

lemma parse_unsigned_show_nat: "n \<le> mx \<Longrightarrow> parse_unsigned mx (show_nat n) = Some n"
proof -
  assume le: "n \<le> mx"
  have "(case show_nat n of [] \<Rightarrow> [] | c # cs \<Rightarrow> if c = CHR ''+'' then cs else show_nat n) = show_nat n"
    using show_nat_no_plus(1) [of n] by (cases "show_nat n") auto
  with le show ?thesis
    by (simp add: parse_unsigned_def parse_digits_def digits_val_show_nat)
qed

lemma parse_i32_show_int: "i32_range v \<Longrightarrow> parse_i32 (show_int v) = Some v"
proof -
  assume r: "i32_range v"
  show ?thesis
  proof (cases "v < 0")
    case True
    with r show ?thesis
      by (simp add: parse_i32_def show_int_def parse_digits_def digits_val_show_nat i32_range_def
          nat_le_iff)
  next
    case False
    obtain c cs where cc: "show_nat (nat v) = c # cs" by (cases "show_nat (nat v)") auto
    then have "c \<noteq> CHR ''-''" using show_nat_no_plus(2) [of "nat v"] by auto
    moreover have "parse_unsigned (2 ^ 31 - 1) (show_nat (nat v)) = Some (nat v)"
      using r by (intro parse_unsigned_show_nat) (simp add: i32_range_def nat_le_iff)
    ultimately show ?thesis
      using False cc by (simp add: parse_i32_def show_int_def)
  qed
qed

lemma parse_unsigned_bound: "parse_unsigned mx s = Some n \<Longrightarrow> n \<le> mx"
  by (auto simp: parse_unsigned_def split: option.splits if_splits)

section \<open>Ordered maps (BTreeMap)\<close>

text \<open>
  A \<open>BTreeMap\<close> is its entry list in key order, so iteration is the list itself.
\<close>

type_synonym ('k, 'v) btree = "('k \<times> 'v) list"

fun bt_insert :: "'k::linorder \<Rightarrow> 'v \<Rightarrow> ('k, 'v) btree \<Rightarrow> ('k, 'v) btree" where
  "bt_insert k v [] = [(k, v)]"
| "bt_insert k v ((k', v') # m) =
     (if k < k' then (k, v) # (k', v') # m
      else if k = k' then (k, v) # m else (k', v') # bt_insert k v m)"

definition bt_sorted :: "('k::linorder, 'v) btree \<Rightarrow> bool" where
  "bt_sorted m = sorted_wrt (<) (map fst m)"

lemma bt_sorted_Nil [simp]: "bt_sorted []"
  by (simp add: bt_sorted_def)

lemma bt_sorted_Cons:
  "bt_sorted ((k, v) # m) \<longleftrightarrow> (\<forall>k' \<in> fst ` set m. k < k') \<and> bt_sorted m"
  by (auto simp: bt_sorted_def)

lemma bt_insert_keys: "fst ` set (bt_insert k v m) = insert k (fst ` set m)"
  by (induction k v m rule: bt_insert.induct) auto

lemma bt_sorted_insert: "bt_sorted m \<Longrightarrow> bt_sorted (bt_insert k v m)"
  by (induction k v m rule: bt_insert.induct)
    (auto simp: bt_sorted_Cons bt_insert_keys)

lemma bt_sorted_distinct: "bt_sorted m \<Longrightarrow> distinct (map fst m)"
  unfolding bt_sorted_def by (simp add: strict_sorted_iff)

lemma map_of_bt_insert: "bt_sorted m \<Longrightarrow> map_of (bt_insert k v m) = (map_of m)(k \<mapsto> v)"
proof (induction k v m rule: bt_insert.induct)
  case (1 k v)
  then show ?case by simp
next
  case (2 k v k' v' m)
  then show ?case by (auto simp: bt_sorted_Cons fun_eq_iff)
qed

lemma bt_sorted_map_values:
  "bt_sorted (map (\<lambda>(k, v). (k, f k v)) m) = bt_sorted m"
proof -
  have "map fst (map (\<lambda>(k, v). (k, f k v)) m) = map fst m" by (induction m) auto
  then show ?thesis unfolding bt_sorted_def by (simp only:)
qed

lemma map_of_map_values:
  "map_of (map (\<lambda>(k, v). (k, f k v)) m) k = map_option (f k) (map_of m k)"
  by (induction m) auto

lemma bt_insert_last:
  "bt_sorted m \<Longrightarrow> (\<forall>k' \<in> fst ` set m. k' < k) \<Longrightarrow> bt_insert k v m = m @ [(k, v)]"
  by (induction m) (auto simp: bt_sorted_Cons)

section \<open>Stable sorting (slice::sort_by)\<close>

datatype ordering = Less | Equal | Greater

definition cmp :: "'a::linorder \<Rightarrow> 'a \<Rightarrow> ordering" where
  "cmp a b = (if a < b then Less else if a = b then Equal else Greater)"

fun reverse_ord :: "ordering \<Rightarrow> ordering" where
  "reverse_ord Less = Greater"
| "reverse_ord Equal = Equal"
| "reverse_ord Greater = Less"

fun insert_by :: "('a \<Rightarrow> 'a \<Rightarrow> ordering) \<Rightarrow> 'a \<Rightarrow> 'a list \<Rightarrow> 'a list" where
  "insert_by c x [] = [x]"
| "insert_by c x (y # ys) = (if c x y = Greater then y # insert_by c x ys else x # y # ys)"

definition sort_by :: "('a \<Rightarrow> 'a \<Rightarrow> ordering) \<Rightarrow> 'a list \<Rightarrow> 'a list" where
  "sort_by c xs = foldr (insert_by c) xs []"

text \<open>The laws \<open>sort_by\<close> asks of its comparator: a total preorder.\<close>

definition total_cmp :: "('a \<Rightarrow> 'a \<Rightarrow> ordering) \<Rightarrow> bool" where
  "total_cmp c \<longleftrightarrow> (\<forall>x y. c y x = reverse_ord (c x y)) \<and>
     (\<forall>x y z. c x y \<noteq> Greater \<longrightarrow> c y z \<noteq> Greater \<longrightarrow> c x z \<noteq> Greater)"

text \<open>Compare by \<open>c1\<close> and settle ties by \<open>c2\<close>.\<close>

definition lex_cmp ::
  "('a \<Rightarrow> 'a \<Rightarrow> ordering) \<Rightarrow> ('a \<Rightarrow> 'a \<Rightarrow> ordering) \<Rightarrow> 'a \<Rightarrow> 'a \<Rightarrow> ordering" where
  "lex_cmp c1 c2 x y = (case c1 x y of Less \<Rightarrow> Less | Greater \<Rightarrow> Greater | Equal \<Rightarrow> c2 x y)"

lemma reverse_ord_simps [simp]:
  "reverse_ord (reverse_ord o1) = o1" "reverse_ord o1 = Greater \<longleftrightarrow> o1 = Less"
  "reverse_ord o1 = Less \<longleftrightarrow> o1 = Greater" "reverse_ord o1 = Equal \<longleftrightarrow> o1 = Equal"
  by (cases o1; simp)+

lemma cmp_sym: "cmp b a = reverse_ord (cmp a b)"
  by (cases a b rule: linorder_cases) (auto simp: cmp_def)

lemma cmp_le: "cmp a b \<noteq> Greater \<longleftrightarrow> a \<le> b"
  by (auto simp: cmp_def)

lemma total_cmp_cmp: "total_cmp (\<lambda>a b. cmp (f a) (f b))"
  unfolding total_cmp_def cmp_le by (auto intro: cmp_sym)

lemma total_cmp_const: "total_cmp (\<lambda>a b. Equal)"
  by (simp add: total_cmp_def)

lemma total_cmp_sym: "total_cmp c \<Longrightarrow> c x y = reverse_ord (c y x)"
  unfolding total_cmp_def by blast

lemma total_cmp_trans: "total_cmp c \<Longrightarrow> c x y \<noteq> Greater \<Longrightarrow> c y z \<noteq> Greater \<Longrightarrow> c x z \<noteq> Greater"
  unfolding total_cmp_def by blast

lemma total_cmp_reverse: "total_cmp c \<Longrightarrow> total_cmp (\<lambda>a b. reverse_ord (c a b))"
proof -
  assume t: "total_cmp c"
  have sym: "reverse_ord (c y x) = reverse_ord (reverse_ord (c x y))" for x y
    using total_cmp_sym [OF t, of y x] by simp
  have trans: "reverse_ord (c x z) \<noteq> Greater"
    if "reverse_ord (c x y) \<noteq> Greater" "reverse_ord (c y z) \<noteq> Greater" for x y z
    using total_cmp_trans [OF t, of z y x] that
      total_cmp_sym [OF t, of y x] total_cmp_sym [OF t, of z y] total_cmp_sym [OF t, of z x]
    by simp
  show ?thesis unfolding total_cmp_def using sym trans by blast
qed

lemma lex_cmp_le:
  "lex_cmp c1 c2 x y \<noteq> Greater \<longleftrightarrow> c1 x y = Less \<or> (c1 x y = Equal \<and> c2 x y \<noteq> Greater)"
  by (cases "c1 x y") (auto simp: lex_cmp_def)

lemma total_cmp_lex:
  assumes "total_cmp c1" "total_cmp c2"
  shows "total_cmp (lex_cmp c1 c2)"
proof -
  have sym: "lex_cmp c1 c2 y x = reverse_ord (lex_cmp c1 c2 x y)" for x y
    using total_cmp_sym [OF assms(1), of y x] total_cmp_sym [OF assms(2), of y x]
    by (cases "c1 x y") (simp_all add: lex_cmp_def)
  have trans: "lex_cmp c1 c2 x z \<noteq> Greater"
    if xy: "lex_cmp c1 c2 x y \<noteq> Greater" and yz: "lex_cmp c1 c2 y z \<noteq> Greater" for x y z
  proof -
    have c1: "c1 x y \<noteq> Greater" "c1 y z \<noteq> Greater" using xy yz by (auto simp: lex_cmp_le)
    then have xz: "c1 x z \<noteq> Greater" by (rule total_cmp_trans [OF assms(1)])
    show ?thesis
    proof (cases "c1 x z")
      case Less
      then show ?thesis by (simp add: lex_cmp_le)
    next
      case Equal
      then have "c1 z x = Equal" using total_cmp_sym [OF assms(1), of z x] by simp
      then have "c1 y x \<noteq> Greater" "c1 z y \<noteq> Greater"
        using total_cmp_trans [OF assms(1) c1(2), of x]
          total_cmp_trans [OF assms(1) _ c1(1), of z] by auto
      then have "c1 x y = Equal" "c1 y z = Equal"
        using c1 total_cmp_sym [OF assms(1), of y x] total_cmp_sym [OF assms(1), of z y]
        by (cases "c1 x y"; cases "c1 y z"; simp)+
      then have "c2 x y \<noteq> Greater" "c2 y z \<noteq> Greater" using xy yz by (auto simp: lex_cmp_le)
      then have "c2 x z \<noteq> Greater" by (rule total_cmp_trans [OF assms(2)])
      with Equal show ?thesis by (simp add: lex_cmp_le)
    next
      case Greater
      with xz show ?thesis by simp
    qed
  qed
  show ?thesis unfolding total_cmp_def using sym trans by blast
qed

lemma mset_insert_by: "mset (insert_by c x ys) = add_mset x (mset ys)"
  by (induction ys) auto

lemma mset_sort_by [simp]: "mset (sort_by c xs) = mset xs"
  by (induction xs) (simp_all add: sort_by_def mset_insert_by)

lemma set_sort_by [simp]: "set (sort_by c xs) = set xs"
  by (metis mset_sort_by set_mset_mset)

lemma length_sort_by [simp]: "length (sort_by c xs) = length xs"
  by (metis mset_sort_by size_mset)

text \<open>
  One pass of a stable sort by \<open>c1\<close> over a list sorted by \<open>c2\<close> gives a list sorted by
  \<open>c1\<close> with ties in \<open>c2\<close> order.
\<close>

lemma insert_by_sorted_lex:
  assumes t: "total_cmp c1"
    and s: "sorted_wrt (\<lambda>a b. lex_cmp c1 c2 a b \<noteq> Greater) ys"
    and x: "\<forall>y \<in> set ys. c2 x y \<noteq> Greater"
    and t2: "total_cmp c2"
  shows "sorted_wrt (\<lambda>a b. lex_cmp c1 c2 a b \<noteq> Greater) (insert_by c1 x ys)"
  using s x
proof (induction ys)
  case Nil
  then show ?case by simp
next
  case (Cons y ys)
  note tl = total_cmp_lex [OF t t2]
  show ?case
  proof (cases "c1 x y = Greater")
    case True
    then have "c1 y x = Less" using total_cmp_sym [OF t, of y x] by simp
    then have yx: "lex_cmp c1 c2 y x \<noteq> Greater" by (simp add: lex_cmp_le)
    have "set (insert_by c1 x ys) = insert x (set ys)"
      by (metis mset_insert_by set_mset_add_mset_insert set_mset_mset)
    with True yx Cons show ?thesis by simp
  next
    case False
    then have xy: "lex_cmp c1 c2 x y \<noteq> Greater"
      using Cons.prems by (cases "c1 x y") (auto simp: lex_cmp_le)
    have "lex_cmp c1 c2 x z \<noteq> Greater" if "z \<in> set ys" for z
      using total_cmp_trans [OF tl xy, of z] Cons.prems(1) that by simp
    with False xy Cons.prems(1) show ?thesis by simp
  qed
qed

lemma sort_by_sorted_lex:
  assumes "total_cmp c1" "total_cmp c2"
    and "sorted_wrt (\<lambda>a b. c2 a b \<noteq> Greater) xs"
  shows "sorted_wrt (\<lambda>a b. lex_cmp c1 c2 a b \<noteq> Greater) (sort_by c1 xs)"
  using assms(3)
proof (induction xs)
  case Nil
  then show ?case by (simp add: sort_by_def)
next
  case (Cons x xs)
  have "sort_by c1 (x # xs) = insert_by c1 x (sort_by c1 xs)" by (simp add: sort_by_def)
  moreover have "\<forall>y \<in> set (sort_by c1 xs). c2 x y \<noteq> Greater" using Cons.prems by simp
  ultimately show ?case
    using insert_by_sorted_lex [OF assms(1) _ _ assms(2)] Cons by simp
qed

lemma sort_by_sorted:
  "total_cmp c \<Longrightarrow> sorted_wrt (\<lambda>a b. c a b \<noteq> Greater) (sort_by c xs)"
proof -
  assume t: "total_cmp c"
  have "lex_cmp c (\<lambda>_ _. Equal) = c"
    by (auto simp: lex_cmp_def fun_eq_iff split: ordering.splits)
  moreover have "sorted_wrt (\<lambda>a b. (\<lambda>_ _. Equal) a b \<noteq> Greater) xs"
    by (induction xs) auto
  ultimately show ?thesis
    using sort_by_sorted_lex [OF t total_cmp_const, of xs] by simp
qed

text \<open>Stability: a class of elements the comparator ties keeps its order.\<close>

lemma filter_insert_by:
  assumes t: "total_cmp c" and tie: "\<And>a b. P a \<Longrightarrow> P b \<Longrightarrow> c a b \<noteq> Greater"
  shows "filter P (insert_by c x ys) = filter P (x # ys)"
  by (induction ys) (use tie in auto)

lemma sort_by_stable:
  assumes "total_cmp c" and "\<And>a b. P a \<Longrightarrow> P b \<Longrightarrow> c a b \<noteq> Greater"
  shows "filter P (sort_by c xs) = filter P xs"
proof (induction xs)
  case Nil
  then show ?case by (simp add: sort_by_def)
next
  case (Cons x xs)
  have "filter P (sort_by c (x # xs)) = filter P (insert_by c x (sort_by c xs))"
    by (simp add: sort_by_def)
  also have "\<dots> = filter P (x # sort_by c xs)" by (rule filter_insert_by [OF assms])
  finally show ?case using Cons by simp
qed

lemma insert_by_Cons: "(\<forall>y \<in> set ys. c x y \<noteq> Greater) \<Longrightarrow> insert_by c x ys = x # ys"
  by (cases ys) auto

lemma sort_by_sorted_ident:
  "sorted_wrt (\<lambda>a b. c a b \<noteq> Greater) xs \<Longrightarrow> sort_by c xs = xs"
  by (induction xs) (simp_all add: sort_by_def insert_by_Cons)

end
