(* ===== verification/Http.thy ===== *)
theory Http
  imports Prelude_Axum
begin

text \<open>
  The HTTP data the handlers exchange: JSON values, request headers, responses. Rendering a
  value to text is serde's and axum's work, so a response body keeps the value itself:
  \<open>JTime\<close> is a chrono timestamp inside a value, \<open>JDec m e\<close> a number serde reads as an \<open>f64\<close> because its
  text has a fraction or an exponent (\<open>m\<close> times ten to the \<open>e\<close>), \<open>JCrate\<close> a value of a \<open>craftainer_crud\<close>
  type whose \<open>Serialize\<close> is not in this repository.
\<close>

section \<open>Values of the crates the responses carry\<close>

text \<open>\<open>craftainer_crud::views::FieldError::new(field, message)\<close> and the bulk results.\<close>

datatype field_error = FieldError (fe_field: string) (fe_message: string)

record bulk_result =
  br_matched :: nat
  br_ids :: "int list"

datatype crate_value = CFieldError field_error | CBulk bulk_result

datatype json =
    JNull
  | JBool bool
  | JInt int
  | JDec int int
  | JStr string
  | JTime int
  | JArr "json list"
  | JObj "(string \<times> json) list"
  | JCrate crate_value

text \<open>\<open>Value::get\<close>, \<open>Value::as_str\<close> and \<open>Value::as_array\<close>; \<open>None\<close> off the matching shape.\<close>

fun json_get :: "json \<Rightarrow> string \<Rightarrow> json option" where
  "json_get (JObj kvs) k = map_of kvs k"
| "json_get _ k = None"

fun as_str :: "json \<Rightarrow> string option" where
  "as_str (JStr s) = Some s"
| "as_str _ = None"

fun as_array :: "json \<Rightarrow> json list option" where
  "as_array (JArr js) = Some js"
| "as_array _ = None"

definition json_opt :: "('a \<Rightarrow> json) \<Rightarrow> 'a option \<Rightarrow> json" where
  "json_opt f v = (case v of None \<Rightarrow> JNull | Some x \<Rightarrow> f x)"

text \<open>
  serde struct fields: always written (JSON), or left out when \<open>None\<close>
  (\<open>skip_serializing_if = "Option::is_none"\<close>, the XML views).
\<close>

definition skip_none :: "string \<Rightarrow> ('a \<Rightarrow> json) \<Rightarrow> 'a option \<Rightarrow> (string \<times> json) list" where
  "skip_none k f v = (case v of None \<Rightarrow> [] | Some x \<Rightarrow> [(k, f x)])"

definition json_strs :: "string list \<Rightarrow> json" where
  "json_strs ss = JArr (map JStr ss)"

section \<open>Headers\<close>

text \<open>
  Header names are lower case, as \<open>HeaderMap\<close> stores them. A request header's value may hold
  bytes \<open>HeaderValue::to_str\<close> refuses (\<open>Opaque\<close>).
\<close>

datatype header_value = Visible string | Opaque

type_synonym request_headers = "(string \<times> header_value) list"
type_synonym response_headers = "(string \<times> string) list"

definition header_lookup :: "request_headers \<Rightarrow> string \<Rightarrow> header_value option" where
  "header_lookup hs name = map_of hs (to_lowercase name)"

definition contains_key :: "request_headers \<Rightarrow> string \<Rightarrow> bool" where
  "contains_key hs name = (header_lookup hs name \<noteq> None)"

fun to_str :: "header_value \<Rightarrow> string option" where
  "to_str (Visible s) = Some s"
| "to_str Opaque = None"

text \<open>\<open>HeaderMap::insert\<close>: replaces what the name held.\<close>

definition header_insert :: "string \<Rightarrow> string \<Rightarrow> response_headers \<Rightarrow> response_headers" where
  "header_insert k v hs = filter (\<lambda>p. fst p \<noteq> k) hs @ [(k, v)]"

lemma map_of_filter_key: "map_of (filter (\<lambda>p. fst p \<noteq> k) hs) = (map_of hs)(k := None)"
  by (induction hs) (auto simp: fun_eq_iff)

lemma header_insert_lookup [simp]:
  "map_of (header_insert k v hs) = (map_of hs)(k \<mapsto> v)"
  by (auto simp: header_insert_def map_add_def map_of_filter_key fun_eq_iff split: option.splits)

lemma map_of_rev_distinct: "distinct (map fst kvs) \<Longrightarrow> map_of (rev kvs) = map_of kvs"
proof (induction kvs)
  case (Cons kv kvs)
  then have "map_of kvs (fst kv) = None" by (auto simp: map_of_eq_None_iff)
  with Cons show ?case by (cases kv) (auto simp: fun_eq_iff map_add_def split: option.splits)
qed simp

section \<open>Responses\<close>

datatype body = NoBody | JsonBody json | TextBody string

text \<open>\<open>r_rejected\<close> is the \<open>RejectedToken\<close> response extension.\<close>

record response =
  r_status :: nat
  r_headers :: response_headers
  r_body :: body
  r_rejected :: bool

definition content_type :: string where
  "content_type = ''content-type''"

definition status_response :: "nat \<Rightarrow> response" where
  "status_response st = \<lparr>r_status = st, r_headers = [], r_body = NoBody, r_rejected = False\<rparr>"

text \<open>\<open>axum::Json(value).into_response()\<close> and a tuple with a status.\<close>

definition json_response :: "nat \<Rightarrow> json \<Rightarrow> response" where
  "json_response st j =
     \<lparr>r_status = st, r_headers = [(content_type, ''application/json'')],
      r_body = JsonBody j, r_rejected = False\<rparr>"

definition text_response :: "nat \<Rightarrow> string \<Rightarrow> string \<Rightarrow> response" where
  "text_response st ct b =
     \<lparr>r_status = st, r_headers = [(content_type, ct)], r_body = TextBody b, r_rejected = False\<rparr>"

definition html_response :: "string \<Rightarrow> response" where
  "html_response b = text_response 200 ''text/html; charset=utf-8'' b"

definition with_status :: "nat \<Rightarrow> response \<Rightarrow> response" where
  "with_status st r = r\<lparr>r_status := st\<rparr>"

definition set_header :: "string \<Rightarrow> string \<Rightarrow> response \<Rightarrow> response" where
  "set_header k v r = r\<lparr>r_headers := header_insert k v (r_headers r)\<rparr>"

text \<open>An array of header pairs in front of a response: inserted one after the other.\<close>

definition with_headers :: "response_headers \<Rightarrow> response \<Rightarrow> response" where
  "with_headers kvs r = foldl (\<lambda>r (k, v). set_header k v r) r kvs"

definition header_of :: "response \<Rightarrow> string \<Rightarrow> string option" where
  "header_of r k = map_of (r_headers r) k"

text \<open>\<open>Redirect::to\<close>: 303 See Other.\<close>

definition redirect_to :: "string \<Rightarrow> response" where
  "redirect_to uri = set_header ''location'' uri (status_response 303)"

lemma set_header_sel [simp]:
  "r_status (set_header k v r) = r_status r" "r_body (set_header k v r) = r_body r"
  "r_rejected (set_header k v r) = r_rejected r"
  by (simp_all add: set_header_def)

lemma header_of_set_header [simp]:
  "header_of (set_header k v r) k' = (if k' = k then Some v else header_of r k')"
  by (simp add: header_of_def set_header_def)

lemma with_headers_Nil [simp]: "with_headers [] r = r"
  by (simp add: with_headers_def)

lemma with_headers_Cons [simp]: "with_headers ((k, v) # kvs) r = with_headers kvs (set_header k v r)"
  by (simp add: with_headers_def)

lemma with_headers_sel [simp]:
  "r_status (with_headers kvs r) = r_status r" "r_body (with_headers kvs r) = r_body r"
  "r_rejected (with_headers kvs r) = r_rejected r"
  by (induction kvs arbitrary: r) auto

lemma header_of_with_headers:
  "header_of (with_headers kvs r) k =
     (case map_of (rev kvs) k of Some v \<Rightarrow> Some v | None \<Rightarrow> header_of r k)"
proof (induction kvs arbitrary: r)
  case Nil
  then show ?case by simp
next
  case (Cons kv kvs)
  obtain a v where kv: "kv = (a, v)" by (cases kv)
  show ?case
    using Cons [of "set_header a v r"]
    by (auto simp: kv map_add_def split: option.splits)
qed

lemma with_status_sel [simp]:
  "r_status (with_status st r) = st" "r_headers (with_status st r) = r_headers r"
  "r_body (with_status st r) = r_body r" "header_of (with_status st r) k = header_of r k"
  by (simp_all add: with_status_def header_of_def)

end
