(* ===== verification/Http_Headers.thy ===== *)
theory Http_Headers
  imports Http
begin

text \<open>
  \<open>src/http_headers.rs\<close>: the security headers set on every response and the RFC 8594
  \<open>Deprecation\<close>/\<open>Sunset\<close> headers of the version 1 routes. chrono's formatting of an
  HTTP-date is the parameter \<open>http_date\<close>; the two \<open>expect\<close>s on header values are \<^const>\<open>the\<close>,
  which the facts below only use where the value is header-safe.
\<close>

definition header_safe_char :: "char \<Rightarrow> bool" where
  "header_safe_char c = (let n = code c in n = 9 \<or> (32 \<le> n \<and> n \<noteq> 127))"

text \<open>
  \<open>HeaderValue::from_str\<close> (the http crate) accepts visible ASCII, space, tab and the bytes
  of U+0080 and above; it refuses the control characters and DEL.
\<close>

definition header_value_from_str :: "string \<Rightarrow> string option" where
  "header_value_from_str s = (if list_all header_safe_char s then Some s else None)"

section \<open>Security headers\<close>

definition CONTENT_SECURITY_POLICY :: string where
  "CONTENT_SECURITY_POLICY =
     ''default-src '' @ [CHR 0x27] @ ''self'' @ [CHR 0x27] @ ''; frame-ancestors '' @
     [CHR 0x27] @ ''none'' @ [CHR 0x27]"

definition SECURITY_HEADERS :: "(string \<times> string) list" where
  "SECURITY_HEADERS =
     [(''content-security-policy'', CONTENT_SECURITY_POLICY),
      (''x-frame-options'', ''DENY''),
      (''x-content-type-options'', ''nosniff''),
      (''strict-transport-security'', ''max-age=63072000; includeSubDomains''),
      (''referrer-policy'', ''no-referrer''),
      (''permissions-policy'', ''geolocation=(), microphone=(), camera=()'')]"

definition security_headers :: "response \<Rightarrow> response" where
  "security_headers response =
     foldl (\<lambda>response (name, value). set_header name value response) response SECURITY_HEADERS"

lemma security_headers_alt: "security_headers r = with_headers SECURITY_HEADERS r"
  by (simp add: security_headers_def with_headers_def)

lemma security_headers_sel [simp]:
  "r_status (security_headers r) = r_status r" "r_body (security_headers r) = r_body r"
  "r_rejected (security_headers r) = r_rejected r"
  by (simp_all add: security_headers_alt)

lemma security_headers_lookup:
  "header_of (security_headers r) k =
     (case map_of SECURITY_HEADERS k of Some v \<Rightarrow> Some v | None \<Rightarrow> header_of r k)"
proof -
  have "map_of (rev SECURITY_HEADERS) = map_of SECURITY_HEADERS"
    by (rule map_of_rev_distinct) (simp add: SECURITY_HEADERS_def)
  then show ?thesis by (simp add: security_headers_alt header_of_with_headers)
qed

section \<open>Sunset\<close>

record sunset_parts =
  sunset_at :: int
  sunset_link :: "string option"

definition DEPRECATION :: string where
  "DEPRECATION = ''deprecation''"

definition SUNSET :: string where
  "SUNSET = ''sunset''"

definition LINK :: string where
  "LINK = ''link''"

definition sunset_link_value :: "string \<Rightarrow> string" where
  "sunset_link_value link = ''<'' @ link @ ''>; rel='' @ [CHR 0x22] @ ''sunset'' @ [CHR 0x22]"

definition into_response_parts ::
  "(int \<Rightarrow> string) \<Rightarrow> sunset_parts \<Rightarrow> response \<Rightarrow> response" where
  "into_response_parts http_date self res =
     (let res = set_header DEPRECATION ''true'' res;
          res = set_header SUNSET (the (header_value_from_str (http_date (sunset_at self)))) res
      in case sunset_link self of
           None \<Rightarrow> res
         | Some link \<Rightarrow>
             set_header LINK (the (header_value_from_str (sunset_link_value link))) res)"

lemma into_response_parts_sel [simp]:
  "r_status (into_response_parts fmt s r) = r_status r"
  "r_body (into_response_parts fmt s r) = r_body r"
  "r_rejected (into_response_parts fmt s r) = r_rejected r"
  by (simp_all add: into_response_parts_def Let_def split: option.splits)

lemma into_response_parts_header:
  "header_of (into_response_parts fmt s r) k =
     (if k = LINK \<and> sunset_link s \<noteq> None
      then Some (the (header_value_from_str (sunset_link_value (the (sunset_link s)))))
      else if k = SUNSET then Some (the (header_value_from_str (fmt (sunset_at s))))
      else if k = DEPRECATION then Some ''true'' else header_of r k)"
  by (auto simp: into_response_parts_def Let_def SUNSET_def DEPRECATION_def LINK_def
      split: option.splits)

lemma header_value_from_str_Some: "header_value_from_str s = Some v \<Longrightarrow> v = s"
  by (simp add: header_value_from_str_def split: if_splits)

end
