(* ===== verification/Problem_Details.thy ===== *)
theory Problem_Details
  imports Http_Headers
begin

text \<open>
  \<open>src/problem_details.rs\<close>: the one error type of the application, its RFC 9457 rendering,
  the 401 challenge and the conversions from the crates' errors. \<open>redacted_detail\<close>, which
  \<open>craftainer_crud\<close> switches on a static, and the \<open>Display\<close> of the crate errors are
  parameters.
\<close>

section \<open>Errors\<close>

datatype app_error =
    NotFound string
  | Unauthorized string
  | InvalidToken string
  | Forbidden string
  | UnprocessableEntity "field_error list"
  | PreconditionFailed string
  | ServiceUnavailable string
  | TooManyRequests string
  | Internal string

text \<open>
  The crate's errors, as \<open>From\<close> matches them. \<open>CrudError\<close> is non-exhaustive:
  \<open>CrudOther\<close> is a variant this code does not know, with its \<open>Display\<close> text.
\<close>

datatype crud_error =
    CrudNotFound string
  | CrudUnprocessableEntity "field_error list"
  | CrudPreconditionFailed string
  | CrudServiceUnavailable string
  | CrudTooManyRequests string
  | CrudInternal string
  | CrudOther string

text \<open>\<open>RepoError::Backend(msg)\<close>; its \<open>Display\<close> is the crate's.\<close>

datatype repo_error = Backend string

fun from_crud_error :: "crud_error \<Rightarrow> app_error" where
  "from_crud_error (CrudNotFound msg) = NotFound msg"
| "from_crud_error (CrudUnprocessableEntity errors) = UnprocessableEntity errors"
| "from_crud_error (CrudPreconditionFailed msg) = PreconditionFailed msg"
| "from_crud_error (CrudServiceUnavailable msg) = ServiceUnavailable msg"
| "from_crud_error (CrudTooManyRequests msg) = TooManyRequests msg"
| "from_crud_error (CrudInternal msg) = Internal msg"
| "from_crud_error (CrudOther msg) = Internal msg"

definition from_repo_error :: "(repo_error \<Rightarrow> string) \<Rightarrow> repo_error \<Rightarrow> app_error" where
  "from_repo_error display err = Internal (display err)"

section \<open>Rendering\<close>

datatype problem_detail_detail = PText string | PFields "field_error list"

record problem_detail =
  pd_kind :: string
  pd_title :: string
  pd_status :: nat
  pd_detail :: problem_detail_detail

fun detail_json :: "problem_detail_detail \<Rightarrow> json" where
  "detail_json (PText msg) = JStr msg"
| "detail_json (PFields errors) = JArr (map (\<lambda>e. JCrate (CFieldError e)) errors)"

definition problem_json :: "problem_detail \<Rightarrow> json" where
  "problem_json p = JObj
     [(''type'', JStr (pd_kind p)), (''title'', JStr (pd_title p)),
      (''status'', JInt (int (pd_status p))), (''detail'', detail_json (pd_detail p))]"

text \<open>The \<open>match self\<close> of \<open>into_response\<close>: status, title and detail of each variant.\<close>

fun error_parts ::
  "(string \<Rightarrow> string \<Rightarrow> string) \<Rightarrow> app_error \<Rightarrow> nat \<times> string \<times> problem_detail_detail" where
  "error_parts redacted_detail (NotFound msg) = (404, ''Not Found'', PText msg)"
| "error_parts redacted_detail (Unauthorized msg) = (401, ''Unauthorized'', PText msg)"
| "error_parts redacted_detail (InvalidToken msg) = (401, ''Unauthorized'', PText msg)"
| "error_parts redacted_detail (Forbidden msg) = (403, ''Forbidden'', PText msg)"
| "error_parts redacted_detail (UnprocessableEntity errors) =
     (422, ''Unprocessable Content'', PFields errors)"
| "error_parts redacted_detail (PreconditionFailed msg) = (412, ''Precondition Failed'', PText msg)"
| "error_parts redacted_detail (ServiceUnavailable msg) = (503, ''Service Unavailable'', PText msg)"
| "error_parts redacted_detail (TooManyRequests msg) = (429, ''Too Many Requests'', PText msg)"
| "error_parts redacted_detail (Internal msg) =
     (500, ''Internal Server Error'', PText (redacted_detail msg ''Internal Server Error''))"

definition www_authenticate :: string where
  "www_authenticate = ''www-authenticate''"

definition is_invalid_token :: "app_error \<Rightarrow> bool" where
  "is_invalid_token e = (case e of InvalidToken _ \<Rightarrow> True | _ \<Rightarrow> False)"

definition into_response :: "(string \<Rightarrow> string \<Rightarrow> string) \<Rightarrow> app_error \<Rightarrow> response" where
  "into_response redacted_detail err =
     (let rejected_token = is_invalid_token err;
          (status, title, detail) = error_parts redacted_detail err;
          body = \<lparr>pd_kind = ''about:blank'', pd_title = title, pd_status = status,
                  pd_detail = detail\<rparr>;
          response = set_header content_type ''application/problem+json''
                       (json_response status (problem_json body))
      in if status = 401 then
           (let response = set_header www_authenticate
                  (if rejected_token then ''Bearer error='' @ [CHR 0x22] @ ''invalid_token'' @ [CHR 0x22]
                   else ''Bearer'') response
            in if rejected_token then response\<lparr>r_rejected := True\<rparr> else response)
         else response)"

section \<open>The RFC 9728 challenge layer\<close>

definition bearer_challenge :: "string \<Rightarrow> bool \<Rightarrow> string option" where
  "bearer_challenge resource_metadata_url rejected_token =
     (let challenge = ''Bearer resource_metadata='' @ [CHR 0x22] @ resource_metadata_url @ [CHR 0x22];
          challenge = (if rejected_token
                       then challenge @ '', error='' @ [CHR 0x22] @ ''invalid_token'' @ [CHR 0x22]
                       else challenge)
      in header_value_from_str challenge)"

definition add_resource_metadata :: "string \<Rightarrow> response \<Rightarrow> response" where
  "add_resource_metadata resource_metadata_url response =
     (if r_status response = 401 then
        (case bearer_challenge resource_metadata_url (r_rejected response) of
           Some challenge \<Rightarrow> set_header www_authenticate challenge response
         | None \<Rightarrow> response)
      else response)"

section \<open>Facts about the rendering\<close>

fun status_of :: "app_error \<Rightarrow> nat" where
  "status_of (NotFound _) = 404"
| "status_of (Unauthorized _) = 401"
| "status_of (InvalidToken _) = 401"
| "status_of (Forbidden _) = 403"
| "status_of (UnprocessableEntity _) = 422"
| "status_of (PreconditionFailed _) = 412"
| "status_of (ServiceUnavailable _) = 503"
| "status_of (TooManyRequests _) = 429"
| "status_of (Internal _) = 500"

lemma into_response_status [simp]: "r_status (into_response rd e) = status_of e"
  by (cases e) (simp_all add: into_response_def Let_def json_response_def)

lemma into_response_content_type:
  "header_of (into_response rd e) content_type = Some ''application/problem+json''"
  by (cases e)
    (simp_all add: into_response_def Let_def header_of_def set_header_def
      content_type_def www_authenticate_def json_response_def)

lemma into_response_rejected: "r_rejected (into_response rd e) \<longleftrightarrow> is_invalid_token e"
  by (cases e) (simp_all add: into_response_def Let_def json_response_def is_invalid_token_def)

lemma into_response_body:
  "r_body (into_response rd e) =
     (case error_parts rd e of (status, title, detail) \<Rightarrow>
        JsonBody (problem_json \<lparr>pd_kind = ''about:blank'', pd_title = title, pd_status = status,
                                pd_detail = detail\<rparr>))"
  by (cases e) (simp_all add: into_response_def Let_def json_response_def)

lemma into_response_other_header:
  "k \<noteq> content_type \<Longrightarrow> k \<noteq> www_authenticate \<Longrightarrow> header_of (into_response rd e) k = None"
  by (cases e) (auto simp: into_response_def Let_def header_of_def set_header_def json_response_def)

lemma bearer_challenge_safe:
  "list_all header_safe_char url \<Longrightarrow> bearer_challenge url t =
     Some (''Bearer resource_metadata='' @ [CHR 0x22] @ url @ [CHR 0x22] @
           (if t then '', error='' @ [CHR 0x22] @ ''invalid_token'' @ [CHR 0x22] else []))"
  by (simp add: bearer_challenge_def header_value_from_str_def header_safe_char_def code_def Let_def)

lemma error_parts_status: "fst (error_parts rd e) = status_of e"
  by (cases e) simp_all

text \<open>
  C33. Every error is rendered as \<open>application/problem+json\<close> whose \<open>status\<close> member equals the
  HTTP status; after the challenge layer a response carries a \<open>WWW-Authenticate\<close> header
  exactly when it is a 401, and \<open>error="invalid_token"\<close> exactly when a presented token was
  rejected, whatever the (header-safe) metadata URL.
\<close>

theorem error_response_shape:
  assumes "header_value_from_str url = Some url"
  shows "let r = add_resource_metadata url (into_response rd e) in
     r_status r = status_of e \<and>
     header_of r content_type = Some ''application/problem+json'' \<and>
     (\<exists>kvs. r_body r = JsonBody (JObj kvs) \<and> map_of kvs ''status'' = Some (JInt (int (r_status r)))) \<and>
     header_of r www_authenticate =
       (if status_of e = 401
        then Some (''Bearer resource_metadata='' @ [CHR 0x22] @ url @ [CHR 0x22] @
                   (if is_invalid_token e
                    then '', error='' @ [CHR 0x22] @ ''invalid_token'' @ [CHR 0x22] else []))
        else None)"
proof -
  have safe: "list_all header_safe_char url"
    using assms by (simp add: header_value_from_str_def split: if_splits)
  note b = bearer_challenge_safe [OF safe]
  have wa: "header_of (into_response rd e) www_authenticate = None" if "status_of e \<noteq> 401"
    using that by (cases e)
      (simp_all add: into_response_def Let_def header_of_def set_header_def
        content_type_def www_authenticate_def json_response_def)
  have bd: "\<exists>kvs. r_body (into_response rd e) = JsonBody (JObj kvs) \<and>
      map_of kvs ''status'' = Some (JInt (int (status_of e)))"
    by (cases e) (simp_all add: into_response_body problem_json_def)
  have ne: "content_type \<noteq> www_authenticate" by (simp add: content_type_def www_authenticate_def)
  show ?thesis
    using b wa bd ne by (cases "status_of e = 401")
      (auto simp: add_resource_metadata_def Let_def into_response_content_type into_response_rejected)
qed

theorem error_response_shape_witness:
  "header_value_from_str ''https://api.example'' = Some ''https://api.example'' \<and>
   header_of (add_resource_metadata ''https://api.example''
     (into_response (\<lambda>m f. f) (InvalidToken ''x''))) www_authenticate =
   Some (''Bearer resource_metadata='' @ [CHR 0x22] @ ''https://api.example'' @ [CHR 0x22] @
         '', error='' @ [CHR 0x22] @ ''invalid_token'' @ [CHR 0x22])"
proof -
  have h: "header_value_from_str ''https://api.example'' = Some ''https://api.example''"
    by (simp add: header_value_from_str_def header_safe_char_def code_def)
  show ?thesis
    using h error_response_shape [OF h, of "\<lambda>m f. f" "InvalidToken ''x''"]
    by (simp add: Let_def is_invalid_token_def)
qed

end
