(* ===== verification/Config.thy ===== *)
theory Config
  imports Prelude_Axum
begin

text \<open>
  \<open>src/config.rs\<close>: the settings, read from the process environment and validated. The
  environment is a function from variable names; serde's JSON list parser, chrono's RFC 3339
  parser and formatter are the parameters of \<open>config_crates\<close>; instants are nanoseconds since
  the epoch. Every \<open>Err(String)\<close> of the source is an \<^const>\<open>Inl\<close> with its message.
\<close>

section \<open>The environment\<close>

datatype env_var = NotPresent | NotUnicode | Present string

type_synonym env = "string \<Rightarrow> env_var"

record config_crates =
  json_string_list :: "string \<Rightarrow> string list option"
  parse_from_rfc3339 :: "string \<Rightarrow> int option"
  format_rfc3339_z :: "int \<Rightarrow> string"

fun var_ok :: "env_var \<Rightarrow> string option" where
  "var_ok (Present v) = Some v"
| "var_ok _ = None"

text \<open>\<open>{:?}\<close> of a string: quotes, backslash escapes and \<open>\u{..}\<close> for what does not print.\<close>

definition hex_digit :: "nat \<Rightarrow> char" where
  "hex_digit n = char_of (if n < 10 then 48 + n else 87 + n)"

definition debug_char :: "char \<Rightarrow> string" where
  "debug_char c =
     (let n = code c in
      if n = 0 then [CHR 0x5C, CHR ''0'']
      else if n = 9 then [CHR 0x5C, CHR ''t'']
      else if n = 10 then [CHR 0x5C, CHR ''n'']
      else if n = 13 then [CHR 0x5C, CHR ''r'']
      else if n = 34 \<or> n = 92 then [CHR 0x5C, c]
      else if n < 32 \<or> (127 \<le> n \<and> n \<le> 160) \<or> n = 173
      then [CHR 0x5C, CHR ''u'', CHR 0x7B] @ (if n < 16 then [hex_digit n]
             else [hex_digit (n div 16), hex_digit (n mod 16)]) @ [CHR 0x7D]
      else [c])"

definition debug_str :: "string \<Rightarrow> string" where
  "debug_str s = [CHR 0x22] @ concat (map debug_char s) @ [CHR 0x22]"

definition env_or :: "env \<Rightarrow> string \<Rightarrow> string \<Rightarrow> string" where
  "env_or env key dflt = (case var_ok (env key) of Some v \<Rightarrow> v | None \<Rightarrow> dflt)"

definition env_positive :: "env \<Rightarrow> string \<Rightarrow> string + nat option" where
  "env_positive env key =
     (case var_ok (env key) of
        None \<Rightarrow> Inr None
      | Some raw \<Rightarrow>
          (let err = Inl (key @ '' must be a whole number >= 1, got '' @ debug_str raw) in
           case parse_u32 raw of
             Some n \<Rightarrow> if 1 \<le> n then Inr (Some n) else err
           | None \<Rightarrow> err))"

text \<open>Durations are whole seconds here (\<open>Duration::from_secs\<close>).\<close>

definition env_seconds :: "env \<Rightarrow> string \<Rightarrow> string + nat option" where
  "env_seconds env key =
     and_then_r (env_positive env key) (\<lambda>secs. Inr (map_option (\<lambda>s. s) secs))"

definition env_bool :: "env \<Rightarrow> string \<Rightarrow> bool \<Rightarrow> string + bool" where
  "env_bool env key dflt =
     (case var_ok (env key) of
        None \<Rightarrow> Inr dflt
      | Some raw \<Rightarrow>
          if raw = ''1'' \<or> raw = ''true'' \<or> raw = ''True'' then Inr True
          else if raw = ''0'' \<or> raw = ''false'' \<or> raw = ''False'' then Inr False
          else Inl (key @ '' must be true or false, got '' @ debug_str raw))"

definition env_flag :: "env \<Rightarrow> string \<Rightarrow> bool" where
  "env_flag env key =
     (case var_ok (env key) of None \<Rightarrow> False
      | Some raw \<Rightarrow> raw = ''1'' \<or> raw = ''true'' \<or> raw = ''True'')"

section \<open>Modes\<close>

datatype mode = Dev | MockMode | Production

definition parse_mode :: "string \<Rightarrow> string + mode" where
  "parse_mode raw =
     (if raw = ''dev'' then Inr Dev else if raw = ''mock'' then Inr MockMode
      else if raw = ''production'' then Inr Production
      else Inl (''MODE must be one of dev/mock/production, got '' @ debug_str raw))"

datatype ssl_mode = Disable | Allow | Prefer | Require | VerifyCa | VerifyFull

definition parse_ssl_mode :: "string \<Rightarrow> string + ssl_mode" where
  "parse_ssl_mode raw =
     (if raw = ''disable'' then Inr Disable else if raw = ''allow'' then Inr Allow
      else if raw = ''prefer'' then Inr Prefer else if raw = ''require'' then Inr Require
      else if raw = ''verify-ca'' then Inr VerifyCa else if raw = ''verify-full'' then Inr VerifyFull
      else Inl (''POSTGRES_SSLMODE must be one of disable/allow/prefer/require/verify-ca/'' @
                ''verify-full, got '' @ debug_str raw))"

fun encrypts :: "ssl_mode \<Rightarrow> bool" where
  "encrypts Require = True"
| "encrypts VerifyCa = True"
| "encrypts VerifyFull = True"
| "encrypts _ = False"

section \<open>Database settings\<close>

record db_settings =
  sslmode :: "ssl_mode option"
  pool_size :: "nat option"
  pool_min_size :: "nat option"
  pool_recycle :: "nat option"
  pool_idle_timeout :: "nat option"
  connect_timeout :: "nat option"
  run_migrations_on_startup :: bool

definition default_db_settings :: db_settings where
  "default_db_settings =
     \<lparr>sslmode = None, pool_size = None, pool_min_size = None, pool_recycle = None,
      pool_idle_timeout = None, connect_timeout = None, run_migrations_on_startup = True\<rparr>"

definition db_from_env :: "env \<Rightarrow> string + db_settings" where
  "db_from_env env =
     and_then_r (case var_ok (env ''POSTGRES_SSLMODE'') of
                   None \<Rightarrow> Inr None
                 | Some raw \<Rightarrow> and_then_r (parse_ssl_mode raw) (\<lambda>m. Inr (Some m))) (\<lambda>ssl.
     and_then_r (env_positive env ''DB_POOL_SIZE'') (\<lambda>mx.
     and_then_r (env_positive env ''DB_POOL_MIN_SIZE'') (\<lambda>mn.
     and_then_r (case (mn, mx) of
                   (Some lo, Some hi) \<Rightarrow>
                     if hi < lo
                     then Inl (''DB_POOL_MIN_SIZE ('' @ show_nat lo @ '') must not exceed DB_POOL_SIZE ('' @
                               show_nat hi @ '')'')
                     else Inr ()
                 | _ \<Rightarrow> Inr ()) (\<lambda>_.
     and_then_r (env_seconds env ''DB_POOL_RECYCLE'') (\<lambda>recycle.
     and_then_r (env_seconds env ''DB_POOL_IDLE_TIMEOUT'') (\<lambda>idle.
     and_then_r (env_seconds env ''DB_CONNECT_TIMEOUT'') (\<lambda>acquire.
     and_then_r (env_bool env ''RUN_MIGRATIONS_ON_STARTUP'' True) (\<lambda>migrate.
     Inr \<lparr>sslmode = ssl, pool_size = mx, pool_min_size = mn, pool_recycle = recycle,
          pool_idle_timeout = idle, connect_timeout = acquire,
          run_migrations_on_startup = migrate\<rparr>))))))))"

section \<open>Settings\<close>

record settings =
  app_name :: string
  mode_of :: mode
  allow_mock_mode :: bool
  postgres_user :: string
  postgres_password :: string
  postgres_db :: string
  postgres_host :: string
  postgres_port :: nat
  db :: db_settings
  s3_endpoint_url :: string
  s3_access_key :: string
  s3_secret_key :: string
  redis_url :: string
  mqtt_host :: string
  mqtt_port :: nat
  rate_limit_mock_token_per_minute :: "32 word"
  rate_limit_hero_write_per_minute :: "32 word"
  bulk_action_max_matched :: nat
  oidc_issuer_url :: string
  oidc_authorization_url :: string
  oidc_token_url :: string
  oidc_client_id :: string
  oidc_audience :: "string option"

definition database_url :: "env \<Rightarrow> settings \<Rightarrow> string" where
  "database_url env self =
     (case var_ok (env ''DATABASE_URL'') of Some url \<Rightarrow> url
      | None \<Rightarrow> ''postgres://'' @ postgres_user self @ '':'' @ postgres_password self @ ''@'' @
                postgres_host self @ '':'' @ show_nat (postgres_port self) @ ''/'' @ postgres_db self)"

text \<open>\<open>Iterator::find_map\<close>.\<close>

fun find_map :: "('a \<Rightarrow> 'b option) \<Rightarrow> 'a list \<Rightarrow> 'b option" where
  "find_map f [] = None"
| "find_map f (x # xs) = (case f x of Some y \<Rightarrow> Some y | None \<Rightarrow> find_map f xs)"

definition effective_sslmode :: "env \<Rightarrow> settings \<Rightarrow> ssl_mode option" where
  "effective_sslmode env self =
     (case sslmode (db self) of Some m \<Rightarrow> Some m
      | None \<Rightarrow>
          (case split_once (CHR ''?'') (database_url env self) of None \<Rightarrow> None
           | Some (_, query) \<Rightarrow>
               (case find_map (\<lambda>pair. strip_prefix pair ''sslmode='') (split_on (CHR ''&'') query) of
                  None \<Rightarrow> None
                | Some raw \<Rightarrow> (case parse_ssl_mode raw of Inr m \<Rightarrow> Some m | Inl _ \<Rightarrow> None))))"

definition validate_settings :: "env \<Rightarrow> settings \<Rightarrow> string + unit" where
  "validate_settings env self =
     (if mode_of self = MockMode \<and> \<not> allow_mock_mode self
      then Inl ''MODE=mock requires ALLOW_MOCK_MODE=1 to be set''
      else if mode_of self \<noteq> Production then Inr ()
      else
        let defaults =
              [(''POSTGRES_PASSWORD'', postgres_password self, ''app''),
               (''RUSTFS_ACCESS_KEY/S3_ACCESS_KEY'', s3_access_key self, ''rustfsadmin''),
               (''RUSTFS_SECRET_KEY/S3_SECRET_KEY'', s3_secret_key self, ''rustfsadmin'')];
            left_at_default = map fst (filter (\<lambda>(_, actual, dflt). actual = dflt) defaults)
        in if left_at_default \<noteq> []
           then Inl (join '', '' left_at_default @
                     '' must not be left at their default value when MODE=production'')
           else
             let insecure =
                   (if \<not> (case effective_sslmode env self of Some m \<Rightarrow> encrypts m | None \<Rightarrow> False)
                    then [''POSTGRES_SSLMODE must be require, verify-ca, or verify-full''] else []) @
                   (if \<not> starts_with (s3_endpoint_url self) ''https://''
                    then [''S3_ENDPOINT_URL must use https://''] else []) @
                   (if \<not> starts_with (redis_url self) ''rediss://''
                    then [''REDIS_URL must use rediss://''] else []) @
                   (if \<not> starts_with (case var_ok (env ''OIDC_ISSUER'') of Some v \<Rightarrow> v
                                       | None \<Rightarrow> oidc_issuer_url self) ''https://''
                    then [''OIDC_ISSUER_URL/OIDC_ISSUER must use https://''] else [])
             in if insecure \<noteq> [] then Inl (join ''; '' insecure @ '' when MODE=production'')
                else Inr ())"

definition graceful_shutdown_timeout :: "env \<Rightarrow> string + nat option" where
  "graceful_shutdown_timeout env = env_seconds env ''GRACEFUL_SHUTDOWN_TIMEOUT_SECONDS''"

definition stats_cache_ttl :: "env \<Rightarrow> string + nat option" where
  "stats_cache_ttl env = env_seconds env ''STATS_CACHE_TTL_SECONDS''"

definition MIN_SUBSCRIBER_SECRET_CHARS :: nat where
  "MIN_SUBSCRIBER_SECRET_CHARS = 32"

definition subscriber_secret :: "env \<Rightarrow> mode \<Rightarrow> string + string option" where
  "subscriber_secret env mode =
     (case env ''SUBSCRIBER_SECRET'' of
        Present secret \<Rightarrow>
          if MIN_SUBSCRIBER_SECRET_CHARS \<le> length secret then Inr (Some secret)
          else Inl (''SUBSCRIBER_SECRET must be at least '' @ show_nat MIN_SUBSCRIBER_SECRET_CHARS @
                    '' characters'')
      | NotUnicode \<Rightarrow> Inl ''SUBSCRIBER_SECRET must be valid UTF-8''
      | NotPresent \<Rightarrow>
          if mode = Production then Inl ''SUBSCRIBER_SECRET must be set when MODE=production''
          else Inr None)"

definition DEFAULT_AUDIENCE :: string where
  "DEFAULT_AUDIENCE = ''api''"

section \<open>security.txt\<close>

definition second :: int where
  "second = 10 ^ 9"

definition days :: "int \<Rightarrow> int" where
  "days n = n * 86400 * second"

definition SECURITY_TXT_MAX_AHEAD_DAYS :: int where
  "SECURITY_TXT_MAX_AHEAD_DAYS = 366"

record security_txt =
  st_contact :: string
  st_expires :: int
  st_policy :: "string option"
  st_preferred_languages :: "string option"
  st_canonical :: "string option"

definition not_single_line :: "string option \<Rightarrow> bool" where
  "not_single_line v = (case v of None \<Rightarrow> False | Some s \<Rightarrow> trim s = [] \<or> list_ex is_control s)"

definition not_https :: "string option \<Rightarrow> bool" where
  "not_https v = (case v of None \<Rightarrow> False | Some s \<Rightarrow> \<not> starts_with s ''https://'')"

definition security_txt_from_lookup ::
  "config_crates \<Rightarrow> (string \<Rightarrow> string option) \<Rightarrow> int \<Rightarrow> string list + security_txt option" where
  "security_txt_from_lookup crates get now =
     (case get ''SECURITY_TXT_CONTACT'' of
        None \<Rightarrow> Inr None
      | Some contact \<Rightarrow>
        let policy = get ''SECURITY_TXT_POLICY'';
            canonical = get ''SECURITY_TXT_CANONICAL'';
            preferred_languages = get ''SECURITY_TXT_PREFERRED_LANGUAGES'';
            problems =
              map (\<lambda>(key, value). key @ '' must be a single line of text'')
                (filter (\<lambda>(key, value). not_single_line value)
                  [(''SECURITY_TXT_CONTACT'', Some contact), (''SECURITY_TXT_POLICY'', policy),
                   (''SECURITY_TXT_CANONICAL'', canonical),
                   (''SECURITY_TXT_PREFERRED_LANGUAGES'', preferred_languages)]);
            problems = problems @
              (if \<not> list_ex (starts_with contact) [''https://'', ''mailto:'', ''tel:'']
               then [''SECURITY_TXT_CONTACT must be an https:, mailto: or tel: URI''] else []);
            problems = problems @
              (if list_ex not_https [policy, canonical]
               then [''SECURITY_TXT_POLICY and SECURITY_TXT_CANONICAL must be https:// URLs''] else []);
            (expires, problems) =
              (case get ''SECURITY_TXT_EXPIRES'' of
                 None \<Rightarrow>
                   (None, problems @
                      [''SECURITY_TXT_EXPIRES must be set when SECURITY_TXT_CONTACT is''])
               | Some raw \<Rightarrow>
                   (case parse_from_rfc3339 crates raw of
                      None \<Rightarrow>
                        (None, problems @
                           [''SECURITY_TXT_EXPIRES must be an RFC 3339 timestamp with a time zone''])
                    | Some at \<Rightarrow>
                        (Some at, problems @
                           (if at \<le> now \<or> now + days SECURITY_TXT_MAX_AHEAD_DAYS < at
                            then [''SECURITY_TXT_EXPIRES must be in the future and at most one year ahead'']
                            else []))))
        in case expires of
             Some expires \<Rightarrow>
               if problems = []
               then Inr (Some \<lparr>st_contact = contact, st_expires = expires, st_policy = policy,
                               st_preferred_languages = preferred_languages, st_canonical = canonical\<rparr>)
               else Inl problems
           | None \<Rightarrow> Inl problems)"

definition render_lines :: "config_crates \<Rightarrow> security_txt \<Rightarrow> string list" where
  "render_lines crates self =
     [''Contact: '' @ st_contact self, ''Expires: '' @ format_rfc3339_z crates (st_expires self)] @
     concat (map (\<lambda>(field, v). case v of Some s \<Rightarrow> [field @ '': '' @ s] | None \<Rightarrow> [])
       [(''Preferred-Languages'', st_preferred_languages self), (''Policy'', st_policy self),
        (''Canonical'', st_canonical self)])"

definition render :: "config_crates \<Rightarrow> security_txt \<Rightarrow> string" where
  "render crates self = join [CHR 0x0A] (render_lines crates self) @ [CHR 0x0A]"

section \<open>The resource server\<close>

record resource_server =
  rs_name :: string
  rs_issuer :: string
  rs_discovery_url :: string
  rs_audience :: string
  rs_scopes_supported :: "string list"
  rs_public_base_url :: string
  rs_security_txt :: "security_txt option"

definition DEFAULT_PUBLIC_BASE_URL :: string where
  "DEFAULT_PUBLIC_BASE_URL = ''http://localhost:8000''"

definition discovery_url_for :: "string \<Rightarrow> string" where
  "discovery_url_for issuer =
     trim_end_matches (CHR ''/'') issuer @ ''/.well-known/openid-configuration''"

definition is_origin :: "string \<Rightarrow> bool" where
  "is_origin url =
     (case (case strip_prefix url ''https://'' of Some r \<Rightarrow> Some r
            | None \<Rightarrow> strip_prefix url ''http://'') of
        None \<Rightarrow> False
      | Some rest \<Rightarrow>
          (let host = (case strip_suffix rest ''/'' of Some h \<Rightarrow> h | None \<Rightarrow> rest) in
           host \<noteq> [] \<and>
           \<not> list_ex (\<lambda>c. c = CHR ''/'' \<or> c = CHR ''?'' \<or> c = CHR ''#'' \<or> c = CHR ''@'' \<or> c = CHR '' '') host \<and>
           list_all (\<lambda>c. \<not> is_control c) host))"

definition resource_server_from_settings :: "settings \<Rightarrow> resource_server" where
  "resource_server_from_settings settings =
     \<lparr>rs_name = app_name settings, rs_issuer = oidc_issuer_url settings,
      rs_discovery_url = discovery_url_for (oidc_issuer_url settings),
      rs_audience = (case oidc_audience settings of Some a \<Rightarrow> a | None \<Rightarrow> DEFAULT_AUDIENCE),
      rs_scopes_supported = [''openid''], rs_public_base_url = DEFAULT_PUBLIC_BASE_URL,
      rs_security_txt = None\<rparr>"

definition resource_server_from_lookup ::
  "config_crates \<Rightarrow> settings \<Rightarrow> (string \<Rightarrow> string option) \<Rightarrow> int \<Rightarrow> string + resource_server" where
  "resource_server_from_lookup crates settings get now =
     (let production = (mode_of settings = Production);
          issuer = (case get ''OIDC_ISSUER'' of Some v \<Rightarrow> v | None \<Rightarrow> oidc_issuer_url settings);
          discovery_url = (case get ''OIDC_DISCOVERY_URL'' of Some v \<Rightarrow> v
                           | None \<Rightarrow> discovery_url_for issuer);
          problems = (if production
                      then (if \<not> starts_with issuer ''https://''
                            then [''OIDC_ISSUER_URL/OIDC_ISSUER must use https://''] else []) @
                           (if \<not> starts_with discovery_url ''https://''
                            then [''OIDC_DISCOVERY_URL must use https://''] else [])
                      else []);
          audience = (case get ''OIDC_AUDIENCE'' of Some v \<Rightarrow> v
                      | None \<Rightarrow> (case oidc_audience settings of Some v \<Rightarrow> v | None \<Rightarrow> DEFAULT_AUDIENCE));
          problems = problems @
            (if audience = [] then [''OIDC_AUDIENCE must not be empty''] else []);
          (scopes_supported, problems) =
            (case get ''OIDC_SCOPES_SUPPORTED'' of
               None \<Rightarrow> ([''openid''], problems)
             | Some raw \<Rightarrow>
                 (case json_string_list crates raw of
                    Some ss \<Rightarrow> (ss, problems)
                  | None \<Rightarrow> ([], problems @
                      [''OIDC_SCOPES_SUPPORTED must be a JSON list of strings''])));
          public_base_url = get ''PUBLIC_BASE_URL'';
          problems = problems @
            (case public_base_url of
               Some url \<Rightarrow> if \<not> is_origin url
                 then [''PUBLIC_BASE_URL must be an http(s) origin with no path''] else []
             | None \<Rightarrow> []);
          problems = problems @
            (if production
             then (case public_base_url of
                     None \<Rightarrow> [''PUBLIC_BASE_URL must be set when MODE=production'']
                   | Some url \<Rightarrow> if \<not> starts_with url ''https://''
                       then [''PUBLIC_BASE_URL must use https:// when MODE=production''] else [])
             else []);
          (security_txt, problems) =
            (case security_txt_from_lookup crates get now of
               Inr file \<Rightarrow> (file, problems)
             | Inl found \<Rightarrow> (None, problems @ found))
      in if problems \<noteq> [] then Inl (join ''; '' problems)
         else Inr \<lparr>rs_name = app_name settings, rs_issuer = issuer,
           rs_discovery_url = discovery_url, rs_audience = audience,
           rs_scopes_supported = scopes_supported,
           rs_public_base_url = trim_end_matches (CHR ''/'')
             (case public_base_url of Some url \<Rightarrow> url | None \<Rightarrow> DEFAULT_PUBLIC_BASE_URL),
           rs_security_txt = security_txt\<rparr>)"

definition resource_server_from_env ::
  "config_crates \<Rightarrow> env \<Rightarrow> settings \<Rightarrow> int \<Rightarrow> string + resource_server" where
  "resource_server_from_env crates env settings now =
     resource_server_from_lookup crates settings (\<lambda>key. var_ok (env key)) now"

definition public_discovery_url :: "resource_server \<Rightarrow> string" where
  "public_discovery_url self = discovery_url_for (rs_issuer self)"

definition resource_metadata_url :: "resource_server \<Rightarrow> string" where
  "resource_metadata_url self = rs_public_base_url self @ ''/.well-known/oauth-protected-resource''"

section \<open>Settings from the environment\<close>

definition parse_or :: "(string \<Rightarrow> 'a option) \<Rightarrow> string \<Rightarrow> string \<Rightarrow> string + 'a" where
  "parse_or parse raw message = ok_or message (parse raw)"

definition settings_from_env :: "config_crates \<Rightarrow> env \<Rightarrow> int \<Rightarrow> string + settings" where
  "settings_from_env crates env now =
     and_then_r (parse_mode (env_or env ''MODE'' ''dev'')) (\<lambda>m.
     and_then_r (parse_or parse_u16 (env_or env ''POSTGRES_PORT'' ''5432'')
                   ''POSTGRES_PORT must be a valid port number'') (\<lambda>pg_port.
     and_then_r (db_from_env env) (\<lambda>dbs.
     and_then_r (parse_or parse_u16 (env_or env ''MQTT_PORT'' ''1883'')
                   ''MQTT_PORT must be a valid port number'') (\<lambda>broker_port.
     and_then_r (parse_or parse_u32 (env_or env ''RATE_LIMIT_MOCK_TOKEN_PER_MINUTE'' ''10'')
                   ''RATE_LIMIT_MOCK_TOKEN_PER_MINUTE must be a valid integer'') (\<lambda>mock_token.
     and_then_r (parse_or parse_u32 (env_or env ''RATE_LIMIT_HERO_WRITE_PER_MINUTE'' ''20'')
                   ''RATE_LIMIT_HERO_WRITE_PER_MINUTE must be a valid integer'') (\<lambda>hero_write.
     and_then_r (parse_or parse_u64 (env_or env ''BULK_ACTION_MAX_MATCHED'' ''1000'')
                   ''BULK_ACTION_MAX_MATCHED must be a valid integer'') (\<lambda>bulk_max.
     let settings =
       \<lparr>app_name = env_or env ''APP_NAME'' ''template-axum'',
        mode_of = m,
        allow_mock_mode = env_flag env ''ALLOW_MOCK_MODE'',
        postgres_user = env_or env ''POSTGRES_USER'' ''app'',
        postgres_password = env_or env ''POSTGRES_PASSWORD'' ''app'',
        postgres_db = env_or env ''POSTGRES_DB'' ''app'',
        postgres_host = env_or env ''POSTGRES_HOST'' ''localhost'',
        postgres_port = pg_port,
        db = dbs,
        s3_endpoint_url = env_or env ''S3_ENDPOINT_URL'' ''http://localhost:9000'',
        s3_access_key = env_or env ''RUSTFS_ACCESS_KEY'' (env_or env ''S3_ACCESS_KEY'' ''rustfsadmin''),
        s3_secret_key = env_or env ''RUSTFS_SECRET_KEY'' (env_or env ''S3_SECRET_KEY'' ''rustfsadmin''),
        redis_url = env_or env ''REDIS_URL'' ''redis://localhost:6379/0'',
        mqtt_host = env_or env ''MQTT_HOST'' ''localhost'',
        mqtt_port = broker_port,
        rate_limit_mock_token_per_minute = of_nat mock_token,
        rate_limit_hero_write_per_minute = of_nat hero_write,
        bulk_action_max_matched = bulk_max,
        oidc_issuer_url = env_or env ''OIDC_ISSUER_URL'' ''http://localhost:8080/realms/template-fastapi'',
        oidc_authorization_url = env_or env ''OIDC_AUTHORIZATION_URL''
          ''http://localhost:8080/realms/template-fastapi/protocol/openid-connect/auth'',
        oidc_token_url = env_or env ''OIDC_TOKEN_URL''
          ''http://localhost:8080/realms/template-fastapi/protocol/openid-connect/token'',
        oidc_client_id = env_or env ''OIDC_CLIENT_ID'' ''api'',
        oidc_audience = Some (env_or env ''OIDC_AUDIENCE'' DEFAULT_AUDIENCE)\<rparr>
     in and_then_r (validate_settings env settings) (\<lambda>_.
        and_then_r (resource_server_from_env crates env settings now) (\<lambda>_.
        Inr settings)))))))))"

section \<open>What a successful start guarantees\<close>

text \<open>The host part of an origin.\<close>

definition origin_host :: "string \<Rightarrow> bool" where
  "origin_host host \<longleftrightarrow> host \<noteq> [] \<and>
     list_all (\<lambda>c. c \<notin> {CHR ''/'', CHR ''?'', CHR ''#'', CHR ''@'', CHR '' ''} \<and> \<not> is_control c) host"

lemma strip_suffix_Some: "strip_suffix s p = Some r \<longleftrightarrow> s = r @ p"
proof -
  have "strip_suffix s p = Some r \<longleftrightarrow> strip_prefix (rev s) (rev p) = Some (rev r)"
    by (auto simp: strip_suffix_def)
  also have "\<dots> \<longleftrightarrow> rev s = rev (r @ p)" by (simp add: strip_prefix_Some)
  finally show ?thesis by (simp only: rev_is_rev_conv)
qed

lemma strip_prefix_None: "strip_prefix s p = None \<longleftrightarrow> (\<nexists>r. s = p @ r)"
  using strip_prefix_Some [of s p] by (cases "strip_prefix s p") auto

lemma strip_suffix_None: "strip_suffix s p = None \<longleftrightarrow> (\<nexists>r. s = r @ p)"
  using strip_suffix_Some [of s p] by (cases "strip_suffix s p") auto

lemma origin_host_check:
  "(host \<noteq> [] \<and>
    \<not> list_ex (\<lambda>c. c = CHR ''/'' \<or> c = CHR ''?'' \<or> c = CHR ''#'' \<or> c = CHR ''@'' \<or> c = CHR '' '') host \<and>
    list_all (\<lambda>c. \<not> is_control c) host) \<longleftrightarrow> origin_host host"
  by (auto simp: origin_host_def list_ex_iff list_all_iff)

lemma origin_host_no_slash: "origin_host host \<Longrightarrow> CHR ''/'' \<notin> set host"
  by (auto simp: origin_host_def list_all_iff)

lemma origin_rest:
  "origin_host (case strip_suffix rest ''/'' of Some h \<Rightarrow> h | None \<Rightarrow> rest) \<longleftrightarrow>
   (\<exists>host. origin_host host \<and> (rest = host \<or> rest = host @ ''/''))"
proof (cases "strip_suffix rest ''/''")
  case None
  then have n: "\<nexists>r. rest = r @ ''/''" by (simp only: strip_suffix_None not_False_eq_True)
  show ?thesis unfolding None using n by auto
next
  case (Some h)
  then have r: "rest = h @ ''/''" by (simp add: strip_suffix_Some)
  then have "\<not> origin_host rest" using origin_host_no_slash [of rest] by auto
  moreover have "strip_suffix (h @ ''/'') ''/'' = Some h" by (simp only: strip_suffix_Some)
  ultimately show ?thesis using r by auto
qed

lemma is_origin_iff:
  "is_origin url \<longleftrightarrow>
   (\<exists>scheme host. (scheme = ''https://'' \<or> scheme = ''http://'') \<and> origin_host host \<and>
      (url = scheme @ host \<or> url = scheme @ host @ ''/''))"
proof -
  have "is_origin url \<longleftrightarrow>
    (case (case strip_prefix url ''https://'' of Some r \<Rightarrow> Some r
           | None \<Rightarrow> strip_prefix url ''http://'') of
       None \<Rightarrow> False | Some rest \<Rightarrow> \<exists>host. origin_host host \<and> (rest = host \<or> rest = host @ ''/''))"
    unfolding is_origin_def Let_def origin_host_check origin_rest ..
  also have "\<dots> \<longleftrightarrow> (\<exists>rest. (url = ''https://'' @ rest \<or> url = ''http://'' @ rest) \<and>
      (\<exists>host. origin_host host \<and> (rest = host \<or> rest = host @ ''/'')))"
    by (auto simp: strip_prefix_Some strip_prefix_None split: option.splits)
  finally show ?thesis by metis
qed

lemma trim_slash_host:
  assumes "origin_host host"
  shows "trim_end_matches (CHR ''/'') (scheme @ host) = scheme @ host"
    and "trim_end_matches (CHR ''/'') (scheme @ host @ ''/'') = scheme @ host"
proof -
  obtain h c where h: "host = h @ [c]" using assms by (cases host rule: rev_cases) (auto simp: origin_host_def)
  then have "c \<noteq> CHR ''/''" using origin_host_no_slash [OF assms] by auto
  with h show "trim_end_matches (CHR ''/'') (scheme @ host) = scheme @ host"
    and "trim_end_matches (CHR ''/'') (scheme @ host @ ''/'') = scheme @ host"
    by (simp_all add: trim_end_matches_def)
qed

lemma starts_with_https_http: "\<not> starts_with (''http://'' @ r) ''https://''"
  by (simp add: starts_with_def)

lemma resource_server_checks:
  assumes "resource_server_from_lookup crates s get now = Inr rs" and "mode_of s = Production"
  shows "starts_with (rs_issuer rs) ''https://'' \<and> starts_with (rs_discovery_url rs) ''https://'' \<and>
     rs_audience rs \<noteq> [] \<and>
     (\<exists>url. get ''PUBLIC_BASE_URL'' = Some url \<and> is_origin url \<and> starts_with url ''https://'' \<and>
        rs_public_base_url rs = trim_end_matches (CHR ''/'') url)"
  using assms
  by (cases "get ''OIDC_SCOPES_SUPPORTED''";
      cases "json_string_list crates (the (get ''OIDC_SCOPES_SUPPORTED''))";
      cases "get ''PUBLIC_BASE_URL''"; cases "security_txt_from_lookup crates get now";
      simp add: resource_server_from_lookup_def Let_def split: if_splits)
    auto

lemma resource_server_secure:
  assumes "resource_server_from_lookup crates s get now = Inr rs" and "mode_of s = Production"
  shows "starts_with (rs_issuer rs) ''https://'' \<and> starts_with (rs_discovery_url rs) ''https://'' \<and>
     rs_audience rs \<noteq> [] \<and>
     (\<exists>host. origin_host host \<and> rs_public_base_url rs = ''https://'' @ host)"
proof -
  note checks = resource_server_checks [OF assms]
  then obtain url where url: "is_origin url" "starts_with url ''https://''"
      "rs_public_base_url rs = trim_end_matches (CHR ''/'') url" by blast
  then obtain scheme host where "origin_host host" "scheme = ''https://'' \<or> scheme = ''http://''"
      "url = scheme @ host \<or> url = scheme @ host @ ''/''"
    unfolding is_origin_iff by blast
  moreover from this have "scheme = ''https://''"
    using url(2) starts_with_https_http by blast
  ultimately show ?thesis using url(3) checks trim_slash_host by metis
qed

lemmas settings_from_env_Inr =
  settings_from_env_def Let_def parse_or_def and_then_r_Inr ok_or_Inr

lemma validate_production:
  assumes "validate_settings env s = Inr ()" and "mode_of s = Production"
  shows "postgres_password s \<noteq> ''app'' \<and> s3_access_key s \<noteq> ''rustfsadmin'' \<and>
     s3_secret_key s \<noteq> ''rustfsadmin'' \<and>
     (\<exists>m. effective_sslmode env s = Some m \<and> encrypts m) \<and>
     starts_with (s3_endpoint_url s) ''https://'' \<and> starts_with (redis_url s) ''rediss://''"
  using assms
  by (cases "effective_sslmode env s") (simp_all add: validate_settings_def Let_def split: if_splits)

text \<open>
  C11. A process that starts in production mode has left neither the Postgres password nor an S3 key at
  its default; Postgres encrypts, S3 and the issuer and discovery URLs of the identity provider are
  https, Redis is \<open>rediss\<close>, an audience is set, and the public origin is https without a path. (The
  checks stop there: the MQTT broker is connected as configured, and the \<open>jwks_uri\<close> is whatever
  the discovery document says.)
\<close>

theorem production_settings_secure:
  assumes "settings_from_env crates env now = Inr s" and "mode_of s = Production"
  shows "postgres_password s \<noteq> ''app'' \<and> s3_access_key s \<noteq> ''rustfsadmin'' \<and>
     s3_secret_key s \<noteq> ''rustfsadmin'' \<and>
     (\<exists>m. effective_sslmode env s = Some m \<and> encrypts m) \<and>
     starts_with (s3_endpoint_url s) ''https://'' \<and> starts_with (redis_url s) ''rediss://'' \<and>
     (\<exists>rs host. resource_server_from_env crates env s now = Inr rs \<and>
        starts_with (rs_issuer rs) ''https://'' \<and> starts_with (rs_discovery_url rs) ''https://'' \<and>
        rs_audience rs \<noteq> [] \<and> origin_host host \<and> rs_public_base_url rs = ''https://'' @ host)"
proof -
  have "validate_settings env s = Inr ()" "\<exists>rs. resource_server_from_env crates env s now = Inr rs"
    using assms(1) by (auto simp: settings_from_env_Inr)
  then show ?thesis
    using validate_production [OF _ assms(2)] resource_server_secure [OF _ assms(2)]
    unfolding resource_server_from_env_def by blast
qed

text \<open>
  The mode that bypasses authentication is reached only when \<open>MODE\<close> is \<open>mock\<close> and
  \<open>ALLOW_MOCK_MODE\<close> is set to a true value; neither is a default.
\<close>

theorem mock_mode_needs_both_flags:
  assumes "settings_from_env crates env now = Inr s" and "mode_of s = MockMode"
  shows "env ''MODE'' = Present ''mock'' \<and>
     env ''ALLOW_MOCK_MODE'' \<in> {Present ''1'', Present ''true'', Present ''True''}"
proof -
  have v: "validate_settings env s = Inr ()" and
    m: "parse_mode (env_or env ''MODE'' ''dev'') = Inr MockMode" and
    f: "allow_mock_mode s = env_flag env ''ALLOW_MOCK_MODE''"
    using assms by (auto simp: settings_from_env_Inr)
  have "allow_mock_mode s" using v assms(2) by (auto simp: validate_settings_def split: if_splits)
  moreover have "env ''MODE'' = Present ''mock''"
    using m by (cases "env ''MODE''") (auto simp: parse_mode_def env_or_def split: if_splits)
  ultimately show ?thesis
    using f by (cases "env ''ALLOW_MOCK_MODE''") (auto simp: env_flag_def)
qed

lemma security_txt_ok:
  assumes "security_txt_from_lookup crates get now = Inr (Some f)"
  shows "now < st_expires f \<and> st_expires f \<le> now + days 366 \<and>
     list_ex (starts_with (st_contact f)) [''https://'', ''mailto:'', ''tel:''] \<and>
     \<not> not_single_line (Some (st_contact f)) \<and> \<not> not_single_line (st_policy f) \<and>
     \<not> not_single_line (st_canonical f) \<and> \<not> not_single_line (st_preferred_languages f)"
  using assms
  by (cases "get ''SECURITY_TXT_CONTACT''"; cases "get ''SECURITY_TXT_EXPIRES''";
      cases "parse_from_rfc3339 crates (the (get ''SECURITY_TXT_EXPIRES''))";
      simp add: security_txt_from_lookup_def Let_def SECURITY_TXT_MAX_AHEAD_DAYS_def split: if_splits)
    auto

lemma single_line_no_newline: "\<not> not_single_line (Some v) \<Longrightarrow> CHR 0x0A \<notin> set v"
  by (auto simp: not_single_line_def list_ex_iff is_control_def code_def)

text \<open>
  A configured \<open>security.txt\<close> expires within the next 366 days and is rendered as exactly
  one line per field: no configured value can smuggle a second line into the file.
\<close>

theorem security_txt_one_line_per_field:
  assumes "security_txt_from_lookup crates get now = Inr (Some f)"
    and "CHR 0x0A \<notin> set (format_rfc3339_z crates (st_expires f))"
  shows "split_on (CHR 0x0A) (render crates f) = render_lines crates f @ [[]] \<and>
     now < st_expires f \<and> st_expires f \<le> now + days 366"
proof -
  note ok = security_txt_ok [OF assms(1)]
  have "CHR 0x0A \<notin> set l" if "l \<in> set (render_lines crates f @ [[]])" for l
    using that ok assms(2) single_line_no_newline
    by (auto simp: render_lines_def split: option.splits)
  moreover have "render crates f = join [CHR 0x0A] (render_lines crates f @ [[]])"
    by (simp add: render_def render_lines_def split: option.splits)
  ultimately show ?thesis using ok split_on_join [of "render_lines crates f @ [[]]"] by simp
qed

section \<open>Concrete environments\<close>

definition sample_config_crates :: config_crates where
  "sample_config_crates =
     \<lparr>json_string_list = (\<lambda>raw. if raw = ''[]'' then Some [] else None),
      parse_from_rfc3339 = (\<lambda>raw. if raw = ''2026-06-01T00:00:00Z'' then Some 1780272000000000000 else None),
      format_rfc3339_z = (\<lambda>_. ''2026-06-01T00:00:00Z'')\<rparr>"

definition sample_env :: "(string \<times> string) list \<Rightarrow> env" where
  "sample_env kvs key = (case map_of kvs key of Some v \<Rightarrow> Present v | None \<Rightarrow> NotPresent)"

definition sample_production_env :: env where
  "sample_production_env = sample_env
     [(''MODE'', ''production''), (''POSTGRES_PASSWORD'', ''s3cret''), (''POSTGRES_SSLMODE'', ''require''),
      (''S3_ACCESS_KEY'', ''ak''), (''S3_SECRET_KEY'', ''sk''), (''S3_ENDPOINT_URL'', ''https://s3''),
      (''REDIS_URL'', ''rediss://r''), (''OIDC_ISSUER_URL'', ''https://id/realm''),
      (''PUBLIC_BASE_URL'', ''https://api.example/'')]"

definition starts_in :: "mode \<Rightarrow> env \<Rightarrow> bool" where
  "starts_in m env =
     (case settings_from_env sample_config_crates env 0 of
        Inr s \<Rightarrow> mode_of s = m | Inl _ \<Rightarrow> False)"

lemma starts_inD:
  "starts_in m env \<Longrightarrow> \<exists>s. settings_from_env sample_config_crates env 0 = Inr s \<and> mode_of s = m"
  by (simp add: starts_in_def split: sum.splits)

lemmas config_eval =
  starts_in_def settings_from_env_def parse_mode_def env_or_def sample_env_def parse_or_def ok_or_def
  parse_u16_def parse_u32_def parse_u64_def parse_unsigned_def parse_digits_def digit_val_def
  code_def db_from_env_def env_positive_def env_seconds_def env_bool_def env_flag_def
  parse_ssl_mode_def validate_settings_def effective_sslmode_def starts_with_def
  resource_server_from_env_def resource_server_from_lookup_def discovery_url_for_def
  trim_end_matches_def is_origin_def strip_prefix_def strip_suffix_def is_control_def
  security_txt_from_lookup_def sample_config_crates_def DEFAULT_AUDIENCE_def

lemma starts_in_production: "starts_in Production sample_production_env"
  by (simp add: config_eval sample_production_env_def Let_def)

theorem production_settings_secure_witness:
  "\<exists>s. settings_from_env sample_config_crates sample_production_env 0 = Inr s \<and>
     (\<exists>m. effective_sslmode sample_production_env s = Some m \<and> encrypts m)"
  using starts_inD [OF starts_in_production] production_settings_secure by blast

definition sample_mock_env :: env where
  "sample_mock_env = sample_env [(''MODE'', ''mock''), (''ALLOW_MOCK_MODE'', ''1'')]"

lemma starts_in_mock: "starts_in MockMode sample_mock_env"
  by (simp add: config_eval sample_mock_env_def Let_def)

theorem mock_mode_needs_both_flags_witness:
  "sample_mock_env ''ALLOW_MOCK_MODE'' \<in> {Present ''1'', Present ''true'', Present ''True''}"
  using starts_inD [OF starts_in_mock] mock_mode_needs_both_flags by blast

definition sample_lookup :: "string \<Rightarrow> string option" where
  "sample_lookup = map_of
     [(''SECURITY_TXT_CONTACT'', ''mailto:security@example.org''),
      (''SECURITY_TXT_EXPIRES'', ''2026-06-01T00:00:00Z''), (''SECURITY_TXT_PREFERRED_LANGUAGES'', ''en'')]"

definition sample_security_txt :: security_txt where
  "sample_security_txt =
     \<lparr>st_contact = ''mailto:security@example.org'', st_expires = 1780272000000000000,
      st_policy = None, st_preferred_languages = Some ''en'', st_canonical = None\<rparr>"

lemma sample_security_txt_read:
  "security_txt_from_lookup sample_config_crates sample_lookup 1767225600000000000 =
   Inr (Some sample_security_txt)"
  by (simp add: config_eval sample_lookup_def sample_security_txt_def Let_def not_single_line_def
      not_https_def trim_def trim_start_def trim_end_def is_whitespace_def days_def second_def
      SECURITY_TXT_MAX_AHEAD_DAYS_def)

theorem security_txt_one_line_per_field_witness:
  "split_on (CHR 0x0A) (render sample_config_crates sample_security_txt) =
   render_lines sample_config_crates sample_security_txt @ [[]]"
  using security_txt_one_line_per_field [OF sample_security_txt_read]
  by (simp add: sample_config_crates_def)

text \<open>Settings for the concrete runs of the other theories.\<close>

definition sample_settings :: "mode \<Rightarrow> settings" where
  "sample_settings m =
     \<lparr>app_name = ''template-axum'', mode_of = m, allow_mock_mode = True, postgres_user = ''app'',
      postgres_password = ''app'', postgres_db = ''app'', postgres_host = ''localhost'',
      postgres_port = 5432, db = default_db_settings, s3_endpoint_url = ''http://localhost:9000'',
      s3_access_key = ''rustfsadmin'', s3_secret_key = ''rustfsadmin'',
      redis_url = ''redis://localhost:6379/0'', mqtt_host = ''localhost'', mqtt_port = 1883,
      rate_limit_mock_token_per_minute = 10, rate_limit_hero_write_per_minute = 20,
      bulk_action_max_matched = 1000, oidc_issuer_url = ''http://id/realm'',
      oidc_authorization_url = ''http://id/auth'', oidc_token_url = ''http://id/token'',
      oidc_client_id = ''api'', oidc_audience = None\<rparr>"

end
