(* ===== verification/Oidc.thy ===== *)
theory Oidc
  imports Problem_Details Config
begin

text \<open>
  \<open>src/oidc/mod.rs\<close> and \<open>src/oidc/well_known.rs\<close>: bearer-token validation, the role check, the
  JWKS cache, the \<open>/.well-known/\<close> documents and the manifest's caller resolver. reqwest,
  jsonwebtoken, base64 and serde_json are the parameters of \<open>oidc_crates\<close>; \<open>'ks\<close> is a JWK set,
  \<open>'k\<close> a JWK, \<open>'d\<close> a decoding key. The verifier's mutable state is its JWKS cache.
\<close>

section \<open>Claims\<close>

type_synonym claims = json

definition subject :: "claims \<Rightarrow> app_error + string" where
  "subject claims =
     ok_or (Unauthorized ''token has no sub claim'')
       (case json_get claims ''sub'' of None \<Rightarrow> None | Some v \<Rightarrow> as_str v)"

definition filter_map :: "('a \<Rightarrow> 'b option) \<Rightarrow> 'a list \<Rightarrow> 'b list" where
  "filter_map f xs = concat (map (\<lambda>x. case f x of Some y \<Rightarrow> [y] | None \<Rightarrow> []) xs)"

definition granted_roles :: "claims \<Rightarrow> string \<Rightarrow> string list" where
  "granted_roles claims client_id =
     (case (case json_get claims ''resource_access'' of None \<Rightarrow> None | Some ra \<Rightarrow>
            (case json_get ra client_id of None \<Rightarrow> None | Some client \<Rightarrow>
            (case json_get client ''roles'' of None \<Rightarrow> None | Some roles \<Rightarrow> as_array roles))) of
        Some roles \<Rightarrow> filter_map as_str roles
      | None \<Rightarrow> [])"

definition require_any_role :: "claims \<Rightarrow> string \<Rightarrow> string list \<Rightarrow> app_error + unit" where
  "require_any_role claims client_id roles =
     (let granted = granted_roles claims client_id in
      if list_ex (\<lambda>role. list_ex (\<lambda>g. g = role) granted) roles then Inr ()
      else Inl (Forbidden ''Insufficient role''))"

section \<open>The verifier\<close>

definition JWKS_CACHE_TTL :: nat where
  "JWKS_CACHE_TTL = 300 * 10 ^ 9"

datatype algorithm = RS256 | OtherAlgorithm string

record validation =
  v_algorithms :: "algorithm list"
  v_issuers :: "string list"
  v_audiences :: "string list"
  v_required :: "string list"

text \<open>
  \<open>http_get now url\<close> is the outcome of \<open>reqwest\<close>'s GET at instant \<open>now\<close>: no response at all,
  or a status with a body.
\<close>

datatype http_result = SendError | HttpResponse nat string

record ('ks, 'k, 'd) oidc_crates =
  http_get :: "nat \<Rightarrow> string \<Rightarrow> http_result"
  parse_discovery :: "string \<Rightarrow> string option"
  parse_jwks :: "string \<Rightarrow> 'ks option"
  decode_header :: "string \<Rightarrow> string option option"
  jwks_find :: "'ks \<Rightarrow> string \<Rightarrow> 'k option"
  from_jwk :: "'k \<Rightarrow> 'd option"
  jwt_decode :: "string \<Rightarrow> 'd \<Rightarrow> validation \<Rightarrow> json option"
  url_safe_no_pad_decode :: "string \<Rightarrow> string option"
  json_from_slice :: "string \<Rightarrow> json option"

record 'ks jwks_cache =
  fetched_at :: nat
  cached_keys :: 'ks

type_synonym 'ks jwks_state = "'ks jwks_cache option"

text \<open>The immutable part of \<open>OidcVerifier\<close>.\<close>

record oidc_verifier =
  ov_settings :: settings
  ov_resource :: resource_server

definition with_resource_server :: "settings \<Rightarrow> resource_server \<Rightarrow> oidc_verifier" where
  "with_resource_server settings resource = \<lparr>ov_settings = settings, ov_resource = resource\<rparr>"

definition verifier_new :: "settings \<Rightarrow> oidc_verifier" where
  "verifier_new settings = with_resource_server settings (resource_server_from_settings settings)"

definition unavailable :: app_error where
  "unavailable = ServiceUnavailable ''Authentication service unavailable''"

text \<open>\<open>.send().await?.error_for_status()?.json().await?\<close> with one error for each step.\<close>

definition get_json ::
  "(nat \<Rightarrow> string \<Rightarrow> http_result) \<Rightarrow> (string \<Rightarrow> 'a option) \<Rightarrow> nat \<Rightarrow> string \<Rightarrow> app_error + 'a" where
  "get_json get parse now url =
     (case get now url of
        SendError \<Rightarrow> Inl unavailable
      | HttpResponse status body \<Rightarrow>
          if 400 \<le> status \<and> status < 600 then Inl unavailable
          else ok_or unavailable (parse body))"

text \<open>
  \<open>OidcVerifier::jwks\<close>. The call starts at \<open>now\<close>; a fetch it has to make ends at \<open>done\<close>,
  which is what the cache entry records.
\<close>

definition jwks ::
  "('ks, 'k, 'd) oidc_crates \<Rightarrow> oidc_verifier \<Rightarrow> nat \<Rightarrow> nat \<Rightarrow> ('ks jwks_state, app_error, 'ks) eff" where
  "jwks crates self now done_at = (\<lambda>cache.
     case (case cache of Some c \<Rightarrow> if now - fetched_at c < JWKS_CACHE_TTL then Some (cached_keys c) else None
           | None \<Rightarrow> None) of
       Some keys \<Rightarrow> (Inr keys, cache)
     | None \<Rightarrow>
         (case and_then_r (get_json (http_get crates) (parse_discovery crates) now
                             (rs_discovery_url (ov_resource self)))
                 (\<lambda>jwks_uri. get_json (http_get crates) (parse_jwks crates) now jwks_uri) of
            Inl e \<Rightarrow> (Inl e, cache)
          | Inr keys \<Rightarrow> (Inr keys, Some \<lparr>fetched_at = done_at, cached_keys = keys\<rparr>)))"

definition decode_without_verification :: "('ks, 'k, 'd) oidc_crates \<Rightarrow> string \<Rightarrow> json option" where
  "decode_without_verification crates token =
     (let parts = split_on (CHR ''.'') token in
      if 1 < length parts
      then (case url_safe_no_pad_decode crates (parts ! 1) of
              None \<Rightarrow> None | Some bytes \<Rightarrow> json_from_slice crates bytes)
      else None)"

definition invalid :: app_error where
  "invalid = InvalidToken ''Invalid or expired token''"

definition token_validation :: "resource_server \<Rightarrow> validation" where
  "token_validation resource =
     \<lparr>v_algorithms = [RS256], v_issuers = [rs_issuer resource], v_audiences = [rs_audience resource],
      v_required = [''exp'', ''iss'', ''aud'']\<rparr>"

definition decode_bearer_token ::
  "('ks, 'k, 'd) oidc_crates \<Rightarrow> oidc_verifier \<Rightarrow> nat \<Rightarrow> nat \<Rightarrow> string \<Rightarrow>
   ('ks jwks_state, app_error, claims) eff" where
  "decode_bearer_token crates self now done_at token =
     (if mode_of (ov_settings self) = MockMode
      then lift (ok_or invalid (decode_without_verification crates token))
      else
        and_then (lift (ok_or invalid (decode_header crates token))) (\<lambda>header_kid.
        and_then (lift (ok_or invalid header_kid)) (\<lambda>kid.
        and_then (jwks crates self now done_at) (\<lambda>keys.
        and_then (lift (ok_or invalid (jwks_find crates keys kid))) (\<lambda>jwk.
        and_then (lift (ok_or invalid (from_jwk crates jwk))) (\<lambda>decoding_key.
        lift (ok_or invalid
          (jwt_decode crates token decoding_key (token_validation (ov_resource self))))))))))"

section \<open>The extractor\<close>

definition AUTHORIZATION :: string where
  "AUTHORIZATION = ''authorization''"

definition unauthorized :: app_error where
  "unauthorized = Unauthorized ''Not authenticated''"

definition header_str :: "request_headers \<Rightarrow> string \<Rightarrow> string option" where
  "header_str headers name = (case header_lookup headers name of None \<Rightarrow> None | Some v \<Rightarrow> to_str v)"

definition from_request_parts ::
  "('ks, 'k, 'd) oidc_crates \<Rightarrow> oidc_verifier \<Rightarrow> nat \<Rightarrow> nat \<Rightarrow> request_headers \<Rightarrow>
   ('ks jwks_state, app_error, claims) eff" where
  "from_request_parts crates self now done_at headers =
     and_then (lift (ok_or unauthorized (header_str headers AUTHORIZATION))) (\<lambda>header.
     and_then (lift (ok_or unauthorized (strip_prefix header ''Bearer ''))) (\<lambda>token.
     decode_bearer_token crates self now done_at token))"

section \<open>The manifest's callers\<close>

datatype caller = Anonymous | Authenticated "string list"

definition resolve_caller ::
  "('ks, 'k, 'd) oidc_crates \<Rightarrow> oidc_verifier \<Rightarrow> nat \<Rightarrow> nat \<Rightarrow> request_headers \<Rightarrow>
   ('ks jwks_state, crud_error, caller) eff" where
  "resolve_caller crates self now done_at headers =
     (case (case header_str headers AUTHORIZATION of None \<Rightarrow> None
            | Some value \<Rightarrow> strip_prefix value ''Bearer '') of
        None \<Rightarrow> ok Anonymous
      | Some token \<Rightarrow> (\<lambda>cache.
          case decode_bearer_token crates self now done_at token cache of
            (Inr claims, cache') \<Rightarrow>
              (Inr (Authenticated (granted_roles claims (oidc_client_id (ov_settings self)))), cache')
          | (Inl (ServiceUnavailable msg), cache') \<Rightarrow> (Inl (CrudServiceUnavailable msg), cache')
          | (Inl _, cache') \<Rightarrow> (Inr Anonymous, cache')))"

section \<open>The well-known documents\<close>

definition protected_resource_metadata :: "resource_server \<Rightarrow> json" where
  "protected_resource_metadata resource = JObj
     [(''resource'', JStr (rs_public_base_url resource)),
      (''authorization_servers'', JArr [JStr (rs_issuer resource)]),
      (''scopes_supported'', json_strs (rs_scopes_supported resource)),
      (''bearer_methods_supported'', JArr [JStr ''header'']),
      (''resource_name'', JStr (rs_name resource))]"

definition cache_control :: string where
  "cache_control = ''cache-control''"

definition oauth_protected_resource :: "resource_server \<Rightarrow> response" where
  "oauth_protected_resource resource =
     with_headers [(cache_control, ''public, max-age=3600'')]
       (json_response 200 (protected_resource_metadata resource))"

definition security_txt_response :: "config_crates \<Rightarrow> resource_server \<Rightarrow> response" where
  "security_txt_response crates resource =
     (let body = (case rs_security_txt resource of Some f \<Rightarrow> render crates f | None \<Rightarrow> []) in
      with_headers [(content_type, ''text/plain; charset=utf-8''), (cache_control, ''public, max-age=3600'')]
        (text_response 200 ''text/plain; charset=utf-8'' body))"

text \<open>The router: each path it serves with its response.\<close>

definition well_known_router :: "config_crates \<Rightarrow> resource_server \<Rightarrow> (string \<times> response) list" where
  "well_known_router crates resource =
     (''/.well-known/oauth-protected-resource'', oauth_protected_resource resource) #
     (if rs_security_txt resource \<noteq> None
      then [(''/.well-known/security.txt'', security_txt_response crates resource)] else [])"

text \<open>The headers of a request with one bearer token.\<close>

definition bearer_headers :: "string \<Rightarrow> request_headers" where
  "bearer_headers token = [(AUTHORIZATION, Visible (''Bearer '' @ token))]"

lemma bearer_headers_str: "header_str (bearer_headers token) AUTHORIZATION = Some (''Bearer '' @ token)"
  by (simp add: header_str_def header_lookup_def bearer_headers_def AUTHORIZATION_def to_lowercase_def
      char_lower_def code_def)

lemma from_request_parts_token:
  "from_request_parts crates self now done_at (bearer_headers token) cache =
     decode_bearer_token crates self now done_at token cache"
proof -
  have "strip_prefix (''Bearer '' @ token) ''Bearer '' = Some token" by (simp only: strip_prefix_append)
  then show ?thesis by (simp add: from_request_parts_def run_simps bearer_headers_str)
qed

section \<open>Facts about verification\<close>

lemma list_ex_eq: "list_ex (\<lambda>g. g = x) xs \<longleftrightarrow> x \<in> set xs"
  by (auto simp: list_ex_iff)

lemma require_any_role_iff:
  "require_any_role claims client_id roles =
     (if set roles \<inter> set (granted_roles claims client_id) \<noteq> {} then Inr ()
      else Inl (Forbidden ''Insufficient role''))"
  by (auto simp: require_any_role_def Let_def list_ex_eq list_ex_iff)

lemma get_json_Inl: "get_json get parse now url = Inl e \<Longrightarrow> e = unavailable"
  by (auto simp: get_json_def ok_or_def split: http_result.splits if_splits option.splits)

text \<open>A cache entry is what the provider served, no later than it says.\<close>

definition served_keys :: "('ks, 'k, 'd) oidc_crates \<Rightarrow> oidc_verifier \<Rightarrow> nat \<Rightarrow> 'ks \<Rightarrow> bool" where
  "served_keys crates self t keys \<longleftrightarrow>
     (\<exists>uri. get_json (http_get crates) (parse_discovery crates) t
              (rs_discovery_url (ov_resource self)) = Inr uri \<and>
            get_json (http_get crates) (parse_jwks crates) t uri = Inr keys)"

definition cache_ok :: "('ks, 'k, 'd) oidc_crates \<Rightarrow> oidc_verifier \<Rightarrow> 'ks jwks_state \<Rightarrow> bool" where
  "cache_ok crates self cache \<longleftrightarrow>
     (\<forall>c. cache = Some c \<longrightarrow> (\<exists>t. t \<le> fetched_at c \<and> served_keys crates self t (cached_keys c)))"

lemma jwks_Inr:
  assumes "jwks crates self now done_at cache = (Inr keys, cache')" and "cache_ok crates self cache"
    and "now \<le> done_at"
  shows "cache_ok crates self cache' \<and>
     (\<exists>c t. cache' = Some c \<and> cached_keys c = keys \<and> t \<le> fetched_at c \<and>
        served_keys crates self t keys \<and> now < fetched_at c + JWKS_CACHE_TTL)"
proof (cases "cache \<noteq> None \<and> now - fetched_at (the cache) < JWKS_CACHE_TTL")
  case True
  then obtain c where c: "cache = Some c" "now - fetched_at c < JWKS_CACHE_TTL" by auto
  then have "now < fetched_at c + JWKS_CACHE_TTL" by (simp add: JWKS_CACHE_TTL_def)
  with c assms show ?thesis by (auto simp: jwks_def cache_ok_def)
next
  case False
  then have "(case cache of Some c \<Rightarrow> if now - fetched_at c < JWKS_CACHE_TTL then Some (cached_keys c)
      else None | None \<Rightarrow> None) = None" by (auto split: option.splits)
  then obtain uri where "get_json (http_get crates) (parse_discovery crates) now
        (rs_discovery_url (ov_resource self)) = Inr uri"
      "get_json (http_get crates) (parse_jwks crates) now uri = Inr keys"
      "cache' = Some \<lparr>fetched_at = done_at, cached_keys = keys\<rparr>"
    using assms(1) by (auto simp: jwks_def and_then_r_Inr split: sum.splits)
  then have "served_keys crates self now keys" unfolding served_keys_def by blast
  with assms(3) \<open>cache' = _\<close> show ?thesis
    by (auto simp: cache_ok_def JWKS_CACHE_TTL_def)
qed

lemma jwks_Inl:
  "jwks crates self now done_at cache = (Inl e, cache') \<Longrightarrow>
   e = unavailable \<and> cache' = cache \<and>
   (\<forall>c. cache = Some c \<longrightarrow> fetched_at c + JWKS_CACHE_TTL \<le> now)"
  by (auto simp: jwks_def and_then_r_def JWKS_CACHE_TTL_def dest: get_json_Inl
      split: option.splits sum.splits if_splits)

lemma ok_or_Inl: "ok_or e v = Inl e' \<longleftrightarrow> v = None \<and> e' = e"
  by (cases v) auto

text \<open>
  What jsonwebtoken documents of \<open>decode\<close>: the claims it returns have an issuer of the
  validation's list, an audience of it, and every required claim.
\<close>

definition jwt_documented :: "('ks, 'k, 'd) oidc_crates \<Rightarrow> bool" where
  "jwt_documented crates \<longleftrightarrow>
     (\<forall>token key v claims. jwt_decode crates token key v = Some claims \<longrightarrow>
        (\<exists>i \<in> set (v_issuers v). json_get claims ''iss'' = Some (JStr i)) \<and>
        (\<exists>a \<in> set (v_audiences v). json_get claims ''aud'' = Some (JStr a) \<or>
           (\<exists>as. json_get claims ''aud'' = Some (JArr as) \<and> JStr a \<in> set as)) \<and>
        (\<forall>k \<in> set (v_required v). json_get claims k \<noteq> None))"

lemma verified_token:
  assumes "mode_of (ov_settings self) \<noteq> MockMode" and "jwt_documented crates"
    and "cache_ok crates self cache" and "now \<le> done_at"
    and "from_request_parts crates self now done_at headers cache = (Inr claims, cache')"
  shows "cache_ok crates self cache' \<and>
     (\<exists>token kid c t key d.
        header_str headers AUTHORIZATION = Some (''Bearer '' @ token) \<and>
        decode_header crates token = Some (Some kid) \<and>
        cache' = Some c \<and> t \<le> fetched_at c \<and> served_keys crates self t (cached_keys c) \<and>
        now < fetched_at c + 300 * 10 ^ 9 \<and>
        jwks_find crates (cached_keys c) kid = Some key \<and> from_jwk crates key = Some d \<and>
        jwt_decode crates token d (token_validation (ov_resource self)) = Some claims) \<and>
     json_get claims ''iss'' = Some (JStr (rs_issuer (ov_resource self))) \<and>
     (json_get claims ''aud'' = Some (JStr (rs_audience (ov_resource self))) \<or>
      (\<exists>as. json_get claims ''aud'' = Some (JArr as) \<and> JStr (rs_audience (ov_resource self)) \<in> set as)) \<and>
     json_get claims ''exp'' \<noteq> None"
proof -
  obtain hv token where hd: "header_str headers AUTHORIZATION = Some hv"
      "strip_prefix hv ''Bearer '' = Some token"
      "decode_bearer_token crates self now done_at token cache = (Inr claims, cache')"
    using assms(5)
    by (auto simp: from_request_parts_def run_simps ok_or_Inr split: sum.splits)
  obtain kid keys cache1 key d where tok: "decode_header crates token = Some (Some kid)"
      "jwks crates self now done_at cache = (Inr keys, cache1)" "jwks_find crates keys kid = Some key"
      "from_jwk crates key = Some d"
      "jwt_decode crates token d (token_validation (ov_resource self)) = Some claims" "cache' = cache1"
    using hd(3) assms(1)
    by (auto simp: decode_bearer_token_def run_simps ok_or_Inr split: sum.splits prod.splits)
  have "hv = ''Bearer '' @ token" using hd(2) by (simp only: strip_prefix_Some)
  moreover note jwks_Inr [OF tok(2) assms(3,4)]
  moreover have "(\<exists>i \<in> set (v_issuers (token_validation (ov_resource self))).
        json_get claims ''iss'' = Some (JStr i)) \<and>
      (\<exists>a \<in> set (v_audiences (token_validation (ov_resource self))).
        json_get claims ''aud'' = Some (JStr a) \<or>
        (\<exists>as. json_get claims ''aud'' = Some (JArr as) \<and> JStr a \<in> set as)) \<and>
      (\<forall>k \<in> set (v_required (token_validation (ov_resource self))). json_get claims k \<noteq> None)"
    using assms(2) tok(5) unfolding jwt_documented_def by blast
  ultimately show ?thesis using hd(1) tok by (auto simp: token_validation_def JWKS_CACHE_TTL_def)
qed

text \<open>
  C8. Outside mock mode a request is authenticated only by a bearer token whose signature
  jsonwebtoken verified, as RS256 and under the configured issuer and audience with \<open>exp\<close>,
  \<open>iss\<close> and \<open>aud\<close> present, with the key its \<open>kid\<close> names in a key set the provider served and
  that was fetched less than 300 seconds before. The cache only ever holds served key sets.
\<close>

theorem authenticated_only_if_verified:
  assumes "mode_of (ov_settings self) \<noteq> MockMode" and "jwt_documented crates"
    and "cache_ok crates self cache" and "now \<le> done_at"
    and "from_request_parts crates self now done_at headers cache = (Inr claims, cache')"
  shows "cache_ok crates self cache' \<and>
     (\<exists>token kid c t key d.
        header_str headers AUTHORIZATION = Some (''Bearer '' @ token) \<and>
        decode_header crates token = Some (Some kid) \<and>
        cache' = Some c \<and> t \<le> fetched_at c \<and> served_keys crates self t (cached_keys c) \<and>
        now < fetched_at c + 300 * 10 ^ 9 \<and>
        jwks_find crates (cached_keys c) kid = Some key \<and> from_jwk crates key = Some d \<and>
        jwt_decode crates token d (token_validation (ov_resource self)) = Some claims) \<and>
     json_get claims ''iss'' = Some (JStr (rs_issuer (ov_resource self))) \<and>
     (json_get claims ''aud'' = Some (JStr (rs_audience (ov_resource self))) \<or>
      (\<exists>as. json_get claims ''aud'' = Some (JArr as) \<and> JStr (rs_audience (ov_resource self)) \<in> set as)) \<and>
     json_get claims ''exp'' \<noteq> None"
  using verified_token [OF assms] .

lemma decode_bearer_token_Inl:
  "decode_bearer_token crates self now done_at token cache = (Inl e, cache') \<Longrightarrow>
   e = invalid \<or> (e = unavailable \<and> mode_of (ov_settings self) \<noteq> MockMode \<and> cache' = cache \<and>
     (\<forall>c. cache = Some c \<longrightarrow> fetched_at c + JWKS_CACHE_TTL \<le> now))"
  by (auto simp: decode_bearer_token_def run_simps ok_or_Inl dest!: jwks_Inl
      split: if_splits prod.splits sum.splits)

text \<open>
  The key set a verification at \<open>now\<close> goes by: the cached one while it is fresh, else the one the
  provider serves; none when it fails to. \<open>verifies\<close> is what jsonwebtoken then has to answer.
\<close>

definition usable_keys :: "('ks, 'k, 'd) oidc_crates \<Rightarrow> oidc_verifier \<Rightarrow> nat \<Rightarrow> 'ks jwks_state \<Rightarrow> 'ks \<Rightarrow> bool" where
  "usable_keys crates self now cache keys \<longleftrightarrow>
     (if (\<exists>c. cache = Some c \<and> now < fetched_at c + JWKS_CACHE_TTL) then map_option cached_keys cache = Some keys
      else served_keys crates self now keys)"

definition verifies :: "('ks, 'k, 'd) oidc_crates \<Rightarrow> oidc_verifier \<Rightarrow> 'ks \<Rightarrow> string \<Rightarrow> string \<Rightarrow> claims \<Rightarrow> bool" where
  "verifies crates self keys kid token claims \<longleftrightarrow>
     (\<exists>key d. jwks_find crates keys kid = Some key \<and> from_jwk crates key = Some d \<and>
        jwt_decode crates token d (token_validation (ov_resource self)) = Some claims)"

lemma served_keys_fetch:
  "served_keys crates self now keys \<longleftrightarrow>
     and_then_r (get_json (http_get crates) (parse_discovery crates) now (rs_discovery_url (ov_resource self)))
       (\<lambda>jwks_uri. get_json (http_get crates) (parse_jwks crates) now jwks_uri) = Inr keys"
  by (auto simp: served_keys_def and_then_r_Inr)

lemma jwks_usable: "fst (jwks crates self now done_at cache) = Inr keys \<longleftrightarrow> usable_keys crates self now cache keys"
proof (cases "\<exists>c. cache = Some c \<and> now < fetched_at c + JWKS_CACHE_TTL")
  case True
  then obtain c where "cache = Some c" "now - fetched_at c < JWKS_CACHE_TTL"
    by (auto simp: JWKS_CACHE_TTL_def)
  then show ?thesis using True by (auto simp: usable_keys_def jwks_def)
next
  case False
  then have "(case cache of Some c \<Rightarrow> if now - fetched_at c < JWKS_CACHE_TTL then Some (cached_keys c)
      else None | None \<Rightarrow> None) = None"
    by (auto simp: JWKS_CACHE_TTL_def split: option.splits)
  then show ?thesis
    unfolding usable_keys_def if_not_P [OF False] by (simp add: jwks_def served_keys_fetch split: sum.split)
qed

lemma jwks_unusable:
  assumes "jwks crates self now done_at cache = (Inl e, cache')"
  shows "e = unavailable \<and> cache' = cache \<and> (\<nexists>keys. usable_keys crates self now cache keys)"
  using jwks_Inl [OF assms] jwks_usable [of crates self now done_at cache] assms by auto

text \<open>What becomes of a presented token outside mock mode.\<close>

lemma decode_bearer_token_real:
  assumes "mode_of (ov_settings self) \<noteq> MockMode"
    and "decode_bearer_token crates self now done_at token cache = (res, cache')"
  shows "case decode_header crates token of
      Some (Some kid) \<Rightarrow>
        if (\<exists>keys. usable_keys crates self now cache keys)
        then (\<exists>keys. usable_keys crates self now cache keys \<and>
          (case res of Inr claims \<Rightarrow> verifies crates self keys kid token claims
           | Inl e \<Rightarrow> e = invalid \<and> (\<nexists>claims. verifies crates self keys kid token claims)))
        else res = Inl unavailable \<and> cache' = cache
    | _ \<Rightarrow> res = Inl invalid"
proof (cases "decode_header crates token")
  case (Some header_kid)
  show ?thesis
  proof (cases header_kid)
    case kid: (Some kid)
    obtain keys_res cache1 where j: "jwks crates self now done_at cache = (keys_res, cache1)" by force
    show ?thesis
    proof (cases keys_res)
      case (Inl e)
      then show ?thesis
        using jwks_unusable j assms Some kid by (fastforce simp: decode_bearer_token_def run_simps)
    next
      case (Inr keys)
      then have "usable_keys crates self now cache keys" using jwks_usable j by (metis fst_conv)
      then show ?thesis
        using Inr j assms Some kid
        by (cases "jwks_find crates keys kid"; cases "from_jwk crates (the (jwks_find crates keys kid))";
            cases "jwt_decode crates token (the (from_jwk crates (the (jwks_find crates keys kid))))
              (token_validation (ov_resource self))")
          (auto simp: decode_bearer_token_def run_simps verifies_def)
    qed
  qed (use assms Some in \<open>simp add: decode_bearer_token_def run_simps\<close>)
qed (use assms in \<open>simp add: decode_bearer_token_def run_simps\<close>)

lemma usable_keys_unique:
  "usable_keys crates self now cache keys \<Longrightarrow> usable_keys crates self now cache keys' \<Longrightarrow> keys = keys'"
  by (simp flip: jwks_usable [where done_at = now])

text \<open>
  C32. When a request is refused, and how. 401 without a token, exactly when it has no usable bearer
  header. 503, exactly when outside mock mode the token names a key and there is no key set to look it
  up in: none cached within the last 300 seconds, and the provider did not serve its discovery document
  or its keys; the cache then stays as it was. 401 for the token, exactly when one is presented and
  mock mode cannot read its payload, or, outside mock mode, it names no key, or there is a key set under
  which it does not verify. There is no other refusal.
\<close>

theorem authentication_failures:
  assumes "from_request_parts crates self now done_at headers cache = (res, cache')"
  shows "(res = Inl (Unauthorized ''Not authenticated'')) =
      (\<nexists>token. header_str headers AUTHORIZATION = Some (''Bearer '' @ token)) \<and>
    (res = Inl (ServiceUnavailable ''Authentication service unavailable'')) =
      (mode_of (ov_settings self) \<noteq> MockMode \<and>
       (\<exists>token kid. header_str headers AUTHORIZATION = Some (''Bearer '' @ token) \<and>
          decode_header crates token = Some (Some kid)) \<and>
       (\<nexists>c. cache = Some c \<and> now < fetched_at c + 300 * 10 ^ 9) \<and>
       (\<nexists>keys. served_keys crates self now keys)) \<and>
    (res = Inl (InvalidToken ''Invalid or expired token'')) =
      (\<exists>token. header_str headers AUTHORIZATION = Some (''Bearer '' @ token) \<and>
        (if mode_of (ov_settings self) = MockMode then decode_without_verification crates token = None
         else case decode_header crates token of
             Some (Some kid) \<Rightarrow> \<exists>keys. usable_keys crates self now cache keys \<and>
               (\<nexists>claims. verifies crates self keys kid token claims)
           | _ \<Rightarrow> True)) \<and>
    (\<forall>e. res = Inl e \<longrightarrow> e \<in> {Unauthorized ''Not authenticated'',
      ServiceUnavailable ''Authentication service unavailable'', InvalidToken ''Invalid or expired token''}) \<and>
    (res = Inl (ServiceUnavailable ''Authentication service unavailable'') \<longrightarrow> cache' = cache)"
proof (cases "\<exists>token. header_str headers AUTHORIZATION = Some (''Bearer '' @ token)")
  case True
  then obtain token where hd: "header_str headers AUTHORIZATION = Some (''Bearer '' @ token)" by blast
  then have only: "header_str headers AUTHORIZATION = Some (''Bearer '' @ token') \<longleftrightarrow> token' = token" for token'
    by auto
  have "strip_prefix (''Bearer '' @ token) ''Bearer '' = Some token" by (simp only: strip_prefix_append)
  then have d: "decode_bearer_token crates self now done_at token cache = (res, cache')"
    using assms hd by (simp add: from_request_parts_def run_simps)
  have none: "(\<exists>keys. usable_keys crates self now cache keys) =
      ((\<exists>c. cache = Some c \<and> now < fetched_at c + 300 * 10 ^ 9) \<or> (\<exists>keys. served_keys crates self now keys))"
    by (cases "\<exists>c. cache = Some c \<and> now < fetched_at c + 300 * 10 ^ 9") (auto simp: usable_keys_def JWKS_CACHE_TTL_def)
  show ?thesis
  proof (cases "mode_of (ov_settings self) = MockMode")
    case True
    then have "res = ok_or invalid (decode_without_verification crates token)"
      using d by (auto simp: decode_bearer_token_def run_simps)
    then show ?thesis
      unfolding only using True by (cases "decode_without_verification crates token") (auto simp: invalid_def)
  next
    case False
    note real = decode_bearer_token_real [OF this d]
    show ?thesis
    proof (cases "\<exists>kid. decode_header crates token = Some (Some kid)")
      case True
      then obtain kid where kid: "decode_header crates token = Some (Some kid)" by blast
      show ?thesis
      proof (cases "\<exists>keys. usable_keys crates self now cache keys")
        case True
        then obtain keys where keys: "usable_keys crates self now cache keys"
            "case res of Inr claims \<Rightarrow> verifies crates self keys kid token claims
             | Inl e \<Rightarrow> e = invalid \<and> (\<nexists>claims. verifies crates self keys kid token claims)"
          using real kid by auto
        then have u: "usable_keys crates self now cache keys' \<longleftrightarrow> keys' = keys" for keys'
          by - (rule iffI, rule usable_keys_unique [OF _ keys(1)], assumption, simp add: keys(1))
        show ?thesis
          unfolding only using keys(2) kid False True [unfolded none] u by (cases res) (auto simp: invalid_def)
      next
        case nokeys: False
        then show ?thesis
          unfolding only using real kid False nokeys [unfolded none] by (auto simp: unavailable_def)
      qed
    next
      case nokid: False
      then have "res = Inl invalid" using real by (auto split: option.splits)
      then show ?thesis unfolding only using nokid False by (auto simp: invalid_def split: option.splits)
    qed
  qed
next
  case False
  have "strip_prefix hv ''Bearer '' = None" if "header_str headers AUTHORIZATION = Some hv" for hv
    using that False strip_prefix_None [of hv "''Bearer ''"] by auto
  then have "res = Inl unauthorized"
    using assms by (cases "header_str headers AUTHORIZATION") (auto simp: from_request_parts_def run_simps)
  then show ?thesis using False by (auto simp: unauthorized_def)
qed

text \<open>
  The CRUD manifest sees exactly the callers the extractor authenticates, with their roles
  under this application's client; every other caller is anonymous, except that an
  unreachable provider stays an error.
\<close>

theorem manifest_callers_agree:
  "resolve_caller crates self now done_at headers cache =
     (case from_request_parts crates self now done_at headers cache of
        (Inr claims, cache') \<Rightarrow>
          (Inr (Authenticated (granted_roles claims (oidc_client_id (ov_settings self)))), cache')
      | (Inl e, cache') \<Rightarrow>
          (if e = ServiceUnavailable ''Authentication service unavailable''
           then Inl (CrudServiceUnavailable ''Authentication service unavailable'')
           else Inr Anonymous, cache'))"
proof (cases "header_str headers AUTHORIZATION")
  case None
  then show ?thesis
    by (simp add: resolve_caller_def from_request_parts_def run_simps unauthorized_def)
next
  case (Some hv)
  show ?thesis
  proof (cases "strip_prefix hv ''Bearer ''")
    case None
    with Some show ?thesis
      by (simp add: resolve_caller_def from_request_parts_def run_simps unauthorized_def)
  next
    case tok: (Some token)
    obtain r cache' where r: "decode_bearer_token crates self now done_at token cache = (r, cache')"
      by force
    show ?thesis
    proof (cases r)
      case (Inl e)
      with Some tok r show ?thesis
        using decode_bearer_token_Inl [of crates self now done_at token cache e cache']
        by (auto simp: resolve_caller_def from_request_parts_def run_simps invalid_def unavailable_def)
    next
      case (Inr claims)
      with Some tok r show ?thesis
        by (simp add: resolve_caller_def from_request_parts_def run_simps)
    qed
  qed
qed

section \<open>A concrete provider\<close>

definition sample_oidc_crates :: "(string list, string, string) oidc_crates" where
  "sample_oidc_crates =
     \<lparr>http_get = (\<lambda>t url. if url = ''http://id/realm/.well-known/openid-configuration''
                          then HttpResponse 200 ''http://id/jwks''
                          else if url = ''http://id/jwks'' then HttpResponse 200 ''keys'' else SendError),
      parse_discovery = Some, parse_jwks = (\<lambda>_. Some [''k1'']),
      decode_header = (\<lambda>token. Some (Some ''k1'')),
      jwks_find = (\<lambda>ks kid. if kid \<in> set ks then Some kid else None),
      from_jwk = Some,
      jwt_decode = (\<lambda>token d v.
        if token = ''good'' \<and> v_issuers v \<noteq> [] \<and> v_audiences v \<noteq> [] \<and>
           list_all (\<lambda>k. k = ''exp'' \<or> k = ''iss'' \<or> k = ''aud'') (v_required v)
        then Some (JObj [(''iss'', JStr (hd (v_issuers v))), (''aud'', JStr (hd (v_audiences v))),
                         (''exp'', JInt 1), (''sub'', JStr ''alice'')])
        else None),
      url_safe_no_pad_decode = Some, json_from_slice = (\<lambda>_. Some (JObj []))\<rparr>"

definition sample_verifier :: "mode \<Rightarrow> oidc_verifier" where
  "sample_verifier m = verifier_new (sample_settings m)"

lemma sample_jwt_documented: "jwt_documented sample_oidc_crates"
  by (auto simp: jwt_documented_def sample_oidc_crates_def list_all_iff split: if_splits)

lemma sample_discovery:
  "rs_discovery_url (ov_resource (sample_verifier m)) =
     ''http://id/realm/.well-known/openid-configuration''"
  by (simp add: sample_verifier_def verifier_new_def with_resource_server_def resource_server_from_settings_def
      sample_settings_def discovery_url_for_def trim_end_matches_def)

lemma sample_crates_sel:
  "decode_header sample_oidc_crates token = Some (Some ''k1'')"
  "jwks_find sample_oidc_crates [''k1''] ''k1'' = Some ''k1''"
  "from_jwk sample_oidc_crates d = Some d"
  by (simp_all add: sample_oidc_crates_def)

lemma sample_validation:
  "jwt_decode sample_oidc_crates ''good'' d (token_validation (ov_resource (sample_verifier Dev))) =
     Some (JObj [(''iss'', JStr ''http://id/realm''), (''aud'', JStr ''api''), (''exp'', JInt 1),
                 (''sub'', JStr ''alice'')])"
  by (simp add: sample_oidc_crates_def token_validation_def sample_verifier_def verifier_new_def with_resource_server_def
      resource_server_from_settings_def sample_settings_def DEFAULT_AUDIENCE_def)

lemma sample_accepts:
  "from_request_parts sample_oidc_crates (sample_verifier Dev) 5 9 (bearer_headers ''good'') None =
     (Inr (JObj [(''iss'', JStr ''http://id/realm''), (''aud'', JStr ''api''), (''exp'', JInt 1),
                 (''sub'', JStr ''alice'')]),
      Some \<lparr>fetched_at = 9, cached_keys = [''k1'']\<rparr>)"
proof -
  have "strip_prefix (''Bearer '' @ ''good'') ''Bearer '' = Some ''good''"
    by (simp only: strip_prefix_append)
  moreover have "mode_of (ov_settings (sample_verifier Dev)) \<noteq> MockMode"
    by (simp add: sample_verifier_def verifier_new_def with_resource_server_def sample_settings_def)
  moreover have "jwks sample_oidc_crates (sample_verifier Dev) 5 9 None =
      (Inr [''k1''], Some \<lparr>fetched_at = 9, cached_keys = [''k1'']\<rparr>)"
    by (simp add: jwks_def get_json_def sample_discovery) (simp add: sample_oidc_crates_def get_json_def)
  ultimately show ?thesis
    by (simp add: from_request_parts_def run_simps bearer_headers_str decode_bearer_token_def
        sample_crates_sel sample_validation)
qed

theorem authenticated_only_if_verified_witness:
  "\<exists>claims cache'. from_request_parts sample_oidc_crates (sample_verifier Dev) 5 9
       (bearer_headers ''good'') None = (Inr claims, cache') \<and>
     json_get claims ''iss'' = Some (JStr (rs_issuer (ov_resource (sample_verifier Dev))))"
proof -
  have "mode_of (ov_settings (sample_verifier Dev)) \<noteq> MockMode"
    by (simp add: sample_verifier_def verifier_new_def with_resource_server_def sample_settings_def)
  moreover have "cache_ok sample_oidc_crates (sample_verifier Dev) None" by (simp add: cache_ok_def)
  ultimately show ?thesis
    using sample_accepts authenticated_only_if_verified [OF _ sample_jwt_documented _ _ sample_accepts]
    by auto
qed

text \<open>A provider that is down: refused without a cached key set, verified under a fresh one.\<close>

definition sample_down_crates :: "(string list, string, string) oidc_crates" where
  "sample_down_crates = sample_oidc_crates\<lparr>http_get := \<lambda>t url. SendError\<rparr>"

theorem authentication_failures_witness:
  "fst (from_request_parts sample_down_crates (sample_verifier Dev) 5 9 (bearer_headers ''good'') None) =
     Inl (ServiceUnavailable ''Authentication service unavailable'') \<and>
   fst (from_request_parts sample_down_crates (sample_verifier Dev) 5 9 (bearer_headers ''bad'')
     (Some \<lparr>fetched_at = 4, cached_keys = []\<rparr>)) = Inl (InvalidToken ''Invalid or expired token'') \<and>
   fst (from_request_parts sample_down_crates (sample_verifier Dev) 5 9 [] None) =
     Inl (Unauthorized ''Not authenticated'')"
proof -
  have kid: "decode_header sample_down_crates token = Some (Some ''k1'')" for token
    by (simp add: sample_down_crates_def sample_oidc_crates_def)
  have down: "\<not> served_keys sample_down_crates self t keys" for self t keys
    by (simp add: served_keys_def get_json_def sample_down_crates_def)
  have mode: "mode_of (ov_settings (sample_verifier Dev)) \<noteq> MockMode"
    by (simp add: sample_verifier_def verifier_new_def with_resource_server_def sample_settings_def)
  have "\<not> verifies sample_down_crates self [] kid token claims" for self kid token claims
    by (simp add: verifies_def sample_down_crates_def sample_oidc_crates_def)
  moreover have "usable_keys sample_down_crates self 5 (Some \<lparr>fetched_at = 4, cached_keys = []\<rparr>) keys = (keys = [])"
    for self keys by (auto simp: usable_keys_def JWKS_CACHE_TTL_def)
  moreover have "header_str [] AUTHORIZATION = None" by (simp add: header_str_def header_lookup_def)
  ultimately show ?thesis
    using kid down mode bearer_headers_str
      authentication_failures [OF surjective_pairing, of sample_down_crates "sample_verifier Dev" 5 9
        "bearer_headers ''good''" None]
      authentication_failures [OF surjective_pairing, of sample_down_crates "sample_verifier Dev" 5 9
        "bearer_headers ''bad''" "Some \<lparr>fetched_at = 4, cached_keys = []\<rparr>"]
      authentication_failures [OF surjective_pairing, of sample_down_crates "sample_verifier Dev" 5 9 "[]" None]
    by auto
qed

end
