(* ===== verification/Rate_Limit.thy ===== *)
theory Rate_Limit
  imports Problem_Details
begin

text \<open>
  \<open>src/rate_limit.rs\<close>: the fixed-window limiter with its two backends. The in-memory one
  keeps a \<open>(u32, Instant)\<close> per key (instants in nanoseconds). The Redis one runs a Lua script;
  the commands it calls are parameters, and \<open>redis_documented\<close> states what the Redis manual promises
  of them. Both backends are shown to follow one reference counter.
\<close>

section \<open>The two backends\<close>

type_synonym mock_store = "string \<rightharpoonup> 32 word \<times> nat"

text \<open>The Redis commands of the script: state, error text, reply.\<close>

record 'r redis_commands =
  incr :: "string \<Rightarrow> ('r, string, int) eff"
  expire :: "string \<Rightarrow> nat \<Rightarrow> ('r, string, unit) eff"

text \<open>\<open>INCR_WITH_EXPIRY\<close>.\<close>

definition INCR_WITH_EXPIRY :: "'r redis_commands \<Rightarrow> string \<Rightarrow> nat \<Rightarrow> ('r, string, int) eff" where
  "INCR_WITH_EXPIRY redis key window_secs =
     and_then (incr redis key) (\<lambda>n.
     if n = 1
     then and_then (expire redis key window_secs) (\<lambda>_. ok n)
     else ok n)"

datatype 'r backend = Redis 'r | Mock mock_store

definition nanos :: "nat \<Rightarrow> nat" where
  "nanos secs = secs * 10 ^ 9"

text \<open>The arm of \<open>Backend::Mock\<close>: \<open>+= 1\<close> on a \<open>u32\<close> wraps in a release build.\<close>

definition mock_count :: "nat \<Rightarrow> nat \<Rightarrow> string \<Rightarrow> mock_store \<Rightarrow> 32 word \<times> mock_store" where
  "mock_count now window_secs key store =
     (let entry = (case store key of Some e \<Rightarrow> e | None \<Rightarrow> (0, now));
          entry = (if nanos window_secs \<le> now - snd entry then (0, now) else entry);
          entry = (fst entry + 1, snd entry)
      in (fst entry, store(key \<mapsto> entry)))"

text \<open>The arm of \<open>Backend::Redis\<close>: the reply is read as a \<open>u32\<close>.\<close>

definition redis_count ::
  "'r redis_commands \<Rightarrow> nat \<Rightarrow> string \<Rightarrow> ('r, app_error, 32 word) eff" where
  "redis_count redis window_secs key = (\<lambda>conn.
     case INCR_WITH_EXPIRY redis key window_secs conn of
       (Inl err, conn') \<Rightarrow> (Inl (Internal (''rate limiter: '' @ err)), conn')
     | (Inr n, conn') \<Rightarrow>
         (if 0 \<le> n \<and> n < 2 ^ 32 then (Inr (word_of_int n), conn')
          else (Inl (Internal (''rate limiter: '' @ ''response was not a u32'')), conn')))"

definition rate_key :: "string \<Rightarrow> string \<Rightarrow> string" where
  "rate_key scope client_ip = ''ratelimit:'' @ scope @ '':'' @ client_ip"

definition count_hit ::
  "'r redis_commands \<Rightarrow> nat \<Rightarrow> nat \<Rightarrow> string \<Rightarrow> ('r backend, app_error, 32 word) eff" where
  "count_hit redis now window_secs key = (\<lambda>backend. case backend of
     Redis conn \<Rightarrow> (case redis_count redis window_secs key conn of (r, conn') \<Rightarrow> (r, Redis conn'))
   | Mock store \<Rightarrow> (case mock_count now window_secs key store of (n, store') \<Rightarrow> (Inr n, Mock store')))"

text \<open>\<open>RateLimiter::check\<close> at instant \<open>now\<close>.\<close>

definition check ::
  "'r redis_commands \<Rightarrow> nat \<Rightarrow> string \<Rightarrow> string \<Rightarrow> 32 word \<Rightarrow> nat \<Rightarrow> ('r backend, app_error, unit) eff"
  where
  "check redis now scope client_ip limit window_secs =
     (let key = rate_key scope client_ip in
      and_then (count_hit redis now window_secs key) (\<lambda>n.
      if limit < n
      then lift (Inl (TooManyRequests (''rate limit exceeded: more than '' @ show_nat (unat limit) @
             '' requests per '' @ show_nat window_secs @ ''s'')))
      else ok ()))"

section \<open>Runs of checks and the reference counter\<close>

text \<open>
  Checks \<open>(instant, scope, client)\<close> in order; each result tells whether it was accepted.
  \<open>pass\<close> lets a Redis server's clock reach the instant of the next check.
\<close>

primrec check_run ::
  "'r redis_commands \<Rightarrow> (nat \<Rightarrow> 'r \<Rightarrow> 'r) \<Rightarrow> 32 word \<Rightarrow> nat \<Rightarrow>
   (nat \<times> string \<times> string) list \<Rightarrow> 'r backend \<Rightarrow> bool list" where
  "check_run redis pass limit window_secs [] st = []"
| "check_run redis pass limit window_secs (q # qs) st =
     (case q of (now, scope, client_ip) \<Rightarrow>
      case check redis now scope client_ip limit window_secs
             (case st of Redis conn \<Rightarrow> Redis (pass now conn) | Mock store \<Rightarrow> Mock store) of
        (Inl _, st') \<Rightarrow> False # check_run redis pass limit window_secs qs st'
      | (Inr _, st') \<Rightarrow> True # check_run redis pass limit window_secs qs st')"

text \<open>The same for a bare counter: \<open>hit now key state\<close> returns the new count.\<close>

primrec hit_run ::
  "(nat \<Rightarrow> string \<Rightarrow> 'st \<Rightarrow> nat \<times> 'st) \<Rightarrow> nat \<Rightarrow> (nat \<times> string) list \<Rightarrow> 'st \<Rightarrow> bool list \<times> 'st" where
  "hit_run hit limit [] st = ([], st)"
| "hit_run hit limit (h # hs) st =
     (case hit (fst h) (snd h) st of (c, st') \<Rightarrow>
        (case hit_run hit limit hs st' of (bs, st'') \<Rightarrow> ((c \<le> limit) # bs, st'')))"

text \<open>
  The reference: what one key sees from its own hits alone, given its running window (count
  and start). A hit inside the window counts up, any other opens a window at its instant.
\<close>

primrec reference ::
  "nat \<Rightarrow> nat \<Rightarrow> nat list \<Rightarrow> (nat \<times> nat) option \<Rightarrow> (nat \<times> bool) list" where
  "reference len limit [] w = []"
| "reference len limit (t # ts) w =
     (let w' = (case w of Some (c, s) \<Rightarrow> if t < s + len then (c + 1, s) else (1, t)
                        | None \<Rightarrow> (1, t))
      in (t, fst w' \<le> limit) # reference len limit ts (Some w'))"

definition tagged :: "'k \<Rightarrow> (nat \<times> 'k) list \<Rightarrow> bool list \<Rightarrow> (nat \<times> bool) list" where
  "tagged k hs bs = map (\<lambda>(h, b). (fst h, b)) (filter (\<lambda>(h, b). snd h = k) (zip hs bs))"

definition times_of :: "'k \<Rightarrow> (nat \<times> 'k) list \<Rightarrow> nat list" where
  "times_of k hs = map fst (filter (\<lambda>h. snd h = k) hs)"

definition accepted_between :: "nat \<Rightarrow> nat \<Rightarrow> (nat \<times> bool) list \<Rightarrow> nat" where
  "accepted_between T len rs = length (filter (\<lambda>(t, b). b \<and> T \<le> t \<and> t < T + len) rs)"

lemma reference_times: "map fst (reference len limit ts w) = ts"
  by (induction ts arbitrary: w) (auto simp: Let_def)

lemma accepted_late: "\<forall>t \<in> set ts. T + len \<le> t \<Longrightarrow> accepted_between T len (reference len limit ts w) = 0"
proof -
  assume "\<forall>t \<in> set ts. T + len \<le> t"
  then have "\<forall>t \<in> fst ` set (reference len limit ts w). T + len \<le> t"
    by (metis list.set_map reference_times)
  then show ?thesis by (fastforce simp: accepted_between_def filter_empty_conv)
qed

lemma accepted_in_window:
  "sorted ts \<Longrightarrow> T \<le> s \<Longrightarrow>
   accepted_between T len (reference len limit ts (Some (c, s))) \<le> limit - c"
proof (induction ts arbitrary: c)
  case Nil
  then show ?case by (simp add: accepted_between_def)
next
  case (Cons t ts)
  show ?case
  proof (cases "t < s + len")
    case True
    have "accepted_between T len (reference len limit ts (Some (c + 1, s))) \<le> limit - (c + 1)"
      using Cons by simp
    with True show ?thesis by (auto simp: accepted_between_def Let_def)
  next
    case False
    with Cons.prems have "\<forall>t' \<in> set (t # ts). T + len \<le> t'" by auto
    then show ?thesis by (simp only: accepted_late)
  qed
qed

lemma accepted_Cons:
  "accepted_between T len ((t, b) # rs) =
     (if b \<and> T \<le> t \<and> t < T + len then 1 else 0) + accepted_between T len rs"
  by (simp add: accepted_between_def)

lemma accepted_new_window:
  "sorted (t # ts) \<Longrightarrow> T \<le> t \<Longrightarrow>
   accepted_between T len ((t, 1 \<le> limit) # reference len limit ts (Some (1, t))) \<le> limit"
  using accepted_in_window [of ts T t len limit 1] by (auto simp: accepted_Cons)

lemma accepted_cut_window:
  "sorted ts \<Longrightarrow> T < s + len \<Longrightarrow>
   accepted_between T len (reference len limit ts (Some (c, s))) \<le> limit + (limit - c)"
proof (induction ts arbitrary: c)
  case Nil
  then show ?case by (simp add: accepted_between_def)
next
  case (Cons t ts)
  show ?case
  proof (cases "t < s + len")
    case True
    have "accepted_between T len (reference len limit ts (Some (c + 1, s))) \<le> limit + (limit - (c + 1))"
      using Cons by simp
    with True show ?thesis by (auto simp: accepted_Cons Let_def)
  next
    case False
    then have "accepted_between T len ((t, 1 \<le> limit) # reference len limit ts (Some (1, t))) \<le> limit"
      using Cons.prems by (intro accepted_new_window) auto
    with False show ?thesis by (simp add: Let_def)
  qed
qed

lemma accepted_old_window:
  "sorted ts \<Longrightarrow> s + len \<le> T \<Longrightarrow>
   accepted_between T len (reference len limit ts (Some (c, s))) \<le> 2 * limit"
proof (induction ts arbitrary: c s)
  case Nil
  then show ?case by (simp add: accepted_between_def)
next
  case (Cons t ts)
  consider "t < s + len" | "s + len \<le> t" "T \<le> t" | "s + len \<le> t" "t < T" by linarith
  then show ?case
  proof cases
    case 1
    then show ?thesis using Cons by (simp add: accepted_Cons Let_def)
  next
    case 2
    then show ?thesis
      using accepted_new_window [OF Cons.prems(1), of T len limit] by (simp add: Let_def)
  next
    case 3
    have "accepted_between T len (reference len limit ts (Some (1, t))) \<le> 2 * limit"
    proof (cases "t + len \<le> T")
      case True
      then show ?thesis using Cons by simp
    next
      case False
      then show ?thesis
        using accepted_cut_window [of ts T t len limit 1] Cons.prems by simp
    qed
    with 3 show ?thesis by (simp add: accepted_Cons Let_def)
  qed
qed

lemma accepted_bound:
  "sorted ts \<Longrightarrow> accepted_between T len (reference len limit ts w) \<le> 2 * limit"
proof (cases w)
  case None
  assume s: "sorted ts"
  show ?thesis
  proof (cases ts)
    case Nil
    then show ?thesis by (simp add: accepted_between_def)
  next
    case (Cons t ts')
    show ?thesis
    proof (cases "T \<le> t")
      case True
      then show ?thesis
        using accepted_new_window [of t ts' T len limit] s Cons None by (simp add: Let_def)
    next
      case False
      then have "accepted_between T len (reference len limit ts' (Some (1, t))) \<le> 2 * limit"
        using accepted_cut_window [of ts' T t len limit 1] accepted_old_window [of ts' t len T limit 1]
          s Cons by (cases "T < t + len") simp_all
      with False show ?thesis using Cons None by (simp add: accepted_Cons Let_def)
    qed
  qed
next
  case (Some cs)
  assume s: "sorted ts"
  obtain c s where "w = Some (c, s)" using Some by (cases cs) auto
  then show ?thesis
    using s accepted_cut_window [of ts T s len limit c] accepted_old_window [of ts s len T limit c]
    by (cases "T < s + len") simp_all
qed

text \<open>From a fresh key, the first \<open>limit\<close> hits of a window are accepted and no other.\<close>

lemma reference_one_window:
  "\<forall>t \<in> set ts. t < s + len \<Longrightarrow>
   map snd (reference len limit ts (Some (c, s))) =
     replicate (min (length ts) (limit - c)) True @ replicate (length ts - (limit - c)) False"
proof (induction ts arbitrary: c)
  case Nil
  then show ?case by simp
next
  case (Cons t ts)
  show ?case
  proof (cases "limit - c")
    case 0
    with Cons show ?thesis by (auto simp: Let_def)
  next
    case (Suc d)
    then have "limit - (c + 1) = d" "c < limit" by arith+
    with Suc Cons show ?thesis by (simp add: Let_def)
  qed
qed

section \<open>The contract of a fixed-window counter\<close>

text \<open>The window a hit at \<open>t\<close> leaves, given the one before; an elapsed window counts for nothing.\<close>

definition next_window :: "nat \<Rightarrow> nat \<Rightarrow> (nat \<times> nat) option \<Rightarrow> nat \<times> nat" where
  "next_window len t window = (case window of
     Some (c, s) \<Rightarrow> if t < s + len then (c + 1, s) else (1, t) | None \<Rightarrow> (1, t))"

lemma reference_elapsed:
  "\<forall>u \<in> set ts. s + len \<le> u \<Longrightarrow> reference len limit ts (Some (c, s)) = reference len limit ts None"
  by (cases ts) (simp_all add: Let_def)

text \<open>
  \<open>window st k\<close> is the last window of \<open>k\<close>: its count and its start. A hit inside it adds to
  it, any other opens one at its instant, and the other keys are left alone. \<open>cap\<close> bounds the
  counts for which this holds, \<open>time st\<close> the instants the state has seen.
\<close>

locale fixed_window =
  fixes hit :: "nat \<Rightarrow> string \<Rightarrow> 'st \<Rightarrow> nat \<times> 'st"
    and window :: "'st \<Rightarrow> string \<Rightarrow> (nat \<times> nat) option"
    and inv :: "'st \<Rightarrow> bool"
    and time :: "'st \<Rightarrow> nat"
    and len :: nat
    and cap :: nat
  assumes hit_inv: "inv st \<Longrightarrow> time st \<le> now \<Longrightarrow> hit now k st = (c', st') \<Longrightarrow>
      inv st' \<and> time st' \<le> now"
    and hit_running: "inv st \<Longrightarrow> time st \<le> now \<Longrightarrow> window st k = Some (c, s) \<Longrightarrow> s \<le> now \<Longrightarrow>
      now < s + len \<Longrightarrow> c < cap \<Longrightarrow> hit now k st = (c', st') \<Longrightarrow> c' = c + 1 \<and> window st' k = Some (c + 1, s)"
    and hit_elapsed: "inv st \<Longrightarrow> time st \<le> now \<Longrightarrow> window st k = Some (c, s) \<Longrightarrow> s + len \<le> now \<Longrightarrow>
      hit now k st = (c', st') \<Longrightarrow> c' = 1 \<and> window st' k = Some (1, now)"
    and hit_fresh: "inv st \<Longrightarrow> time st \<le> now \<Longrightarrow> window st k = None \<Longrightarrow>
      hit now k st = (c', st') \<Longrightarrow> c' = 1 \<and> window st' k = Some (1, now)"
    and hit_other: "inv st \<Longrightarrow> time st \<le> now \<Longrightarrow> k \<noteq> k' \<Longrightarrow> hit now k st = (c', st') \<Longrightarrow>
      window st' k' = window st k' \<or>
      (\<exists>c s. window st k' = Some (c, s) \<and> s + len \<le> now \<and> window st' k' = None)"
begin

lemma hit_own:
  assumes "inv st" "time st \<le> t" "hit t k st = (c', st')"
    and "\<And>c s. window st k = Some (c, s) \<Longrightarrow> c < cap \<and> s \<le> t"
  shows "c' = fst (next_window len t (window st k)) \<and> window st' k = Some (next_window len t (window st k))"
proof (cases "window st k")
  case None
  then show ?thesis using hit_fresh [OF assms(1,2), of k c' st'] assms(3) by (simp add: next_window_def)
next
  case (Some cs)
  obtain c s where cs: "cs = (c, s)" by (cases cs)
  with Some assms(4) have "c < cap" "s \<le> t" by auto
  then show ?thesis
    using Some cs assms(3) hit_running [OF assms(1,2), of k c s c' st'] hit_elapsed [OF assms(1,2), of k c s c' st']
    by (cases "t < s + len") (auto simp: next_window_def)
qed

lemma run_reference:
  assumes "sorted (map fst hs)" and "inv st" and "\<forall>h \<in> set hs. time st \<le> fst h"
    and "length hs \<le> cap"
    and "\<And>c s. window st k = Some (c, s) \<Longrightarrow> c + length hs \<le> cap \<and> (\<forall>h \<in> set hs. s \<le> fst h)"
  shows "tagged k hs (fst (hit_run hit limit hs st)) =
         reference len limit (times_of k hs) (window st k)"
  using assms
proof (induction hs arbitrary: st)
  case Nil
  then show ?case by (simp add: tagged_def times_of_def)
next
  case (Cons h hs)
  obtain c' st' where hit: "hit (fst h) (snd h) st = (c', st')" by force
  obtain bs st'' where run: "hit_run hit limit hs st' = (bs, st'')" by force
  have t: "time st \<le> fst h" using Cons.prems(3) by simp
  note [simp] = hit_inv [OF Cons.prems(2) t hit]
  have late: "\<forall>g \<in> set hs. fst h \<le> fst g" using Cons.prems(1) by auto
  then have t': "\<forall>g \<in> set hs. time st' \<le> fst g"
    using hit_inv [OF Cons.prems(2) t hit] by (meson le_trans)
  have IH: "tagged k hs (fst (hit_run hit limit hs st')) =
      reference len limit (times_of k hs) (window st' k)"
    if "\<And>c s. window st' k = Some (c, s) \<Longrightarrow> c + length hs \<le> cap \<and> (\<forall>h \<in> set hs. s \<le> fst h)"
    using Cons.IH [OF _ _ t' _ that] Cons.prems by simp
  show ?case
  proof (cases "snd h = k")
    case False
    show ?thesis
    proof (cases "window st' k = window st k")
      case True
      have "c + length hs \<le> cap \<and> (\<forall>h \<in> set hs. s \<le> fst h)" if "window st' k = Some (c, s)" for c s
        using Cons.prems(5) [of c s] that True by simp
      from IH [OF this] False True hit run show ?thesis by (simp add: tagged_def times_of_def)
    next
      case dropped: False
      then obtain c s where w: "window st k = Some (c, s)" "s + len \<le> fst h" "window st' k = None"
        using hit_other [OF Cons.prems(2) t _ hit, of k] False by auto
      have "reference len limit (times_of k hs) (Some (c, s)) = reference len limit (times_of k hs) None"
        using w(2) late by (intro reference_elapsed) (auto simp: times_of_def)
      with IH w False hit run show ?thesis by (simp add: tagged_def times_of_def)
    qed
  next
    case True
    define w where "w = next_window len (fst h) (window st k)"
    have w: "c' = fst w \<and> window st' k = Some w"
      unfolding w_def using hit_own [OF Cons.prems(2) t, of k c' st'] hit True Cons.prems(5) by fastforce
    have "c + length hs \<le> cap \<and> (\<forall>h \<in> set hs. s \<le> fst h)" if "window st' k = Some (c, s)" for c s
      using that w Cons.prems(5) [of "c - 1" s] Cons.prems(4) late
      by (fastforce simp: w_def next_window_def split: option.splits if_splits)
    from IH [OF this] True w hit run show ?thesis
      by (simp add: tagged_def times_of_def w_def next_window_def Let_def)
  qed
qed

text \<open>No interval of one window's length sees more than twice the limit.\<close>

lemma run_bound:
  assumes "sorted (map fst hs)" and "inv st" and "\<forall>h \<in> set hs. time st \<le> fst h"
    and "length hs \<le> cap"
    and "\<And>c s. window st k = Some (c, s) \<Longrightarrow> c + length hs \<le> cap \<and> (\<forall>h \<in> set hs. s \<le> fst h)"
  shows "accepted_between T len (tagged k hs (fst (hit_run hit limit hs st))) \<le> 2 * limit"
proof -
  have "sorted (times_of k hs)"
    using sorted_filter [OF assms(1)] by (simp add: times_of_def)
  then show ?thesis
    using run_reference [OF assms, of k] accepted_bound by simp
qed

end

section \<open>The in-memory backend\<close>

definition mock_hit :: "nat \<Rightarrow> nat \<Rightarrow> string \<Rightarrow> mock_store \<Rightarrow> nat \<times> mock_store" where
  "mock_hit w now k store = (case mock_count now w k store of (n, store') \<Rightarrow> (unat n, store'))"

definition mock_window :: "mock_store \<Rightarrow> string \<Rightarrow> (nat \<times> nat) option" where
  "mock_window store k = map_option (\<lambda>(c, s). (unat c, s)) (store k)"

lemma unat_inc: "unat c < 2 ^ 32 - 1 \<Longrightarrow> unat (c + 1) = unat c + 1" for c :: "32 word"
  by (subst unat_word_ariths) simp

interpretation mock: fixed_window "mock_hit w" mock_window "\<lambda>_. True" "\<lambda>_. 0" "nanos w" "2 ^ 32 - 1"
  for w
  by unfold_locales
    (auto simp: mock_hit_def mock_count_def mock_window_def Let_def unat_inc not_le
      split: option.splits if_splits)

section \<open>The Redis backend\<close>

text \<open>
  What the Redis manual says of the two commands and of expiry. \<open>clock\<close> is the server's clock
  and \<open>entry\<close> its live counters with their deadline. \<open>INCR\<close> adds one, starts a missing key at
  1 without a deadline, keeps a deadline that is set, and refuses to overflow; \<open>EXPIRE\<close> sets
  the deadline (a key given 0 seconds is deleted); a key is gone from its deadline on.
\<close>

definition redis_documented ::
  "'r redis_commands \<Rightarrow> ('r \<Rightarrow> nat) \<Rightarrow> ('r \<Rightarrow> string \<Rightarrow> (int \<times> nat option) option) \<Rightarrow>
   (nat \<Rightarrow> 'r \<Rightarrow> 'r) \<Rightarrow> bool" where
  "redis_documented redis clock entry pass \<longleftrightarrow>
     (\<forall>r k v d. entry r k = Some (v, d) \<longrightarrow>
        (if v < 2 ^ 63 - 1
         then \<exists>r'. incr redis k r = (Inr (v + 1), r') \<and> clock r' = clock r \<and>
                   entry r' = (entry r)(k \<mapsto> (v + 1, d))
         else \<exists>e. incr redis k r = (Inl e, r))) \<and>
     (\<forall>r k. entry r k = None \<longrightarrow>
        (\<exists>r'. incr redis k r = (Inr 1, r') \<and> clock r' = clock r \<and>
              entry r' = (entry r)(k \<mapsto> (1, None)))) \<and>
     (\<forall>r k v d s. entry r k = Some (v, d) \<longrightarrow>
        (\<exists>r'. expire redis k s r = (Inr (), r') \<and> clock r' = clock r \<and>
              entry r' = (entry r)(k := if s = 0 then None else Some (v, Some (clock r + nanos s))))) \<and>
     (\<forall>r t. clock r \<le> t \<longrightarrow> clock (pass t r) = t \<and>
        entry (pass t r) = (\<lambda>k. case entry r k of
            Some (v, Some d) \<Rightarrow> if d \<le> t then None else Some (v, Some d) | e \<Rightarrow> e))"

lemma redis_incr_absent:
  "redis_documented redis clock entry pass \<Longrightarrow> entry r k = None \<Longrightarrow>
   \<exists>r'. incr redis k r = (Inr 1, r') \<and> clock r' = clock r \<and> entry r' = (entry r)(k \<mapsto> (1, None))"
  unfolding redis_documented_def by (elim conjE) blast

lemma redis_incr_live:
  "redis_documented redis clock entry pass \<Longrightarrow> entry r k = Some (v, d) \<Longrightarrow>
   if v < 2 ^ 63 - 1
   then \<exists>r'. incr redis k r = (Inr (v + 1), r') \<and> clock r' = clock r \<and>
             entry r' = (entry r)(k \<mapsto> (v + 1, d))
   else \<exists>e. incr redis k r = (Inl e, r)"
  unfolding redis_documented_def by (elim conjE) blast

lemma redis_expire:
  "redis_documented redis clock entry pass \<Longrightarrow> entry r k = Some (v, d) \<Longrightarrow> 0 < s \<Longrightarrow>
   \<exists>r'. expire redis k s r = (Inr (), r') \<and> clock r' = clock r \<and>
        entry r' = (entry r)(k \<mapsto> (v, Some (clock r + nanos s)))"
proof -
  assume "redis_documented redis clock entry pass" "entry r k = Some (v, d)" "0 < s"
  then have "\<exists>r'. expire redis k s r = (Inr (), r') \<and> clock r' = clock r \<and>
      entry r' = (entry r)(k := if s = 0 then None else Some (v, Some (clock r + nanos s)))"
    unfolding redis_documented_def by (elim conjE) blast
  with \<open>0 < s\<close> show ?thesis by simp
qed

lemma redis_pass:
  "redis_documented redis clock entry pass \<Longrightarrow> clock r \<le> t \<Longrightarrow>
   clock (pass t r) = t \<and> entry (pass t r) = (\<lambda>k. case entry r k of
       Some (v, Some d) \<Rightarrow> if d \<le> t then None else Some (v, Some d) | e \<Rightarrow> e)"
  unfolding redis_documented_def by (elim conjE) blast

definition redis_hit ::
  "'r redis_commands \<Rightarrow> (nat \<Rightarrow> 'r \<Rightarrow> 'r) \<Rightarrow> nat \<Rightarrow> nat \<Rightarrow> string \<Rightarrow> 'r \<Rightarrow> nat \<times> 'r" where
  "redis_hit redis pass w now k r =
     (case redis_count redis w k (pass now r) of
        (Inl _, r') \<Rightarrow> (2 ^ 32, r') | (Inr n, r') \<Rightarrow> (unat n, r'))"

definition redis_window ::
  "('r \<Rightarrow> string \<Rightarrow> (int \<times> nat option) option) \<Rightarrow> nat \<Rightarrow> 'r \<Rightarrow> string \<Rightarrow> (nat \<times> nat) option" where
  "redis_window entry w r k =
     (case entry r k of Some (v, Some d) \<Rightarrow> Some (nat v, d - nanos w) | _ \<Rightarrow> None)"

definition redis_inv :: "('r \<Rightarrow> string \<Rightarrow> (int \<times> nat option) option) \<Rightarrow> nat \<Rightarrow> 'r \<Rightarrow> bool" where
  "redis_inv entry w r \<longleftrightarrow>
     (\<forall>k v d. entry r k = Some (v, d) \<longrightarrow> 1 \<le> v \<and> (\<exists>e. d = Some e \<and> nanos w \<le> e))"

lemma redis_invD:
  "redis_inv entry w r \<Longrightarrow> entry r k = Some (v, d) \<Longrightarrow> 1 \<le> v \<and> (\<exists>e. d = Some e \<and> nanos w \<le> e)"
  unfolding redis_inv_def by blast

lemma unat_word_of_int32: "0 \<le> n \<Longrightarrow> n < 2 ^ 32 \<Longrightarrow> unat (word_of_int n :: 32 word) = nat n"
  by (simp add: unsigned_of_int take_bit_int_eq_self)

lemma unat32_less: "unat (x :: 32 word) < 2 ^ 32"
  using unsigned_less [of x, where 'a = nat] by simp

lemma redis_hit_step:
  assumes doc: "redis_documented redis clock entry pass" and w: "0 < w"
    and inv: "redis_inv entry w r" and t: "clock r \<le> now"
  shows "case redis_hit redis pass w now k r of (n, r') \<Rightarrow>
     redis_inv entry w r' \<and> clock r' = now \<and>
     (\<forall>k'. k' \<noteq> k \<longrightarrow> entry r' k' = entry (pass now r) k') \<and>
     (case entry (pass now r) k of
        None \<Rightarrow> n = 1 \<and> entry r' k = Some (1, Some (now + nanos w))
      | Some (v, d) \<Rightarrow> v < 2 ^ 32 - 1 \<longrightarrow> n = nat (v + 1) \<and> entry r' k = Some (v + 1, d))"
proof -
  let ?p = "pass now r"
  have clock: "clock ?p = now" and entry: "entry ?p = (\<lambda>k. case entry r k of
      Some (v, Some d) \<Rightarrow> if d \<le> now then None else Some (v, Some d) | e \<Rightarrow> e)"
    using redis_pass [OF doc t] by simp_all
  have inv': "redis_inv entry w ?p"
    using inv unfolding redis_inv_def entry by (fastforce split: option.splits if_splits)
  show ?thesis
  proof (cases "entry ?p k")
    case None
    obtain r1 where r1: "incr redis k ?p = (Inr 1, r1)" "clock r1 = now"
        "entry r1 = (entry ?p)(k \<mapsto> (1, None))"
      using redis_incr_absent [OF doc None] clock by auto
    have "entry r1 k = Some (1, None)" using r1 by simp
    then obtain r2 where r2: "expire redis k w r1 = (Inr (), r2)" "clock r2 = now"
        "entry r2 = (entry r1)(k := Some (1, Some (now + nanos w)))"
      using redis_expire [OF doc _ w, of r1 k] r1(2) by auto
    have "redis_inv entry w r2"
      using inv' r1 r2 unfolding redis_inv_def by auto
    with r1 r2 None show ?thesis
      by (simp add: redis_hit_def redis_count_def INCR_WITH_EXPIRY_def run_simps)
  next
    case (Some vd)
    obtain v d where vd: "entry ?p k = Some (v, d)" using Some by (cases vd) auto
    with inv' have v: "1 \<le> v" by (auto simp: redis_inv_def)
    then have v0: "0 \<le> v" by simp
    have u: "unat (word_of_int (v + 1) :: 32 word) = nat (v + 1)" if "v < 2 ^ 32 - 1"
      using that v by (intro unat_word_of_int32) auto
    show ?thesis
    proof (cases "v < 2 ^ 63 - 1")
      case False
      then obtain e where "incr redis k ?p = (Inl e, ?p)"
        using redis_incr_live [OF doc vd] by auto
      with False vd inv' clock show ?thesis
        by (simp add: redis_hit_def redis_count_def INCR_WITH_EXPIRY_def run_simps)
    next
      case True
      then obtain r1 where r1: "incr redis k ?p = (Inr (v + 1), r1)" "clock r1 = now"
          "entry r1 = (entry ?p)(k \<mapsto> (v + 1, d))"
        using redis_incr_live [OF doc vd] clock by auto
      have "redis_inv entry w r1"
        using inv' vd v0 r1(3) unfolding redis_inv_def by auto
      with r1 vd v u show ?thesis
        by (auto simp: redis_hit_def redis_count_def INCR_WITH_EXPIRY_def run_simps)
    qed
  qed
qed

text \<open>A server the commands of which are as documented is a fixed-window counter.\<close>

lemma redis_fixed_window:
  assumes doc: "redis_documented redis clock entry pass" and w: "0 < w"
  shows "fixed_window (redis_hit redis pass w) (redis_window entry w) (redis_inv entry w) clock
     (nanos w) (2 ^ 32 - 1)"
proof
  fix st now k c' st'
  assume pre: "redis_inv entry w st" "clock st \<le> now" "redis_hit redis pass w now k st = (c', st')"
  have step: "redis_inv entry w st' \<and> clock st' = now \<and>
     (\<forall>k'. k' \<noteq> k \<longrightarrow> entry st' k' = entry (pass now st) k') \<and>
     (case entry (pass now st) k of
        None \<Rightarrow> c' = 1 \<and> entry st' k = Some (1, Some (now + nanos w))
      | Some (v, d) \<Rightarrow> v < 2 ^ 32 - 1 \<longrightarrow> c' = nat (v + 1) \<and> entry st' k = Some (v + 1, d))"
    using redis_hit_step [OF doc w pre(1,2), of k] pre(3) by simp
  note passed = redis_pass [OF doc pre(2)]
  show "redis_inv entry w st' \<and> clock st' \<le> now" using step by simp
  show "c' = 1 \<and> redis_window entry w st' k = Some (1, now)" if "redis_window entry w st k = None"
  proof -
    have "entry st k = None"
      using that pre(1) by (cases "entry st k") (force simp: redis_window_def redis_inv_def)+
    with step passed show ?thesis by (simp add: redis_window_def)
  qed
  fix c s
  assume "redis_window entry w st k = Some (c, s)"
  then obtain v d where e: "entry st k = Some (v, Some d)" "c = nat v" "s = d - nanos w"
    by (auto simp: redis_window_def split: option.splits)
  then have v: "1 \<le> v" "nanos w \<le> d" using pre(1) by (auto simp: redis_inv_def)
  show "c' = c + 1 \<and> redis_window entry w st' k = Some (c + 1, s)"
    if "now < s + nanos w" "c < 2 ^ 32 - 1"
  proof -
    have "entry (pass now st) k = Some (v, Some d)" using passed e v that by simp
    moreover have "v < 2 ^ 32 - 1" using that(2) e(2) by (simp add: nat_less_iff)
    ultimately show ?thesis using step e v by (simp add: redis_window_def nat_add_distrib)
  qed
  show "c' = 1 \<and> redis_window entry w st' k = Some (1, now)" if "s + nanos w \<le> now"
  proof -
    have "entry (pass now st) k = None" using passed e v that by simp
    with step show ?thesis by (simp add: redis_window_def)
  qed
next
  fix st now k k' c' st'
  assume pre: "redis_inv entry w st" "clock st \<le> now" "k \<noteq> k'"
    "redis_hit redis pass w now k st = (c', st')"
  have e': "entry st' k' = entry (pass now st) k'"
    using redis_hit_step [OF doc w pre(1,2), of k] pre(3,4) by (auto split: option.splits)
  show "redis_window entry w st' k' = redis_window entry w st k' \<or>
      (\<exists>c s. redis_window entry w st k' = Some (c, s) \<and> s + nanos w \<le> now \<and>
             redis_window entry w st' k' = None)"
  proof (cases "entry st k'")
    case None
    then show ?thesis using e' redis_pass [OF doc pre(2)] by (simp add: redis_window_def)
  next
    case (Some vd)
    then obtain v d where "entry st k' = Some (v, Some d)" "nanos w \<le> d"
      using redis_invD [OF pre(1)] by (cases vd) fastforce
    then show ?thesis using e' redis_pass [OF doc pre(2)] by (simp add: redis_window_def)
  qed
qed

section \<open>Properties of the limiter\<close>

definition scope_ok :: "string \<Rightarrow> bool" where
  "scope_ok scope = list_all (\<lambda>c. c \<noteq> CHR '':'') scope"

lemma rate_key_inj:
  assumes "scope_ok a" "scope_ok b" "rate_key a i = rate_key b j"
  shows "a = b \<and> i = j"
proof -
  have "CHR '':'' \<notin> set a" "CHR '':'' \<notin> set b"
    using assms(1,2) by (auto simp: scope_ok_def list_all_iff)
  then have "split_once (CHR '':'') (a @ CHR '':'' # i) = Some (a, i)"
    "split_once (CHR '':'') (b @ CHR '':'' # j) = Some (b, j)"
    by (simp_all add: split_once_append)
  moreover have "a @ CHR '':'' # i = b @ CHR '':'' # j" using assms(3) by (simp add: rate_key_def)
  ultimately have "Some (a, i) = Some (b, j)" by metis
  then show ?thesis by simp
qed

definition keyed :: "(nat \<times> string \<times> string) list \<Rightarrow> (nat \<times> string) list" where
  "keyed qs = map (\<lambda>(t, scope, ip). (t, rate_key scope ip)) qs"

lemma check_run_mock:
  "check_run redis pass limit w qs (Mock store) =
   fst (hit_run (mock_hit w) (unat limit) (keyed qs) store)"
proof (induction qs arbitrary: store)
  case Nil
  then show ?case by (simp add: keyed_def)
next
  case (Cons q qs)
  obtain t scope ip where q: "q = (t, scope, ip)" by (cases q)
  obtain n store' where m: "mock_count t w (rate_key scope ip) store = (n, store')" by force
  show ?case
    using Cons [of store'] m q
    by (simp add: check_def count_hit_def run_simps mock_hit_def keyed_def word_less_nat_alt
        Let_def split_beta)
qed

lemma check_run_redis:
  "check_run redis pass limit w qs (Redis r) =
   fst (hit_run (redis_hit redis pass w) (unat limit) (keyed qs) r)"
proof (induction qs arbitrary: r)
  case Nil
  then show ?case by (simp add: keyed_def)
next
  case (Cons q qs)
  obtain t scope ip where q: "q = (t, scope, ip)" by (cases q)
  obtain res r' where m: "redis_count redis w (rate_key scope ip) (pass t r) = (res, r')" by force
  have "unat limit < 2 ^ 32" by (rule unat32_less)
  then show ?case
    using Cons [of r'] m q
    by (cases res)
      (simp_all add: check_def count_hit_def run_simps redis_hit_def keyed_def word_less_nat_alt
        Let_def split_beta)
qed

lemma keyed_tagged:
  assumes "list_all (\<lambda>(t, scope, ip). scope_ok scope) qs" "scope_ok scope"
  shows "tagged (scope, ip) qs bs = tagged (rate_key scope ip) (keyed qs) bs \<and>
         times_of (scope, ip) qs = times_of (rate_key scope ip) (keyed qs)"
  using assms
proof (induction qs arbitrary: bs)
  case Nil
  then show ?case by (simp add: tagged_def keyed_def times_of_def)
next
  case (Cons q qs)
  obtain t s i where q: "q = (t, s, i)" by (cases q)
  have "(s, i) = (scope, ip) \<longleftrightarrow> rate_key s i = rate_key scope ip"
    using rate_key_inj [of s scope i ip] Cons.prems q by auto
  then show ?case
    using Cons q by (cases bs) (auto simp: tagged_def keyed_def times_of_def)
qed

lemma keyed_sorted: "map fst (keyed qs) = map fst qs" "length (keyed qs) = length qs"
  by (auto simp: keyed_def)

lemma tagged_eqD:
  "length bs = length hs \<Longrightarrow> length cs = length hs \<Longrightarrow> (\<And>k. tagged k hs bs = tagged k hs cs) \<Longrightarrow> bs = cs"
proof (induction hs arbitrary: bs cs)
  case Nil
  then show ?case by simp
next
  case (Cons h hs)
  obtain b bs' where b: "bs = b # bs'" using Cons.prems(1) by (cases bs) auto
  obtain c cs' where c: "cs = c # cs'" using Cons.prems(2) by (cases cs) auto
  have "b = c" using Cons.prems(3) [of "snd h"] b c by (simp add: tagged_def)
  moreover have "tagged k hs bs' = tagged k hs cs'" for k
    using Cons.prems(3) [of k] b c by (cases "snd h = k") (simp_all add: tagged_def)
  ultimately show ?case using Cons b c by simp
qed

lemma length_hit_run: "length (fst (hit_run hit limit hs st)) = length hs"
  by (induction hs arbitrary: st) (simp_all add: split_beta)

lemma mock_fresh_reference:
  assumes "sorted (map fst qs)" "length qs < 2 ^ 32"
  shows "tagged k (keyed qs) (check_run redis pass limit w qs (Mock Map.empty)) =
         reference (nanos w) (unat limit) (times_of k (keyed qs)) None"
  using assms mock.run_reference [of "keyed qs" Map.empty k w "unat limit"]
  by (simp add: check_run_mock keyed_sorted mock_window_def)

lemma redis_fresh_reference:
  assumes doc: "redis_documented redis clock entry pass" and w: "0 < w"
    and "\<forall>k. entry r k = None" "\<forall>t \<in> set (map fst qs). clock r \<le> t"
    and "sorted (map fst qs)" "length qs < 2 ^ 32"
  shows "tagged k (keyed qs) (check_run redis pass limit w qs (Redis r)) =
         reference (nanos w) (unat limit) (times_of k (keyed qs)) None"
proof -
  have "\<forall>h \<in> set (keyed qs). clock r \<le> fst h" using assms(4) by (auto simp: keyed_def)
  moreover have "redis_inv entry w r" "redis_window entry w r k = None"
    using assms(3) by (simp_all add: redis_inv_def redis_window_def)
  ultimately show ?thesis
    using fixed_window.run_reference [OF redis_fixed_window [OF doc w], of "keyed qs" r k] assms(5,6)
    by (simp add: check_run_redis keyed_sorted)
qed

text \<open>
  C9. The limiter's in-memory backend gives each client of each scope exactly the fixed-window
  verdicts of its own requests, whatever the other scopes and clients send: a request is
  accepted when fewer than \<open>limit\<close> requests of that client precede it in the window opened by
  the first one, so no interval of one window's length sees more than twice the limit accepted.
\<close>

theorem rate_limit_per_client:
  assumes "sorted (map fst qs)" and "length qs < 2 ^ 32"
    and "list_all (\<lambda>(t, scope, ip). scope_ok scope) qs" and "scope_ok scope"
  shows "tagged (scope, ip) qs (check_run redis pass limit w qs (Mock Map.empty)) =
           reference (nanos w) (unat limit) (times_of (scope, ip) qs) None \<and>
         accepted_between T (nanos w)
           (tagged (scope, ip) qs (check_run redis pass limit w qs (Mock Map.empty))) \<le> 2 * unat limit"
proof -
  have "sorted (times_of (scope, ip) qs)"
    using sorted_filter [OF assms(1)] by (simp add: times_of_def)
  then show ?thesis
    using mock_fresh_reference [OF assms(1,2), of "rate_key scope ip" redis pass limit w] keyed_tagged [OF assms(3,4)]
      accepted_bound by simp
qed

text \<open>
  Within one window of one client, from no earlier requests: the first \<open>limit\<close> requests
  are accepted and every later one is refused.
\<close>

theorem rate_limit_window_exact:
  assumes "sorted (map fst qs)" and "length qs < 2 ^ 32"
    and "list_all (\<lambda>(t, scope, ip). scope_ok scope) qs" and "scope_ok scope"
    and "times_of (scope, ip) qs = t0 # ts" and "\<forall>t \<in> set ts. t < t0 + nanos w"
    and "0 < limit"
  shows "map snd (tagged (scope, ip) qs (check_run redis pass limit w qs (Mock Map.empty))) =
           replicate (min (length (t0 # ts)) (unat limit)) True @
           replicate (length (t0 # ts) - unat limit) False"
proof -
  obtain l where l: "unat limit = Suc l"
    using assms(7) by (cases "unat limit") (auto simp: word_less_nat_alt)
  have "tagged (scope, ip) qs (check_run redis pass limit w qs (Mock Map.empty)) =
      reference (nanos w) (unat limit) (t0 # ts) None"
    using mock_fresh_reference [OF assms(1,2), of "rate_key scope ip" redis pass limit w] keyed_tagged [OF assms(3,4)]
      assms(5) by simp
  moreover have "map snd (reference (nanos w) (unat limit) (t0 # ts) None) =
      True # map snd (reference (nanos w) (unat limit) ts (Some (1, t0)))"
    using l by (simp add: Let_def)
  ultimately show ?thesis
    using reference_one_window [OF assms(6), of "unat limit" 1] l by simp
qed

text \<open>
  C22. The Redis backend accepts and refuses the same requests as the in-memory one, when the
  server's \<open>INCR\<close> and \<open>EXPIRE\<close> behave as documented and it starts with no counters.
\<close>

theorem rate_limit_backends_agree:
  assumes "redis_documented redis clock entry pass" and "0 < w"
    and "\<forall>k. entry r k = None" and "\<forall>t \<in> set (map fst qs). clock r \<le> t"
    and "sorted (map fst qs)" and "length qs < 2 ^ 32"
  shows "check_run redis pass limit w qs (Redis r) = check_run redis pass limit w qs (Mock Map.empty)"
proof (rule tagged_eqD)
  show "length (check_run redis pass limit w qs (Redis r)) = length (keyed qs)"
    by (simp add: check_run_redis length_hit_run)
  show "length (check_run redis pass limit w qs (Mock Map.empty)) = length (keyed qs)"
    by (simp add: check_run_mock length_hit_run)
  show "tagged k (keyed qs) (check_run redis pass limit w qs (Redis r)) =
      tagged k (keyed qs) (check_run redis pass limit w qs (Mock Map.empty))" for k
    using redis_fresh_reference [OF assms, of k limit]
      mock_fresh_reference [OF assms(5,6), of k redis pass limit w] by simp
qed

section \<open>Concrete runs\<close>

text \<open>A server with the documented behaviour: its clock and its live counters.\<close>

type_synonym sample_server = "nat \<times> (string \<rightharpoonup> int \<times> nat option)"

definition sample_commands :: "sample_server redis_commands" where
  "sample_commands =
     \<lparr>incr = (\<lambda>k (c, m). case m k of
          None \<Rightarrow> (Inr 1, (c, m(k \<mapsto> (1, None))))
        | Some (v, d) \<Rightarrow> if v < 2 ^ 63 - 1 then (Inr (v + 1), (c, m(k \<mapsto> (v + 1, d))))
                        else (Inl ''ERR increment or decrement would overflow'', (c, m))),
      expire = (\<lambda>k s (c, m). case m k of
          None \<Rightarrow> (Inr (), (c, m))
        | Some (v, d) \<Rightarrow>
            (Inr (), (c, m(k := if s = 0 then None else Some (v, Some (c + nanos s))))))\<rparr>"

definition sample_pass :: "nat \<Rightarrow> sample_server \<Rightarrow> sample_server" where
  "sample_pass t r = (t, \<lambda>k. case snd r k of
      Some (v, Some d) \<Rightarrow> if d \<le> t then None else Some (v, Some d) | e \<Rightarrow> e)"

lemma sample_documented: "redis_documented sample_commands fst snd sample_pass"
  by (auto simp: redis_documented_def sample_commands_def sample_pass_def)

definition sample_requests :: "(nat \<times> string \<times> string) list" where
  "sample_requests =
     [(0, ''hero-write'', ''::1''), (5, ''mock-token'', ''::1''), (10, ''hero-write'', ''::1''),
      (20, ''hero-write'', ''::1'')]"

lemma sample_requests_ok:
  "sorted (map fst sample_requests)" "length sample_requests < 2 ^ 32"
  "list_all (\<lambda>(t, scope, ip). scope_ok scope) sample_requests" "scope_ok ''hero-write''"
  "times_of (''hero-write'', ''::1'') sample_requests = [0, 10, 20]"
  by (simp_all add: sample_requests_def scope_ok_def times_of_def)

theorem rate_limit_per_client_witness:
  "tagged (''hero-write'', ''::1'') sample_requests
     (check_run sample_commands sample_pass 2 60 sample_requests (Mock Map.empty)) =
   [(0, True), (10, True), (20, False)]"
  using rate_limit_per_client [OF sample_requests_ok(1-4), of "''::1''" sample_commands sample_pass 2 60 0]
    sample_requests_ok(5)
  by (simp add: nanos_def Let_def)

theorem rate_limit_window_exact_witness:
  "map snd (tagged (''hero-write'', ''::1'') sample_requests
     (check_run sample_commands sample_pass 2 60 sample_requests (Mock Map.empty))) =
   [True, True, False]"
  using rate_limit_window_exact [OF sample_requests_ok, of 60 2 sample_commands sample_pass]
  by (simp add: nanos_def)

theorem rate_limit_backends_agree_witness:
  "check_run sample_commands sample_pass 2 60 sample_requests (Redis (0, Map.empty)) =
   check_run sample_commands sample_pass 2 60 sample_requests (Mock Map.empty)"
  by (rule rate_limit_backends_agree [OF sample_documented _ _ _ sample_requests_ok(1,2)])
    (simp_all add: sample_requests_def)

end
