(* ===== verification/Hero_Views.thy ===== *)
theory Hero_Views
  imports Http
begin

text \<open>
  \<open>src/hero/models/hero.rs\<close> and \<open>src/hero/views/\<close>: the stored record, the request bodies of
  both API versions and of the HTML form with their validation, and the response shapes. A
  \<open>NaiveDateTime\<close> is an \<^typ>\<open>int\<close>; an \<open>i32\<close> that only passes through is one too.
\<close>

section \<open>The stored record\<close>

record hero =
  h_id :: int
  h_name :: "string option"
  h_powers :: "string list option"
  h_power_level :: "int option"
  h_owner_id :: string
  h_archived_at :: "int option"
  h_created_at :: int
  h_updated_at :: int

text \<open>\<open>HasId\<close> and \<open>Versioned\<close>: what the crate reads of a model.\<close>

definition model_id :: "hero \<Rightarrow> int" where
  "model_id self = h_id self"

definition model_updated_at :: "hero \<Rightarrow> int" where
  "model_updated_at self = h_updated_at self"

section \<open>Validation\<close>

definition MAX_LEN :: nat where
  "MAX_LEN = 200"

definition text_length_ok :: "string \<Rightarrow> bool" where
  "text_length_ok s = (1 \<le> length s \<and> length s \<le> MAX_LEN)"

definition validate_text_field ::
  "string \<Rightarrow> string \<Rightarrow> field_error list \<Rightarrow> field_error list" where
  "validate_text_field field v errors =
     (if \<not> text_length_ok v
      then errors @ [FieldError field (''must be 1-'' @ show_nat MAX_LEN @ '' characters'')]
      else errors)"

definition validate_powers :: "string list \<Rightarrow> field_error list \<Rightarrow> field_error list" where
  "validate_powers powers errors =
     (if powers = [] then errors @ [FieldError ''powers'' ''must contain at least one power'']
      else foldl (\<lambda>errors (index, power).
             if \<not> text_length_ok power
             then errors @ [FieldError ''powers''
                    (''powers['' @ show_nat index @ ''] must be 1-'' @ show_nat MAX_LEN @ '' characters'')]
             else errors) errors (enumerate 0 powers))"

definition errors_result :: "field_error list \<Rightarrow> field_error list + unit" where
  "errors_result errors = (if errors = [] then Inr () else Inl errors)"

section \<open>Version 2 bodies\<close>

record hero_create =
  hc_name :: string
  hc_powers :: "string list"
  hc_power_level :: "int option"

record hero_update =
  hu_name :: "string option"
  hu_powers :: "string list option"
  hu_power_level :: "int option"

definition validate_create :: "hero_create \<Rightarrow> field_error list + unit" where
  "validate_create self =
     (let errors = [];
          errors = validate_text_field ''name'' (hc_name self) errors;
          errors = validate_powers (hc_powers self) errors
      in errors_result errors)"

definition validate_update :: "hero_update \<Rightarrow> field_error list + unit" where
  "validate_update self =
     (let errors = [];
          errors = (case hu_name self of Some name \<Rightarrow> validate_text_field ''name'' name errors
                    | None \<Rightarrow> errors);
          errors = (case hu_powers self of Some powers \<Rightarrow> validate_powers powers errors
                    | None \<Rightarrow> errors)
      in errors_result errors)"

section \<open>Version 1 bodies\<close>

record hero_create_v1 =
  hc1_name :: string
  hc1_superpower :: string
  hc1_power_level :: "int option"

record hero_update_v1 =
  hu1_name :: "string option"
  hu1_superpower :: "string option"
  hu1_power_level :: "int option"

definition validate_create_v1 :: "hero_create_v1 \<Rightarrow> field_error list + unit" where
  "validate_create_v1 self =
     (let errors = [];
          errors = validate_text_field ''name'' (hc1_name self) errors;
          errors = validate_text_field ''superpower'' (hc1_superpower self) errors
      in errors_result errors)"

definition validate_update_v1 :: "hero_update_v1 \<Rightarrow> field_error list + unit" where
  "validate_update_v1 self =
     (let errors = [];
          errors = (case hu1_name self of Some name \<Rightarrow> validate_text_field ''name'' name errors
                    | None \<Rightarrow> errors);
          errors = (case hu1_superpower self of
                      Some superpower \<Rightarrow> validate_text_field ''superpower'' superpower errors
                    | None \<Rightarrow> errors)
      in errors_result errors)"

definition create_from_v1 :: "hero_create_v1 \<Rightarrow> hero_create" where
  "create_from_v1 v1 =
     \<lparr>hc_name = hc1_name v1, hc_powers = [hc1_superpower v1], hc_power_level = hc1_power_level v1\<rparr>"

definition update_from_v1 :: "hero_update_v1 \<Rightarrow> hero_update" where
  "update_from_v1 v1 =
     \<lparr>hu_name = hu1_name v1,
      hu_powers = map_option (\<lambda>superpower. [superpower]) (hu1_superpower v1),
      hu_power_level = hu1_power_level v1\<rparr>"

section \<open>The form body\<close>

record hero_form_fields =
  hf_name :: string
  hf_powers :: string
  hf_power_level :: string

definition parse_powers :: "string \<Rightarrow> string list" where
  "parse_powers raw = filter (\<lambda>power. power \<noteq> []) (map trim (split_on (CHR '','') raw))"

definition parse_power_level :: "string \<Rightarrow> field_error + int option" where
  "parse_power_level raw =
     (let trimmed = trim raw in
      if trimmed = [] then Inr None
      else (case parse_i32 trimmed of
              Some v \<Rightarrow> Inr (Some v)
            | None \<Rightarrow> Inl (FieldError ''power_level'' ''must be a whole number'')))"

definition into_hero_create :: "hero_form_fields \<Rightarrow> field_error list + hero_create" where
  "into_hero_create self =
     (let (power_level, field_errors) =
            (case parse_power_level (hf_power_level self) of
               Inr v \<Rightarrow> (v, []) | Inl err \<Rightarrow> (None, [err]));
          create = \<lparr>hc_name = hf_name self, hc_powers = parse_powers (hf_powers self),
                    hc_power_level = power_level\<rparr>;
          field_errors = (case validate_create create of
               Inl errors \<Rightarrow> field_errors @ errors | Inr _ \<Rightarrow> field_errors)
      in if field_errors = [] then Inr create else Inl field_errors)"

definition into_hero_update :: "hero_form_fields \<Rightarrow> field_error list + hero_update" where
  "into_hero_update self =
     (let (power_level, field_errors) =
            (case parse_power_level (hf_power_level self) of
               Inr v \<Rightarrow> (v, []) | Inl err \<Rightarrow> (None, [err]));
          update = \<lparr>hu_name = Some (hf_name self), hu_powers = Some (parse_powers (hf_powers self)),
                    hu_power_level = power_level\<rparr>;
          field_errors = (case validate_update update of
               Inl errors \<Rightarrow> field_errors @ errors | Inr _ \<Rightarrow> field_errors)
      in if field_errors = [] then Inr update else Inl field_errors)"

section \<open>Response shapes\<close>

record hero_read =
  hr_id :: int
  hr_name :: "string option"
  hr_powers :: "string list option"
  hr_power_level :: "int option"
  hr_owner_id :: string
  hr_archived_at :: "int option"
  hr_created_at :: int
  hr_updated_at :: int

definition read_from_model :: "hero \<Rightarrow> hero_read" where
  "read_from_model model =
     \<lparr>hr_id = h_id model, hr_name = h_name model, hr_powers = h_powers model,
      hr_power_level = h_power_level model, hr_owner_id = h_owner_id model,
      hr_archived_at = h_archived_at model, hr_created_at = h_created_at model,
      hr_updated_at = h_updated_at model\<rparr>"

definition read_json :: "hero_read \<Rightarrow> json" where
  "read_json r = JObj
     [(''id'', JInt (hr_id r)), (''name'', json_opt JStr (hr_name r)),
      (''powers'', json_opt json_strs (hr_powers r)), (''power_level'', json_opt JInt (hr_power_level r)),
      (''owner_id'', JStr (hr_owner_id r)), (''archived_at'', json_opt JTime (hr_archived_at r)),
      (''created_at'', JTime (hr_created_at r)), (''updated_at'', JTime (hr_updated_at r))]"

record hero_read_v1 =
  hr1_id :: int
  hr1_name :: "string option"
  hr1_superpower :: "string option"
  hr1_power_level :: "int option"
  hr1_owner_id :: string
  hr1_archived_at :: "int option"
  hr1_created_at :: int
  hr1_updated_at :: int

definition first_power :: "string list option \<Rightarrow> string option" where
  "first_power powers = (case powers of Some (p # _) \<Rightarrow> Some p | _ \<Rightarrow> None)"

definition read_v1_from_model :: "hero \<Rightarrow> hero_read_v1" where
  "read_v1_from_model model =
     \<lparr>hr1_id = h_id model, hr1_name = h_name model, hr1_superpower = first_power (h_powers model),
      hr1_power_level = h_power_level model, hr1_owner_id = h_owner_id model,
      hr1_archived_at = h_archived_at model, hr1_created_at = h_created_at model,
      hr1_updated_at = h_updated_at model\<rparr>"

definition read_v1_json :: "hero_read_v1 \<Rightarrow> json" where
  "read_v1_json r = JObj
     [(''id'', JInt (hr1_id r)), (''name'', json_opt JStr (hr1_name r)),
      (''superpower'', json_opt JStr (hr1_superpower r)),
      (''power_level'', json_opt JInt (hr1_power_level r)), (''owner_id'', JStr (hr1_owner_id r)),
      (''archived_at'', json_opt JTime (hr1_archived_at r)), (''created_at'', JTime (hr1_created_at r)),
      (''updated_at'', JTime (hr1_updated_at r))]"

text \<open>The XML shapes: the same fields, \<open>None\<close> left out.\<close>

definition read_xml_from_model :: "hero \<Rightarrow> json" where
  "read_xml_from_model model = JObj
     ([(''id'', JInt (h_id model))] @ skip_none ''name'' JStr (h_name model) @
      skip_none ''powers'' json_strs (h_powers model) @
      skip_none ''power_level'' JInt (h_power_level model) @
      [(''owner_id'', JStr (h_owner_id model))] @
      skip_none ''archived_at'' JTime (h_archived_at model) @
      [(''created_at'', JTime (h_created_at model)), (''updated_at'', JTime (h_updated_at model))])"

definition read_v1_xml_from_model :: "hero \<Rightarrow> json" where
  "read_v1_xml_from_model model = JObj
     ([(''id'', JInt (h_id model))] @ skip_none ''name'' JStr (h_name model) @
      skip_none ''superpower'' JStr (first_power (h_powers model)) @
      skip_none ''power_level'' JInt (h_power_level model) @
      [(''owner_id'', JStr (h_owner_id model))] @
      skip_none ''archived_at'' JTime (h_archived_at model) @
      [(''created_at'', JTime (h_created_at model)), (''updated_at'', JTime (h_updated_at model))])"

text \<open>\<open>HeroListQuery\<close>, the typed part of a list request's query.\<close>

record hero_list_query =
  hq_id :: "int option"
  hq_skip :: "nat option"
  hq_limit :: "nat option"

section \<open>Facts about validation\<close>

lemma validate_powers_foldl_Nil:
  "foldl (\<lambda>errors (index, power).
      if \<not> text_length_ok power then errors @ [e index] else errors) errors ips = [] \<longleftrightarrow>
   errors = [] \<and> list_all (\<lambda>(index, power). text_length_ok power) ips"
  by (induction ips arbitrary: errors) (auto split: prod.splits)

lemma validate_powers_Nil:
  "validate_powers powers errors = [] \<longleftrightarrow>
     errors = [] \<and> powers \<noteq> [] \<and> list_all text_length_ok powers"
proof -
  have "list_all (\<lambda>(index, power). text_length_ok power) (enumerate n powers) = list_all text_length_ok powers"
    for n by (induction powers arbitrary: n) auto
  then show ?thesis by (simp add: validate_powers_def validate_powers_foldl_Nil)
qed

lemma validate_text_field_Nil:
  "validate_text_field field v errors = [] \<longleftrightarrow> errors = [] \<and> text_length_ok v"
  by (simp add: validate_text_field_def)

lemma errors_result_Inr: "errors_result errors = Inr () \<longleftrightarrow> errors = []"
  by (simp add: errors_result_def)

lemmas validate_defs =
  validate_create_def validate_update_def validate_create_v1_def validate_update_v1_def Let_def
  errors_result_Inr validate_powers_Nil validate_text_field_Nil

lemma validate_create_Inr:
  "validate_create c = Inr () \<longleftrightarrow>
     text_length_ok (hc_name c) \<and> hc_powers c \<noteq> [] \<and> list_all text_length_ok (hc_powers c)"
  by (simp add: validate_defs)

lemma validate_update_Inr:
  "validate_update u = Inr () \<longleftrightarrow>
     pred_option text_length_ok (hu_name u) \<and>
     pred_option (\<lambda>ps. ps \<noteq> [] \<and> list_all text_length_ok ps) (hu_powers u)"
  by (auto simp: validate_defs pred_option_def split: option.splits)

lemma result_unit: "r = Inr () \<or> (\<exists>e. r = Inl e)" for r :: "'e + unit"
  by (cases r) auto

lemma v1_create_valid: "validate_create_v1 c = Inr () \<longleftrightarrow> validate_create (create_from_v1 c) = Inr ()"
  by (simp add: validate_defs create_from_v1_def)

lemma v1_update_valid: "validate_update_v1 u = Inr () \<longleftrightarrow> validate_update (update_from_v1 u) = Inr ()"
  by (auto simp: validate_defs update_from_v1_def split: option.splits)

text \<open>
  The deprecated version 1 bodies accept exactly what version 2 accepts after conversion:
  a body is valid in version 1 exactly when its converted body is valid in version 2, for
  creates and updates, and a version 1 create reads back its own superpower.
\<close>

theorem v1_validation_agrees:
  "(validate_create_v1 c = Inr () \<longleftrightarrow> validate_create (create_from_v1 c) = Inr ()) \<and>
   (validate_update_v1 u = Inr () \<longleftrightarrow> validate_update (update_from_v1 u) = Inr ()) \<and>
   first_power (Some (hc_powers (create_from_v1 c))) = Some (hc1_superpower c) \<and>
   (hu1_superpower u = None \<longleftrightarrow> hu_powers (update_from_v1 u) = None)"
  by (auto simp: validate_defs create_from_v1_def update_from_v1_def first_power_def
      split: option.splits)

section \<open>Facts about the form\<close>

definition form_power :: "string \<Rightarrow> bool" where
  "form_power p \<longleftrightarrow> p \<noteq> [] \<and> trimmed p \<and> CHR '','' \<notin> set p"

lemma set_trim: "set (trim s) \<subseteq> set s"
  by (force simp: trim_def trim_end_def trim_start_def dest: set_dropWhileD)

lemma split_on_no_sep_parts: "p \<in> set (split_on d s) \<Longrightarrow> d \<notin> set p"
  by (induction s arbitrary: p) (force split: if_splits list.splits)+

lemma parse_powers_form: "list_all form_power (parse_powers raw)"
  using set_trim by (fastforce simp: parse_powers_def list_all_iff form_power_def trimmed_trim
      dest: split_on_no_sep_parts)

lemma split_on_join_comma:
  "list_all form_power (p # ps) \<Longrightarrow>
   split_on (CHR '','') (join '', '' (p # ps)) = p # map (\<lambda>q. CHR '' '' # q) ps"
proof (induction ps arbitrary: p)
  case Nil
  then show ?case by (simp add: form_power_def split_on_no_sep)
next
  case (Cons q qs)
  have "split_on (CHR '','') (CHR '' '' # join '', '' (q # qs)) =
      (CHR '' '' # q) # map (\<lambda>q. CHR '' '' # q) qs"
    using Cons by simp
  with Cons.prems show ?case
    using split_on_append_sep [of "CHR '',''" p "CHR '' '' # join '', '' (q # qs)"]
    by (simp add: form_power_def)
qed

lemma powers_parse_back:
  assumes a: "list_all form_power ps"
  shows "parse_powers (join '', '' ps) = ps"
proof (cases ps)
  case Nil
  then show ?thesis by (simp add: parse_powers_def trim_def trim_start_def trim_end_def)
next
  case (Cons q qs)
  have "map trim (map (\<lambda>q. CHR '' '' # q) qs) = qs" "trim q = q"
    using a Cons by (auto simp: list_all_iff form_power_def trim_space_trimmed trim_trimmed
        intro!: map_idI)
  then have "map trim (split_on (CHR '','') (join '', '' ps)) = ps"
    using split_on_join_comma [of q qs] a Cons by simp
  moreover have "filter (\<lambda>power. power \<noteq> []) ps = ps"
    using a by (simp add: filter_id_conv list_all_iff form_power_def)
  ultimately show ?thesis unfolding parse_powers_def by simp
qed

text \<open>
  The powers text an edit form is prefilled with (the powers joined with a comma and a
  space) parses back to the same powers exactly when every power is nonempty, without blanks
  around it and without a comma; any other power is changed by resubmitting the form.
\<close>

theorem form_powers_roundtrip:
  "parse_powers (join '', '' ps) = ps \<longleftrightarrow> list_all form_power ps"
  using parse_powers_form [of "join '', '' ps"] powers_parse_back [of ps] by auto

lemma validate_not_Inl_Nil [simp]: "validate_create c \<noteq> Inl []" "validate_update u \<noteq> Inl []"
  by (simp_all add: validate_create_def validate_update_def errors_result_def Let_def)

lemma into_hero_create_Inr:
  "into_hero_create f = Inr c \<Longrightarrow>
   validate_create c = Inr () \<and> hc_name c = hf_name f \<and> list_all form_power (hc_powers c)"
  using result_unit [of "validate_create c"] parse_powers_form [of "hf_powers f"]
  by (auto simp: into_hero_create_def Let_def split: sum.splits if_splits prod.splits)

lemma into_hero_update_Inr:
  "into_hero_update f = Inr u \<Longrightarrow>
   validate_update u = Inr () \<and> hu_name u = Some (hf_name f) \<and>
   parse_power_level (hf_power_level f) = Inr (hu_power_level u)"
  by (auto simp: into_hero_update_def Let_def split: sum.splits if_splits prod.splits)

text \<open>
  An edit form whose power level is left blank is an update that leaves the stored power
  level unchanged: the only way an accepted form changes it is to a number it names.
\<close>

theorem form_blank_power_level:
  assumes "into_hero_update f = Inr u"
  shows "hu_power_level u = None \<longleftrightarrow> trim (hf_power_level f) = []"
  using into_hero_update_Inr [OF assms]
  by (cases "hu_power_level u")
    (auto simp: parse_power_level_def Let_def split: if_splits option.splits)

definition sample_form :: hero_form_fields where
  "sample_form = \<lparr>hf_name = ''Spectra'', hf_powers = '' flight ,, strength'', hf_power_level = '' ''\<rparr>"

lemma sample_form_parsed:
  "into_hero_update sample_form =
     Inr \<lparr>hu_name = Some ''Spectra'', hu_powers = Some [''flight'', ''strength''], hu_power_level = None\<rparr>"
  by (simp add: into_hero_update_def sample_form_def parse_powers_def parse_power_level_def Let_def
      trim_def trim_start_def trim_end_def is_whitespace_def code_def validate_update_def
      validate_text_field_def validate_powers_def text_length_ok_def MAX_LEN_def errors_result_def)

theorem form_blank_power_level_witness:
  "trim (hf_power_level sample_form) = []"
  using form_blank_power_level [OF sample_form_parsed] by simp

end
