(* ===== verification/Hero_Repository.thy ===== *)
theory Hero_Repository
  imports Hero_Views Problem_Details
begin

text \<open>
  The storage-agnostic query types of \<open>craftainer_crud::repositories\<close> that both Hero
  repositories match on, and the contract of a repository as a locale: what create, update,
  bulk update, delete and bulk delete do to the rows. The two implementations,
  \<open>Hero_Memory\<close> and \<open>Hero_Sea_Orm\<close>, interpret it.
\<close>

section \<open>Queries\<close>

datatype filter_op = Eq | Ne | Lt | Lte | Gt | Gte | In | Contains | Icontains

text \<open>\<open>FilterValue\<close>; the bits of an \<open>f64\<close> are kept as they are.\<close>

datatype filter_value =
    FStr string
  | FInt int
  | FDateTime int
  | FFloat "64 word"
  | FBool bool
  | FList "filter_value list"

record filter_clause =
  fc_field :: string
  fc_op :: filter_op
  fc_value :: filter_value

record sort_clause =
  sc_field :: string
  sc_descending :: bool

record list_options =
  lo_skip :: nat
  lo_limit :: nat
  lo_include_archived :: bool
  lo_only_archived :: bool
  lo_filters :: "filter_clause list"
  lo_sort :: "sort_clause list"

text \<open>The successive readings of \<open>Utc::now()\<close> inside one call.\<close>

type_synonym clock = "nat \<Rightarrow> int"

type_synonym ('r, 'a) repo_op = "'r \<Rightarrow> (repo_error + 'a) \<times> 'r"

section \<open>Edits\<close>

text \<open>What an update request does to a row, apart from \<open>updated_at\<close>.\<close>

definition edit :: "hero_update \<Rightarrow> hero \<Rightarrow> hero" where
  "edit data h =
     h\<lparr>h_name := (case hu_name data of Some name \<Rightarrow> Some name | None \<Rightarrow> h_name h),
       h_powers := (case hu_powers data of Some powers \<Rightarrow> Some powers | None \<Rightarrow> h_powers h),
       h_power_level := (case hu_power_level data of Some l \<Rightarrow> Some l | None \<Rightarrow> h_power_level h)\<rparr>"

text \<open>An edit stamped at some instant, and an archived row.\<close>

definition edited :: "hero_update \<Rightarrow> hero \<Rightarrow> hero \<Rightarrow> bool" where
  "edited data h h' \<longleftrightarrow> (\<exists>t. h' = (edit data h)\<lparr>h_updated_at := t\<rparr>)"

definition archived_copy :: "hero \<Rightarrow> hero \<Rightarrow> bool" where
  "archived_copy h h' \<longleftrightarrow> (\<exists>t u. h' = h\<lparr>h_archived_at := Some t, h_updated_at := u\<rparr>)"

definition live :: "hero \<Rightarrow> bool" where
  "live h \<longleftrightarrow> h_archived_at h = None"

text \<open>What no operation changes in a row.\<close>

definition same_identity :: "hero \<Rightarrow> hero \<Rightarrow> bool" where
  "same_identity h h' \<longleftrightarrow>
     h_id h' = h_id h \<and> h_owner_id h' = h_owner_id h \<and> h_created_at h' = h_created_at h"

lemma edit_sel [simp]:
  "h_id (edit d h) = h_id h" "h_owner_id (edit d h) = h_owner_id h"
  "h_archived_at (edit d h) = h_archived_at h" "h_created_at (edit d h) = h_created_at h"
  by (simp_all add: edit_def)

lemma edited_identity: "edited d h h' \<Longrightarrow> same_identity h h' \<and> h_archived_at h' = h_archived_at h"
  by (auto simp: edited_def same_identity_def)

lemma archived_copy_identity: "archived_copy h h' \<Longrightarrow> same_identity h h' \<and> \<not> live h'"
  by (auto simp: archived_copy_def same_identity_def live_def)

lemma archived_copyI: "archived_copy h (h\<lparr>h_archived_at := Some t, h_updated_at := u\<rparr>)"
  by (auto simp: archived_copy_def)

lemma same_identity_refl [simp]: "same_identity h h"
  by (simp add: same_identity_def)

lemma same_identity_trans: "same_identity a b \<Longrightarrow> same_identity b c \<Longrightarrow> same_identity a c"
  by (simp add: same_identity_def)

section \<open>Operations as data\<close>

text \<open>A request to a repository, for statements about any sequence of them.\<close>

datatype repo_cmd =
    CmdCreate string hero_create
  | CmdUpdate int string hero_update
  | CmdUpdateMany "filter_clause list" hero_update
  | CmdDelete int string
  | CmdDeleteMany "filter_clause list"

record 'r repository =
  r_create :: "clock \<Rightarrow> string \<Rightarrow> hero_create \<Rightarrow> ('r, hero) repo_op"
  r_update :: "clock \<Rightarrow> int \<Rightarrow> string \<Rightarrow> hero_update \<Rightarrow> ('r, hero option) repo_op"
  r_update_many :: "clock \<Rightarrow> filter_clause list \<Rightarrow> hero_update \<Rightarrow> ('r, hero list) repo_op"
  r_delete :: "clock \<Rightarrow> int \<Rightarrow> string \<Rightarrow> ('r, bool) repo_op"
  r_delete_many :: "clock \<Rightarrow> filter_clause list \<Rightarrow> ('r, hero list) repo_op"

fun exec_cmd :: "'r repository \<Rightarrow> clock \<Rightarrow> repo_cmd \<Rightarrow> 'r \<Rightarrow> 'r" where
  "exec_cmd rp clk (CmdCreate owner data) r = snd (r_create rp clk owner data r)"
| "exec_cmd rp clk (CmdUpdate rid owner data) r = snd (r_update rp clk rid owner data r)"
| "exec_cmd rp clk (CmdUpdateMany filters data) r = snd (r_update_many rp clk filters data r)"
| "exec_cmd rp clk (CmdDelete rid owner) r = snd (r_delete rp clk rid owner r)"
| "exec_cmd rp clk (CmdDeleteMany filters) r = snd (r_delete_many rp clk filters r)"

fun exec_cmds :: "'r repository \<Rightarrow> (clock \<times> repo_cmd) list \<Rightarrow> 'r \<Rightarrow> 'r" where
  "exec_cmds rp [] r = r"
| "exec_cmds rp ((clk, c) # cs) r = exec_cmds rp cs (exec_cmd rp clk c r)"

text \<open>Whether a command may touch a row at all.\<close>

fun addresses :: "(filter_clause list \<Rightarrow> hero \<Rightarrow> bool) \<Rightarrow> hero \<Rightarrow> repo_cmd \<Rightarrow> bool" where
  "addresses sel h (CmdCreate owner data) = False"
| "addresses sel h (CmdUpdate rid owner data) = (h_id h = rid \<and> h_owner_id h = owner)"
| "addresses sel h (CmdUpdateMany filters data) = sel filters h"
| "addresses sel h (CmdDelete rid owner) = (h_id h = rid \<and> h_owner_id h = owner)"
| "addresses sel h (CmdDeleteMany filters) = sel filters h"

text \<open>What a command does to a live row it addresses.\<close>

fun changes :: "repo_cmd \<Rightarrow> hero \<Rightarrow> hero \<Rightarrow> bool" where
  "changes (CmdCreate owner data) h h' = False"
| "changes (CmdUpdate rid owner data) h h' = edited data h h'"
| "changes (CmdUpdateMany filters data) h h' = edited data h h'"
| "changes (CmdDelete rid owner) h h' = archived_copy h h'"
| "changes (CmdDeleteMany filters) h h' = archived_copy h h'"

section \<open>The contract\<close>

text \<open>What a command that creates nothing may make of the row under an id.\<close>

definition touched :: "(filter_clause list \<Rightarrow> hero \<Rightarrow> bool) \<Rightarrow> repo_cmd \<Rightarrow> hero option \<Rightarrow> hero option \<Rightarrow> bool" where
  "touched sel c before after = (case before of
     None \<Rightarrow> after = None
   | Some h \<Rightarrow> after = Some h \<or> (live h \<and> addresses sel h c \<and> (\<exists>h'. after = Some h' \<and> changes c h h')))"

text \<open>
  \<open>rows r id\<close> is the row a repository state holds under an id, \<open>sel\<close> which rows a filter list
  selects, and \<open>room r\<close> that an id is left for one more record. An operation that fails
  leaves the rows alone.
\<close>

locale hero_repository =
  fixes rp :: "'r repository"
    and rows :: "'r \<Rightarrow> int \<Rightarrow> hero option"
    and inv :: "'r \<Rightarrow> bool"
    and room :: "'r \<Rightarrow> bool"
    and sel :: "filter_clause list \<Rightarrow> hero \<Rightarrow> bool"
  assumes rows_id: "inv r \<Longrightarrow> rows r rid = Some h \<Longrightarrow> h_id h = rid"
    and create_inv: "inv r \<Longrightarrow> inv (snd (r_create rp clk owner data r))"
    and create_ok: "inv r \<Longrightarrow> room r \<Longrightarrow> r_create rp clk owner data r = (Inr m, r') \<Longrightarrow>
      rows r (h_id m) = None \<and> rows r' = (rows r)(h_id m \<mapsto> m) \<and>
      h_name m = Some (hc_name data) \<and> h_powers m = Some (hc_powers data) \<and>
      h_power_level m = hc_power_level data \<and> h_owner_id m = owner \<and> live m \<and>
      h_created_at m = clk 0 \<and> h_updated_at m = clk 0"
    and create_err: "inv r \<Longrightarrow> r_create rp clk owner data r = (Inl e, r') \<Longrightarrow> rows r' = rows r"
    and update_inv: "inv r \<Longrightarrow> inv (snd (r_update rp clk rid owner udata r))"
    and update_ok: "inv r \<Longrightarrow> r_update rp clk rid owner udata r = (Inr res, r') \<Longrightarrow>
      (case rows r rid of
         Some h \<Rightarrow> if h_owner_id h = owner \<and> live h
           then (\<exists>h'. res = Some h' \<and> edited udata h h' \<and> rows r' = (rows r)(rid \<mapsto> h'))
           else res = None \<and> rows r' = rows r
       | None \<Rightarrow> res = None \<and> rows r' = rows r)"
    and update_err: "inv r \<Longrightarrow> r_update rp clk rid owner udata r = (Inl e, r') \<Longrightarrow> rows r' = rows r"
    and update_many_inv: "inv r \<Longrightarrow> inv (snd (r_update_many rp clk filters udata r))"
    and update_many_ok: "inv r \<Longrightarrow> r_update_many rp clk filters udata r = (Inr ms, r') \<Longrightarrow>
      sorted_wrt (<) (map h_id ms) \<and>
      (\<forall>rid. case rows r rid of
         Some h \<Rightarrow> if live h \<and> sel filters h
           then (\<exists>h'. rows r' rid = Some h' \<and> edited udata h h' \<and> h' \<in> set ms)
           else rows r' rid = Some h \<and> rid \<notin> h_id ` set ms
       | None \<Rightarrow> rows r' rid = None \<and> rid \<notin> h_id ` set ms)"
    and update_many_err: "inv r \<Longrightarrow> r_update_many rp clk filters udata r = (Inl e, r') \<Longrightarrow>
      rows r' = rows r"
    and delete_inv: "inv r \<Longrightarrow> inv (snd (r_delete rp clk rid owner r))"
    and delete_ok: "inv r \<Longrightarrow> r_delete rp clk rid owner r = (Inr gone, r') \<Longrightarrow>
      (case rows r rid of
         Some h \<Rightarrow> if h_owner_id h = owner \<and> live h
           then (\<exists>h'. gone \<and> archived_copy h h' \<and> rows r' = (rows r)(rid \<mapsto> h'))
           else \<not> gone \<and> rows r' = rows r
       | None \<Rightarrow> \<not> gone \<and> rows r' = rows r)"
    and delete_err: "inv r \<Longrightarrow> r_delete rp clk rid owner r = (Inl e, r') \<Longrightarrow> rows r' = rows r"
    and delete_many_inv: "inv r \<Longrightarrow> inv (snd (r_delete_many rp clk filters r))"
    and delete_many_ok: "inv r \<Longrightarrow> r_delete_many rp clk filters r = (Inr ms, r') \<Longrightarrow>
      sorted_wrt (<) (map h_id ms) \<and>
      (\<forall>rid. case rows r rid of
         Some h \<Rightarrow> if live h \<and> sel filters h
           then (\<exists>h'. rows r' rid = Some h' \<and> archived_copy h h' \<and> h' \<in> set ms)
           else rows r' rid = Some h \<and> rid \<notin> h_id ` set ms
       | None \<Rightarrow> rows r' rid = None \<and> rid \<notin> h_id ` set ms)"
    and delete_many_err: "inv r \<Longrightarrow> r_delete_many rp clk filters r = (Inl e, r') \<Longrightarrow>
      rows r' = rows r"
begin

lemma exec_inv: "inv r \<Longrightarrow> inv (exec_cmd rp clk c r)"
  by (cases c)
    (simp_all add: create_inv update_inv update_many_inv delete_inv delete_many_inv)

text \<open>A creation never touches an existing row, whether or not it succeeds.\<close>

lemma create_keeps:
  assumes "inv r" "room r" "rows r rid = Some h"
  shows "rows (snd (r_create rp clk owner data r)) rid = Some h"
proof -
  obtain res r' where c: "r_create rp clk owner data r = (res, r')" by force
  show ?thesis
  proof (cases res)
    case (Inl e)
    with c create_err [OF assms(1)] assms(3) show ?thesis by simp
  next
    case (Inr m)
    with c create_ok [OF assms(1,2), of clk owner data m r'] assms(3) show ?thesis by auto
  qed
qed

text \<open>One command, row by row: what the laws of the operations come to.\<close>

lemma update_touches: "inv r \<Longrightarrow> touched sel (CmdUpdate i owner data) (rows r rid) (rows (exec_cmd rp clk (CmdUpdate i owner data) r) rid)"
  using update_ok [of r clk i owner data] update_err [of r clk i owner data] rows_id [of r rid]
  by (cases "r_update rp clk i owner data r"; cases "fst (r_update rp clk i owner data r)"; cases "i = rid")
    (force simp: touched_def split: option.splits if_splits)+

lemma delete_touches: "inv r \<Longrightarrow> touched sel (CmdDelete i owner) (rows r rid) (rows (exec_cmd rp clk (CmdDelete i owner) r) rid)"
  using delete_ok [of r clk i owner] delete_err [of r clk i owner] rows_id [of r rid]
  by (cases "r_delete rp clk i owner r"; cases "fst (r_delete rp clk i owner r)"; cases "i = rid")
    (force simp: touched_def split: option.splits if_splits)+

lemma update_many_touches:
  "inv r \<Longrightarrow> touched sel (CmdUpdateMany fs data) (rows r rid) (rows (exec_cmd rp clk (CmdUpdateMany fs data) r) rid)"
  using update_many_ok [of r clk fs data, THEN conjunct2, THEN spec, of _ _ rid] update_many_err [of r clk fs data]
  by (cases "r_update_many rp clk fs data r"; cases "fst (r_update_many rp clk fs data r)")
    (force simp: touched_def split: option.splits if_splits)+

lemma delete_many_touches:
  "inv r \<Longrightarrow> touched sel (CmdDeleteMany fs) (rows r rid) (rows (exec_cmd rp clk (CmdDeleteMany fs) r) rid)"
  using delete_many_ok [of r clk fs, THEN conjunct2, THEN spec, of _ _ rid] delete_many_err [of r clk fs]
  by (cases "r_delete_many rp clk fs r"; cases "fst (r_delete_many rp clk fs r)")
    (force simp: touched_def split: option.splits if_splits)+

lemma exec_touches:
  assumes "inv r" and "case c of CmdCreate _ _ \<Rightarrow> False | _ \<Rightarrow> True"
  shows "touched sel c (rows r rid) (rows (exec_cmd rp clk c r) rid)"
  using assms update_touches delete_touches update_many_touches delete_many_touches
  by (cases c) (simp_all del: exec_cmd.simps)

text \<open>A row is left alone, or it was live, addressed, and changed as it says.\<close>

lemma exec_row:
  assumes "inv r" "room r" "rows r rid = Some h"
  shows "rows (exec_cmd rp clk c r) rid = Some h \<or>
     (live h \<and> addresses sel h c \<and> (\<exists>h'. rows (exec_cmd rp clk c r) rid = Some h' \<and> changes c h h'))"
proof (cases c)
  case (CmdCreate owner data)
  then show ?thesis using create_keeps [OF assms] by simp
qed (use exec_touches [OF assms(1), of c rid clk] assms(3) in \<open>simp_all add: touched_def del: exec_cmd.simps\<close>)

lemma changes_identity: "changes c h h' \<Longrightarrow> same_identity h h'"
  by (cases c) (auto dest: edited_identity archived_copy_identity)

text \<open>
  Over any sequence of commands with an id left for each creation: a row never disappears and
  keeps its id, owner and creation time, and an archived row stays exactly as it is.
\<close>

fun room_for :: "(clock \<times> repo_cmd) list \<Rightarrow> 'r \<Rightarrow> bool" where
  "room_for [] r = True"
| "room_for ((clk, c) # cs) r = (room r \<and> room_for cs (exec_cmd rp clk c r))"

lemma exec_cmds_row:
  assumes "inv r" "room_for cs r" "rows r rid = Some h"
  shows "\<exists>h'. rows (exec_cmds rp cs r) rid = Some h' \<and> same_identity h h' \<and>
     (\<not> live h \<longrightarrow> h' = h)"
  using assms
proof (induction cs arbitrary: r h)
  case Nil
  then show ?case by simp
next
  case (Cons c cs)
  obtain clk cmd where c: "c = (clk, cmd)" by (cases c)
  obtain h1 where h1: "rows (exec_cmd rp clk cmd r) rid = Some h1" "same_identity h h1"
      "\<not> live h \<longrightarrow> h1 = h"
    using exec_row [of r rid h clk cmd] Cons.prems c changes_identity by fastforce
  obtain h2 where "rows (exec_cmds rp cs (exec_cmd rp clk cmd r)) rid = Some h2"
      "same_identity h1 h2" "\<not> live h1 \<longrightarrow> h2 = h1"
    using Cons.IH [of "exec_cmd rp clk cmd r" h1] Cons.prems c h1(1) exec_inv by auto
  then show ?case using h1 c same_identity_trans by auto
qed

end

text \<open>
  What a count promises on top: without filters it is the number of records, or of live ones. Since
  records never disappear, no run of commands brings the first below an earlier second.
\<close>

locale counted_repository = hero_repository rp rows inv room sel
  for rp :: "'r repository" and rows inv room sel +
  fixes count_rows :: "filter_clause list \<Rightarrow> bool \<Rightarrow> bool \<Rightarrow> 'r \<Rightarrow> repo_error + nat"
  assumes rows_finite: "inv r \<Longrightarrow> finite (dom (rows r))"
    and count_all: "inv r \<Longrightarrow> count_rows [] True False r = Inr n \<Longrightarrow> n = card (dom (rows r))"
    and count_live: "inv r \<Longrightarrow> count_rows [] False False r = Inr n \<Longrightarrow>
      n = card {i. \<exists>h. rows r i = Some h \<and> live h}"
begin

lemma exec_cmds_inv: "inv r \<Longrightarrow> inv (exec_cmds rp cs r)"
proof (induction cs arbitrary: r)
  case (Cons c cs)
  then show ?case by (cases c) (simp add: exec_inv)
qed simp

lemma live_le_later:
  assumes "inv r" "room_for cs r"
  shows "card {i. \<exists>h. rows r i = Some h \<and> live h} \<le> card (dom (rows (exec_cmds rp cs r)))"
proof (rule card_mono)
  show "finite (dom (rows (exec_cmds rp cs r)))" by (rule rows_finite [OF exec_cmds_inv [OF assms(1)]])
  show "{i. \<exists>h. rows r i = Some h \<and> live h} \<subseteq> dom (rows (exec_cmds rp cs r))"
    using exec_cmds_row [OF assms] by blast
qed

end

end
