(* ===== verification/App_State.thy ===== *)
theory App_State
  imports Oidc Rate_Limit Hero_Repository
begin

text \<open>
  \<open>src/hero/controllers/mod.rs\<close> and \<open>src/hero/controllers/analytics.rs\<close>: the application state
  the Hero routers share, the role sets, the entity tag of a read, the \<open>If-Match\<close> check and
  the two analytics events. What the handlers call of \<open>craftainer_crud\<close> (the service, the
  query parsers, the bulk decisions, conditional requests) is the record \<open>crud_api\<close>; the world
  a handler changes is the repository, the rate limiter, the published events and the tracked
  analytics events.
\<close>

section \<open>The crate's interface\<close>

type_synonym raw_params = "(string \<times> string) list"
type_synonym 'a parsed = "field_error list + 'a"

datatype field_kind = NumberField | StringField | DatetimeField

type_synonym field_spec = "string \<times> field_kind"

datatype list_or_get = One hero | Many "hero list"
datatype update_outcome = UpdatedOne hero | UpdatedBulk bulk_result
datatype delete_outcome = DeletedOne | DeletedBulk bulk_result

datatype event_action = Create | Update | UpdateMany | Delete | DeleteMany

text \<open>
  \<open>'r\<close> is the repository's state, \<open>'sc\<close> the crate's archived scope. The service operations are
  those of \<open>CrudService\<close> and \<open>crud_actions\<close> on that state; \<open>clock\<close> is what they read of the time.
\<close>

record ('r, 'sc) crud_api =
  ca_parse_archived_scope :: "raw_params \<Rightarrow> 'sc parsed"
  ca_parse_include_archived :: "raw_params \<Rightarrow> bool parsed"
  ca_parse_filters :: "field_spec list \<Rightarrow> raw_params \<Rightarrow> filter_clause list parsed"
  ca_parse_sort :: "field_spec list \<Rightarrow> raw_params \<Rightarrow> sort_clause list parsed"
  ca_reject_only_archived :: "raw_params \<Rightarrow> unit parsed"
  ca_parse_include_unpublished :: "raw_params \<Rightarrow> bool parsed"
  ca_get :: "int \<Rightarrow> bool \<Rightarrow> ('r, repo_error, hero option) eff"
  ca_list :: "nat \<Rightarrow> nat \<Rightarrow> bool \<Rightarrow> bool \<Rightarrow> filter_clause list \<Rightarrow> sort_clause list \<Rightarrow>
    ('r, repo_error, hero list) eff"
  ca_create :: "clock \<Rightarrow> string \<Rightarrow> hero_create \<Rightarrow> ('r, repo_error, hero) eff"
  ca_resolve_list_or_get :: "int option \<Rightarrow> nat \<Rightarrow> nat \<Rightarrow> 'sc \<Rightarrow> filter_clause list \<Rightarrow>
    sort_clause list \<Rightarrow> ('r, crud_error, list_or_get) eff"
  ca_resolve_update :: "clock \<Rightarrow> int option \<Rightarrow> string \<Rightarrow> filter_clause list \<Rightarrow> hero_update \<Rightarrow>
    nat \<Rightarrow> ('r, crud_error, update_outcome) eff"
  ca_resolve_update_by_id :: "clock \<Rightarrow> int \<Rightarrow> string \<Rightarrow> hero_update \<Rightarrow> ('r, crud_error, hero) eff"
  ca_resolve_delete :: "clock \<Rightarrow> int option \<Rightarrow> string \<Rightarrow> filter_clause list \<Rightarrow> nat \<Rightarrow> bool \<Rightarrow>
    ('r, crud_error, delete_outcome) eff"
  ca_default_limit :: nat
  ca_record_etag :: "hero \<Rightarrow> string"
  ca_list_etag :: "hero list \<Rightarrow> string"
  ca_not_modified :: "request_headers \<Rightarrow> string \<Rightarrow> response option"
  ca_check_if_match :: "request_headers \<Rightarrow> string \<Rightarrow> string \<Rightarrow> crud_error + unit"
  ca_revalidation_headers :: "string \<Rightarrow> response_headers"
  ca_repo_error_display :: "repo_error \<Rightarrow> string"
  ca_redacted_detail :: "string \<Rightarrow> string \<Rightarrow> string"
  ca_crud_error_into_response :: "crud_error \<Rightarrow> response"

text \<open>\<open>quick_xml::se::to_string_with_root\<close> and \<open>quick_xml::de::from_str\<close>; text is UTF-8 bytes.\<close>

type_synonym bytes = "8 word list"

record xml_api =
  xa_to_string_with_root :: "string \<Rightarrow> json \<Rightarrow> string + string"
  xa_hero_create :: "bytes \<Rightarrow> string + hero_create"
  xa_hero_update :: "bytes \<Rightarrow> string + hero_update"
  xa_hero_create_v1 :: "bytes \<Rightarrow> string + hero_create_v1"
  xa_hero_update_v1 :: "bytes \<Rightarrow> string + hero_update_v1"

section \<open>State\<close>

text \<open>\<open>AppState\<close>: what does not change while serving, and the world that does.\<close>

record ('r, 'l, 'sc) app_state =
  as_settings :: settings
  as_crud :: "('r, 'sc) crud_api"
  as_redis :: "'l redis_commands"
  as_xml :: xml_api
  as_http_date :: "int \<Rightarrow> string"

record published =
  ev_resource :: string
  ev_action :: event_action
  ev_ids :: "int list"

record tracked =
  tr_name :: string
  tr_props :: "(string \<times> int) list"
  tr_url :: string

record ('r, 'l) world =
  w_repo :: 'r
  w_limiter :: "'l backend"
  w_events :: "published list"
  w_tracked :: "tracked list"

type_synonym ('r, 'l, 'a) handler = "(('r, 'l) world, app_error, 'a) eff"

text \<open>What the extractors take from one request, and the instants it is served at.\<close>

record call =
  c_ip :: string
  c_query :: hero_list_query
  c_params :: raw_params
  c_headers :: request_headers
  c_now :: nat
  c_clock :: clock

section \<open>Parts of the world\<close>

definition on_repo :: "('e \<Rightarrow> 'f) \<Rightarrow> ('r, 'e, 'a) eff \<Rightarrow> (('r, 'l) world, 'f, 'a) eff" where
  "on_repo g m = (\<lambda>w. case m (w_repo w) of (x, r) \<Rightarrow> (map_err g x, w\<lparr>w_repo := r\<rparr>))"

definition on_limiter :: "('l backend, app_error, 'a) eff \<Rightarrow> ('r, 'l, 'a) handler" where
  "on_limiter m = (\<lambda>w. case m (w_limiter w) of (x, l) \<Rightarrow> (x, w\<lparr>w_limiter := l\<rparr>))"

text \<open>\<open>if let Err(err) = m { return g(err) }\<close>.\<close>

definition or_return :: "('e \<Rightarrow> 'f) \<Rightarrow> ('w, 'e, 'a) eff \<Rightarrow> ('w, 'f, 'a) eff" where
  "or_return g m = (\<lambda>w. case m w of (x, w') \<Rightarrow> (map_err g x, w'))"

text \<open>\<open>crud_events::publish\<close>, which cannot fail, and \<open>track\<close>.\<close>

definition publish :: "string \<Rightarrow> event_action \<Rightarrow> int list \<Rightarrow> (('r, 'l) world, 'e, unit) eff" where
  "publish resource action ids = (\<lambda>w.
     (Inr (), w\<lparr>w_events := w_events w @ [\<lparr>ev_resource = resource, ev_action = action, ev_ids = ids\<rparr>]\<rparr>))"

definition track :: "string \<Rightarrow> (string \<times> int) list \<Rightarrow> string \<Rightarrow> ('r, 'l, unit) handler" where
  "track name props url = (\<lambda>w.
     (Inr (), w\<lparr>w_tracked := w_tracked w @ [\<lparr>tr_name = name, tr_props = props, tr_url = url\<rparr>]\<rparr>))"

lemma on_repo_run [run_simps]:
  "on_repo g m w = (map_err g (fst (m (w_repo w))), w\<lparr>w_repo := snd (m (w_repo w))\<rparr>)"
  by (simp add: on_repo_def split: prod.splits)

lemma on_limiter_run [run_simps]:
  "on_limiter m w = (fst (m (w_limiter w)), w\<lparr>w_limiter := snd (m (w_limiter w))\<rparr>)"
  by (simp add: on_limiter_def split: prod.splits)

section \<open>Roles and events\<close>

definition HERO_READ_ROLES :: "string list" where
  "HERO_READ_ROLES = [''viewer'', ''editor'', ''maintainer'', ''detective'']"

definition HERO_WRITE_ROLES :: "string list" where
  "HERO_WRITE_ROLES = [''editor'', ''maintainer'']"

definition HERO_DELETE_ROLES :: "string list" where
  "HERO_DELETE_ROLES = [''maintainer'']"

definition HERO_EVENT_RESOURCE :: string where
  "HERO_EVENT_RESOURCE = ''heroes''"

section \<open>Conditional requests\<close>

definition read_etag :: "('r, 'sc) crud_api \<Rightarrow> list_or_get \<Rightarrow> string" where
  "read_etag crud result =
     (case result of One hero \<Rightarrow> ca_record_etag crud hero | Many heroes \<Rightarrow> ca_list_etag crud heroes)"

definition IF_MATCH :: string where
  "IF_MATCH = ''if-match''"

definition ETAG :: string where
  "ETAG = ''etag''"

definition enforce_if_match ::
  "('r, 'l, 'sc) app_state \<Rightarrow> request_headers \<Rightarrow> int option \<Rightarrow> raw_params \<Rightarrow> ('r, 'l, unit) handler"
  where
  "enforce_if_match state headers rid raw_params =
     (let crud = as_crud state in
      case rid of
        None \<Rightarrow> ok ()
      | Some i \<Rightarrow>
          if \<not> contains_key headers IF_MATCH then ok ()
          else
            and_then (lift (map_err UnprocessableEntity (ca_parse_include_archived crud raw_params)))
              (\<lambda>include_archived.
            and_then (on_repo (from_repo_error (ca_repo_error_display crud)) (ca_get crud i include_archived))
              (\<lambda>found.
            case found of
              Some current \<Rightarrow>
                lift (map_err from_crud_error
                  (ca_check_if_match crud headers (ca_record_etag crud current) ''Hero''))
            | None \<Rightarrow> ok ())))"

section \<open>Analytics\<close>

definition CONSENT_HEADER :: string where
  "CONSENT_HEADER = ''Analytics-Consent''"

definition HERO_URL :: string where
  "HERO_URL = ''/crud/v1/heroes/v2/json''"

definition signalled :: "request_headers \<Rightarrow> string \<Rightarrow> bool" where
  "signalled headers name =
     (case (case header_lookup headers name of None \<Rightarrow> None | Some hv \<Rightarrow> to_str hv) of
        Some s \<Rightarrow> trim s = ''1'' | None \<Rightarrow> False)"

record request_signals =
  rs_gpc :: bool
  rs_consent :: bool

definition request_context :: "request_headers \<Rightarrow> request_signals" where
  "request_context headers =
     \<lparr>rs_gpc = signalled headers ''Sec-GPC'' \<or> signalled headers ''DNT'',
      rs_consent = signalled headers CONSENT_HEADER\<rparr>"

definition hero_created :: "hero \<Rightarrow> ('r, 'l, unit) handler" where
  "hero_created hero =
     (let powers = (case h_powers hero of None \<Rightarrow> 0 | Some ps \<Rightarrow> length ps) in
      track ''hero.created'' [(''powers_count'', int (if powers < 2 ^ 64 then powers else 0))] HERO_URL)"

definition hero_deleted :: "('r, 'l, unit) handler" where
  "hero_deleted = track ''hero.deleted'' [] HERO_URL"

section \<open>Facts about the steps\<close>

text \<open>The part of the world that only a successful write changes.\<close>

definition quiet :: "('r, 'l) world \<Rightarrow> ('r, 'l) world \<Rightarrow> bool" where
  "quiet w w' \<longleftrightarrow> w_events w' = w_events w \<and> w_tracked w' = w_tracked w"

definition limiter_only :: "('r, 'l) world \<Rightarrow> ('r, 'l) world \<Rightarrow> bool" where
  "limiter_only w w' \<longleftrightarrow> w' = w\<lparr>w_limiter := w_limiter w'\<rparr>"

lemma quiet_refl [simp]: "quiet w w"
  by (simp add: quiet_def)

lemma quiet_upd [simp]:
  "quiet w (w'\<lparr>w_repo := r\<rparr>) = quiet w w'" "quiet w (w'\<lparr>w_limiter := l\<rparr>) = quiet w w'"
  by (simp_all add: quiet_def)

lemma limiter_only_upd [simp]: "limiter_only w (w\<lparr>w_limiter := l\<rparr>)" "limiter_only w w"
  by (simp_all add: limiter_only_def)

lemma limiter_only_quiet: "limiter_only w w' \<Longrightarrow> quiet w w' \<and> w_repo w' = w_repo w"
  by (cases w; cases w') (simp add: limiter_only_def quiet_def)

lemma or_return_run [run_simps]: "or_return g m w = (map_err g (fst (m w)), snd (m w))"
  by (simp add: or_return_def split: prod.splits)

lemma publish_run [run_simps]:
  "publish resource action ids w =
     (Inr (), w\<lparr>w_events := w_events w @ [\<lparr>ev_resource = resource, ev_action = action, ev_ids = ids\<rparr>]\<rparr>)"
  by (simp add: publish_def)

lemma track_run [run_simps]:
  "track name props url w =
     (Inr (), w\<lparr>w_tracked := w_tracked w @ [\<lparr>tr_name = name, tr_props = props, tr_url = url\<rparr>]\<rparr>)"
  by (simp add: track_def)

text \<open>Reads of the service leave the repository alone: documented of every read of the crate.\<close>

definition reads_keep :: "('r, 'sc) crud_api \<Rightarrow> bool" where
  "reads_keep crud \<longleftrightarrow>
     (\<forall>i ia r. snd (ca_get crud i ia r) = r) \<and>
     (\<forall>sk li ia oa fs so r. snd (ca_list crud sk li ia oa fs so r) = r) \<and>
     (\<forall>i sk li sc fs so r. snd (ca_resolve_list_or_get crud i sk li sc fs so r) = r)"

lemma enforce_if_match_world:
  assumes "reads_keep (as_crud state)"
  shows "snd (enforce_if_match state headers rid params w) = w"
  using assms
  by (auto simp: enforce_if_match_def Let_def run_simps reads_keep_def map_err_def
      split: option.splits sum.splits)

lemma enforce_if_match_None [simp]: "enforce_if_match state headers None params = ok ()"
  by (simp add: enforce_if_match_def Let_def)

lemma enforce_if_match_absent:
  "\<not> contains_key headers IF_MATCH \<Longrightarrow> enforce_if_match state headers rid params = ok ()"
  by (simp add: enforce_if_match_def Let_def split: option.splits)

lemma role_inclusion:
  "set HERO_DELETE_ROLES \<subseteq> set HERO_WRITE_ROLES \<and> set HERO_WRITE_ROLES \<subseteq> set HERO_READ_ROLES"
  by (auto simp: HERO_DELETE_ROLES_def HERO_WRITE_ROLES_def HERO_READ_ROLES_def)

end
