(* ===== verification/Hero_Endpoint.thy ===== *)
theory Hero_Endpoint
  imports App_State
begin

text \<open>
  What the four Hero routers (JSON and XML, versions 2 and 1) have in common: the rate-limit
  scope and field table of \<open>src/hero/controllers/heroes.rs\<close> they share, and the abstract
  endpoint each of them is shown to implement. The endpoint is the specification: one list/get,
  create, update and delete whose representation (\<open>codec\<close>: how a record, a page and a bulk result
  are rendered, what is attached to every success, whether analytics are tracked) is a parameter,
  with the request body already decoded. The locale \<open>hero_router\<close> states that a router is this
  endpoint under its codec, and its lemmas are what every router then has.
\<close>

section \<open>Shared by the routers\<close>

definition HERO_WRITE_RATE_SCOPE :: string where
  "HERO_WRITE_RATE_SCOPE = ''hero-write''"

definition HERO_FIELD_SPECS :: "field_spec list" where
  "HERO_FIELD_SPECS =
     [(''id'', NumberField), (''name'', StringField), (''power_level'', NumberField),
      (''owner_id'', StringField), (''archived_at'', DatetimeField),
      (''created_at'', DatetimeField), (''updated_at'', DatetimeField)]"

text \<open>The call of \<open>RateLimiter::check\<close> each mutating handler starts with.\<close>

definition check_write_rate :: "('r, 'l, 'sc) app_state \<Rightarrow> call \<Rightarrow> ('r, 'l, unit) handler" where
  "check_write_rate state c =
     on_limiter (check (as_redis state) (c_now c) HERO_WRITE_RATE_SCOPE (c_ip c)
       (rate_limit_hero_write_per_minute (as_settings state)) 60)"

section \<open>The abstract endpoint\<close>

record codec =
  cd_one :: "hero \<Rightarrow> app_error + response"
  cd_many :: "hero list \<Rightarrow> app_error + response"
  cd_bulk_updated :: "bulk_result \<Rightarrow> app_error + response"
  cd_bulk_deleted :: "bulk_result \<Rightarrow> app_error + response"
  cd_wrap :: "response \<Rightarrow> response"
  cd_tracks :: bool

definition role_gate :: "('r, 'l, 'sc) app_state \<Rightarrow> claims \<Rightarrow> string list \<Rightarrow> app_error + unit" where
  "role_gate state claims roles = require_any_role claims (oidc_client_id (as_settings state)) roles"

definition render :: "codec \<Rightarrow> (response \<Rightarrow> response) \<Rightarrow> app_error + response \<Rightarrow> app_error + response" where
  "render cd f r = and_then_r r (\<lambda>resp. Inr (cd_wrap cd (f resp)))"

definition endpoint_read ::
  "codec \<Rightarrow> ('r, 'l, 'sc) app_state \<Rightarrow> call \<Rightarrow> claims \<Rightarrow> ('r, 'l, response) handler" where
  "endpoint_read cd state c claims =
     (let crud = as_crud state in
      and_then (lift (role_gate state claims HERO_READ_ROLES)) (\<lambda>_.
      and_then (lift (map_err UnprocessableEntity (ca_parse_archived_scope crud (c_params c)))) (\<lambda>archived.
      and_then (lift (map_err UnprocessableEntity (ca_parse_filters crud HERO_FIELD_SPECS (c_params c)))) (\<lambda>filters.
      and_then (lift (map_err UnprocessableEntity (ca_parse_sort crud HERO_FIELD_SPECS (c_params c)))) (\<lambda>sort.
      and_then (on_repo from_crud_error (ca_resolve_list_or_get crud (hq_id (c_query c))
        (case hq_skip (c_query c) of None \<Rightarrow> 0 | Some n \<Rightarrow> n)
        (case hq_limit (c_query c) of None \<Rightarrow> ca_default_limit crud | Some n \<Rightarrow> n)
        archived filters sort)) (\<lambda>result.
      case ca_not_modified crud (c_headers c) (read_etag crud result) of
        Some unchanged \<Rightarrow> ok (cd_wrap cd unchanged)
      | None \<Rightarrow> lift (render cd (with_headers (ca_revalidation_headers crud (read_etag crud result)))
          (case result of One hero \<Rightarrow> cd_one cd hero | Many heroes \<Rightarrow> cd_many cd heroes))))))))"

text \<open>
  The writes share one pipeline, whatever they write: the rate limit, the role gate, the decoding
  of body and query, the caller's subject, the precondition, the write itself, its event, its
  analytics, the response. \<open>'e\<close> is the type of an early return and \<open>g\<close> how an error becomes one.
\<close>

record ('r, 'l, 'e, 'p, 'o) write_steps =
  ws_roles :: "string list"
  ws_prepare :: "'e + 'p"
  ws_precondition :: "(('r, 'l) world, 'e, unit) eff"
  ws_perform :: "string \<Rightarrow> 'p \<Rightarrow> (('r, 'l) world, 'e, 'o) eff"
  ws_announce :: "'o \<Rightarrow> event_action \<times> int list"
  ws_track :: "'o \<Rightarrow> (('r, 'l) world, 'e, unit) eff"
  ws_respond :: "'o \<Rightarrow> 'e + response"

definition write_pipeline ::
  "(app_error \<Rightarrow> 'e) \<Rightarrow> ('r, 'l, 'sc) app_state \<Rightarrow> call \<Rightarrow> claims \<Rightarrow> ('r, 'l, 'e, 'p, 'o) write_steps \<Rightarrow>
   (('r, 'l) world, 'e, response) eff" where
  "write_pipeline g state c claims ws =
     and_then (or_return g (check_write_rate state c)) (\<lambda>_.
     and_then (or_return g (lift (role_gate state claims (ws_roles ws)))) (\<lambda>_.
     and_then (lift (ws_prepare ws)) (\<lambda>p.
     and_then (or_return g (lift (subject claims))) (\<lambda>owner_id.
     and_then (ws_precondition ws) (\<lambda>_.
     and_then (ws_perform ws owner_id p) (\<lambda>out.
     and_then (publish HERO_EVENT_RESOURCE (fst (ws_announce ws out)) (snd (ws_announce ws out))) (\<lambda>_.
     and_then (ws_track ws out) (\<lambda>_.
     lift (ws_respond ws out)))))))))"

section \<open>The writes of the Hero resource\<close>

datatype write_cmd =
    WriteCreate hero_create
  | WriteUpdate "filter_clause list" hero_update
  | WriteDelete "filter_clause list" bool

datatype written = Created hero | Updated update_outcome | Deleted delete_outcome

definition perform ::
  "('r, 'l, 'sc) app_state \<Rightarrow> call \<Rightarrow> string \<Rightarrow> write_cmd \<Rightarrow> ('r, 'l, written) handler" where
  "perform state c owner_id cmd =
     (let crud = as_crud state; rid = hq_id (c_query c); mx = bulk_action_max_matched (as_settings state) in
      case cmd of
        WriteCreate payload \<Rightarrow>
          and_then (on_repo (from_repo_error (ca_repo_error_display crud))
            (ca_create crud (c_clock c) owner_id payload)) (\<lambda>hero. ok (Created hero))
      | WriteUpdate filters payload \<Rightarrow>
          and_then (on_repo from_crud_error
            (ca_resolve_update crud (c_clock c) rid owner_id filters payload mx)) (\<lambda>out. ok (Updated out))
      | WriteDelete filters include_unpublished \<Rightarrow>
          and_then (on_repo from_crud_error
            (ca_resolve_delete crud (c_clock c) rid owner_id filters mx include_unpublished))
            (\<lambda>out. ok (Deleted out)))"

definition announcement :: "call \<Rightarrow> written \<Rightarrow> event_action \<times> int list" where
  "announcement c out = (case out of
       Created hero \<Rightarrow> (Create, [h_id hero])
     | Updated (UpdatedOne hero) \<Rightarrow> (Update, [h_id hero])
     | Updated (UpdatedBulk result) \<Rightarrow> (UpdateMany, br_ids result)
     | Deleted DeletedOne \<Rightarrow> (Delete, case hq_id (c_query c) of None \<Rightarrow> [] | Some i \<Rightarrow> [i])
     | Deleted (DeletedBulk result) \<Rightarrow> (DeleteMany, br_ids result))"

definition tracking :: "codec \<Rightarrow> written \<Rightarrow> ('r, 'l, unit) handler" where
  "tracking cd out =
     (if cd_tracks cd
      then (case out of Created hero \<Rightarrow> hero_created hero | Deleted DeletedOne \<Rightarrow> hero_deleted | _ \<Rightarrow> ok ())
      else ok ())"

definition reply :: "codec \<Rightarrow> ('r, 'sc) crud_api \<Rightarrow> written \<Rightarrow> app_error + response" where
  "reply cd crud out = (case out of
       Created hero \<Rightarrow> render cd (with_status 201) (cd_one cd hero)
     | Updated (UpdatedOne hero) \<Rightarrow>
         render cd (with_headers [(ETAG, ca_record_etag crud hero)]) (cd_one cd hero)
     | Updated (UpdatedBulk result) \<Rightarrow> render cd (\<lambda>r. r) (cd_bulk_updated cd result)
     | Deleted DeletedOne \<Rightarrow> Inr (cd_wrap cd (status_response 204))
     | Deleted (DeletedBulk result) \<Rightarrow> render cd (\<lambda>r. r) (cd_bulk_deleted cd result))"

type_synonym ('r, 'l) hero_steps = "('r, 'l, app_error, write_cmd, written) write_steps"

definition hero_write ::
  "codec \<Rightarrow> ('r, 'l, 'sc) app_state \<Rightarrow> call \<Rightarrow> string list \<Rightarrow> app_error + write_cmd \<Rightarrow>
   ('r, 'l, unit) handler \<Rightarrow> ('r, 'l) hero_steps" where
  "hero_write cd state c roles prepare precondition =
     \<lparr>ws_roles = roles, ws_prepare = prepare, ws_precondition = precondition,
      ws_perform = perform state c, ws_announce = announcement c, ws_track = tracking cd,
      ws_respond = reply cd (as_crud state)\<rparr>"

definition query_filters :: "('r, 'l, 'sc) app_state \<Rightarrow> call \<Rightarrow> app_error + filter_clause list" where
  "query_filters state c =
     and_then_r (map_err UnprocessableEntity (ca_parse_filters (as_crud state) HERO_FIELD_SPECS (c_params c)))
       (\<lambda>filters. and_then_r
          (map_err UnprocessableEntity (ca_reject_only_archived (as_crud state) (c_params c)))
          (\<lambda>_. Inr filters))"

definition if_match_of :: "('r, 'l, 'sc) app_state \<Rightarrow> call \<Rightarrow> ('r, 'l, unit) handler" where
  "if_match_of state c = enforce_if_match state (c_headers c) (hq_id (c_query c)) (c_params c)"

definition create_steps ::
  "codec \<Rightarrow> ('r, 'l, 'sc) app_state \<Rightarrow> call \<Rightarrow> app_error + hero_create \<Rightarrow> ('r, 'l) hero_steps" where
  "create_steps cd state c body =
     hero_write cd state c HERO_WRITE_ROLES
       (and_then_r body (\<lambda>payload. Inr (WriteCreate payload))) (ok ())"

definition update_steps ::
  "codec \<Rightarrow> ('r, 'l, 'sc) app_state \<Rightarrow> call \<Rightarrow> app_error + hero_update \<Rightarrow> ('r, 'l) hero_steps" where
  "update_steps cd state c body =
     hero_write cd state c HERO_WRITE_ROLES
       (and_then_r body (\<lambda>payload. and_then_r (query_filters state c)
          (\<lambda>filters. Inr (WriteUpdate filters payload))))
       (if_match_of state c)"

definition delete_steps :: "codec \<Rightarrow> ('r, 'l, 'sc) app_state \<Rightarrow> call \<Rightarrow> ('r, 'l) hero_steps" where
  "delete_steps cd state c =
     hero_write cd state c HERO_DELETE_ROLES
       (and_then_r (query_filters state c) (\<lambda>filters. and_then_r
          (map_err UnprocessableEntity (ca_parse_include_unpublished (as_crud state) (c_params c)))
          (\<lambda>include_unpublished. Inr (WriteDelete filters include_unpublished))))
       (if_match_of state c)"

text \<open>A body that was already parsed: validated, then converted to a version 2 request.\<close>

definition checked_body :: "('p \<Rightarrow> unit parsed) \<Rightarrow> ('p \<Rightarrow> 'q) \<Rightarrow> 'p \<Rightarrow> app_error + 'q" where
  "checked_body validate convert payload =
     and_then_r (map_err UnprocessableEntity (validate payload)) (\<lambda>_. Inr (convert payload))"

section \<open>Fusing the steps of a handler\<close>

lemma and_then_cong: "(\<And>x. f x = g x) \<Longrightarrow> and_then m f = and_then m g"
  by (simp add: and_then_def fun_eq_iff split: prod.splits sum.splits)

lemma and_then_ok_right [simp]: "and_then m ok = m"
  by (simp add: and_then_def ok_def fun_eq_iff split: prod.splits sum.splits)

lemma and_then_lift_r: "and_then (lift (and_then_r r f)) g = and_then (lift r) (\<lambda>x. and_then (lift (f x)) g)"
  by (cases r) simp_all

lemma lift_ok: "lift (Inr x) = ok x"
  by (simp add: lift_def ok_def fun_eq_iff)

lemma or_return_id [simp]: "or_return (\<lambda>e. e) m = m"
  by (simp add: or_return_def fun_eq_iff map_err_def split: prod.splits sum.splits)

lemma lift_render: "lift (render cd f r) = and_then (lift r) (\<lambda>resp. ok (cd_wrap cd (f resp)))"
  by (cases r) (simp_all add: render_def lift_ok)

lemmas step_defs =
  write_pipeline_def create_steps_def update_steps_def delete_steps_def hero_write_def
  query_filters_def if_match_of_def role_gate_def perform_def announcement_def tracking_def reply_def
  checked_body_def Let_def

lemmas fuse = and_then_lift_r and_then_assoc lift_render lift_ok

section \<open>What a read does\<close>

definition read_lookup :: "('r, 'l, 'sc) app_state \<Rightarrow> call \<Rightarrow> 'sc \<Rightarrow> filter_clause list \<Rightarrow> sort_clause list \<Rightarrow>
    ('r, crud_error, list_or_get) eff" where
  "read_lookup state c archived filters sorting =
     ca_resolve_list_or_get (as_crud state) (hq_id (c_query c))
       (case hq_skip (c_query c) of None \<Rightarrow> 0 | Some n \<Rightarrow> n)
       (case hq_limit (c_query c) of None \<Rightarrow> ca_default_limit (as_crud state) | Some n \<Rightarrow> n)
       archived filters sorting"

definition read_reply :: "codec \<Rightarrow> ('r, 'sc) crud_api \<Rightarrow> request_headers \<Rightarrow> list_or_get \<Rightarrow> app_error + response" where
  "read_reply cd crud headers result =
     (case ca_not_modified crud headers (read_etag crud result) of
        Some unchanged \<Rightarrow> Inr (cd_wrap cd unchanged)
      | None \<Rightarrow> render cd (with_headers (ca_revalidation_headers crud (read_etag crud result)))
          (case result of One hero \<Rightarrow> cd_one cd hero | Many heroes \<Rightarrow> cd_many cd heroes))"

lemma and_then_liftE:
  assumes "and_then (lift r) f w = (res, w')"
  obtains (early) err where "r = Inl err" "res = Inl err" "w' = w"
  | (on) x where "r = Inr x" "f x w = (res, w')"
  using assms by (cases r) (auto simp: lift_run)

lemma endpoint_read_runs:
  assumes "endpoint_read cd state c claims w = (res, w')"
  obtains (refused) err where "res = Inl err" "w' = w"
  | (failed) archived filters sorting err r where "res = Inl (from_crud_error err)"
      "read_lookup state c archived filters sorting (w_repo w) = (Inl err, r)" "w' = w\<lparr>w_repo := r\<rparr>"
  | (answered) archived filters sorting result r where
      "read_lookup state c archived filters sorting (w_repo w) = (Inr result, r)" "w' = w\<lparr>w_repo := r\<rparr>"
      "res = read_reply cd (as_crud state) (c_headers c) result"
proof -
  note run = assms [unfolded endpoint_read_def Let_def, folded read_lookup_def]
  from run show thesis
  proof (cases rule: and_then_liftE)
    case (early err)
    then show thesis using refused by blast
  next
    case (on x)
    from on(2) show thesis
    proof (cases rule: and_then_liftE)
      case (early err)
      then show thesis using refused by blast
    next
      case (on archived)
      from on(2) show thesis
      proof (cases rule: and_then_liftE)
        case (early err)
        then show thesis using refused by blast
      next
        case (on filters)
        from on(2) show thesis
        proof (cases rule: and_then_liftE)
          case (early err)
          then show thesis using refused by blast
        next
          case (on sorting)
          obtain out r where look: "read_lookup state c archived filters sorting (w_repo w) = (out, r)"
            by force
          show thesis
          proof (cases out)
            case (Inl err)
            then show thesis using failed [OF _ look [unfolded Inl]] on(2) look by (simp add: run_simps)
          next
            case (Inr result)
            then show thesis
              using answered [OF look [unfolded Inr]] on(2) look
              by (simp add: run_simps read_reply_def split: option.splits)
          qed
        qed
      qed
    qed
  qed
qed

section \<open>The contract of a write endpoint\<close>

text \<open>
  A handler that runs the pipeline with steps that keep to their part of the world: the
  precondition reads, the write touches the repository alone, tracking only tracks. \<open>tracked_of\<close>
  is what an outcome tracks.
\<close>

locale write_endpoint =
  fixes g :: "('r, 'l, 'sc) app_state \<Rightarrow> app_error \<Rightarrow> 'e"
    and handler :: "'rq \<Rightarrow> ('r, 'l, 'sc) app_state \<Rightarrow> call \<Rightarrow> claims \<Rightarrow> (('r, 'l) world, 'e, response) eff"
    and steps :: "'rq \<Rightarrow> ('r, 'l, 'sc) app_state \<Rightarrow> call \<Rightarrow> ('r, 'l, 'e, 'p, 'o) write_steps"
    and tracked_of :: "'rq \<Rightarrow> 'o \<Rightarrow> tracked list"
  assumes implements:
      "handler rq state c claims = write_pipeline (g state) state c claims (steps rq state c)"
    and precondition_keeps: "reads_keep (as_crud state) \<Longrightarrow>
      ws_precondition (steps rq state c) w = (pres, w') \<Longrightarrow> w' = w"
    and perform_repo: "ws_perform (steps rq state c) owner p w = (ores, w') \<Longrightarrow>
      w' = w\<lparr>w_repo := w_repo w'\<rparr>"
    and track_only: "ws_track (steps rq state c) out w =
      (Inr (), w\<lparr>w_tracked := w_tracked w @ tracked_of rq out\<rparr>)"
begin

lemma rate_limited:
  "check_write_rate state c w = (Inl err, w1) \<Longrightarrow> handler rq state c claims w = (Inl (g state err), w1)"
  by (simp add: implements write_pipeline_def run_simps)

lemma forbidden:
  "check_write_rate state c w = (Inr (), w1) \<Longrightarrow>
   role_gate state claims (ws_roles (steps rq state c)) = Inl err \<Longrightarrow>
   handler rq state c claims w = (Inl (g state err), w1)"
  by (simp add: implements write_pipeline_def run_simps)

text \<open>A run that passed both gates, and where it stops.\<close>

lemma passed:
  assumes "check_write_rate state c w = (Inr (), w1)"
    and "role_gate state claims (ws_roles (steps rq state c)) = Inr ()"
  shows "handler rq state c claims w =
    (case ws_prepare (steps rq state c) of Inl err \<Rightarrow> (Inl err, w1) | Inr p \<Rightarrow>
     case subject claims of Inl err \<Rightarrow> (Inl (g state err), w1) | Inr owner \<Rightarrow>
     case ws_precondition (steps rq state c) w1 of (Inl err, w2) \<Rightarrow> (Inl err, w2) | (Inr _, w2) \<Rightarrow>
     case ws_perform (steps rq state c) owner p w2 of (Inl err, w3) \<Rightarrow> (Inl err, w3) | (Inr out, w3) \<Rightarrow>
       (ws_respond (steps rq state c) out,
        w3\<lparr>w_events := w_events w3 @ [\<lparr>ev_resource = HERO_EVENT_RESOURCE,
             ev_action = fst (ws_announce (steps rq state c) out),
             ev_ids = snd (ws_announce (steps rq state c) out)\<rparr>],
           w_tracked := w_tracked w3 @ tracked_of rq out\<rparr>))"
  using assms
  by (simp add: implements write_pipeline_def run_simps track_only split: sum.splits prod.splits)

text \<open>
  The possible runs: refused before the write, the write itself failed, or the write succeeded
  and was announced once.
\<close>

lemma runs:
  assumes keep: "reads_keep (as_crud state)" and run: "handler rq state c claims w = (res, w')"
  obtains
    (refused) err where "res = Inl err" "limiter_only w w'" "w' = snd (check_write_rate state c w)"
  | (failed) err owner p w1 where "res = Inl err" "limiter_only w w1" "subject claims = Inr owner"
      "ws_prepare (steps rq state c) = Inr p"
      "role_gate state claims (ws_roles (steps rq state c)) = Inr ()"
      "check_write_rate state c w = (Inr (), w1)"
      "ws_precondition (steps rq state c) w1 = (Inr (), w1)"
      "ws_perform (steps rq state c) owner p w1 = (Inl err, w')" "w' = w1\<lparr>w_repo := w_repo w'\<rparr>"
  | (wrote) owner p out w1 w2 where "limiter_only w w1" "subject claims = Inr owner"
      "ws_prepare (steps rq state c) = Inr p"
      "role_gate state claims (ws_roles (steps rq state c)) = Inr ()"
      "check_write_rate state c w = (Inr (), w1)"
      "ws_precondition (steps rq state c) w1 = (Inr (), w1)"
      "ws_perform (steps rq state c) owner p w1 = (Inr out, w2)" "w2 = w1\<lparr>w_repo := w_repo w2\<rparr>"
      "res = ws_respond (steps rq state c) out"
      "w' = w2\<lparr>w_events := w_events w2 @ [\<lparr>ev_resource = HERO_EVENT_RESOURCE,
              ev_action = fst (ws_announce (steps rq state c) out),
              ev_ids = snd (ws_announce (steps rq state c) out)\<rparr>],
            w_tracked := w_tracked w2 @ tracked_of rq out\<rparr>"
proof -
  obtain cr w1 where cw: "check_write_rate state c w = (cr, w1)" by force
  have lim: "limiter_only w w1"
    using cw by (auto simp: check_write_rate_def run_simps)
  show thesis
  proof (cases cr)
    case (Inl err)
    then show thesis using refused rate_limited [of state c w err w1 rq claims] cw lim run by simp
  next
    case (Inr u)
    then have ok1: "check_write_rate state c w = (Inr (), w1)" using cw by simp
    show thesis
    proof (cases "role_gate state claims (ws_roles (steps rq state c))")
      case (Inl err)
      then show thesis using refused forbidden [OF ok1 Inl] ok1 lim run by simp
    next
      case (Inr u)
      then have ok2: "role_gate state claims (ws_roles (steps rq state c)) = Inr ()" by simp
      note split = passed [OF ok1 ok2, unfolded run]
      show thesis
      proof (cases "ws_prepare (steps rq state c)")
        case (Inl err)
        then show thesis using refused split ok1 lim by simp
      next
        case p: (Inr p)
        show thesis
        proof (cases "subject claims")
          case (Inl err)
          then show thesis using refused split ok1 p lim by simp
        next
          case owner: (Inr owner)
          obtain pr w2 where pre: "ws_precondition (steps rq state c) w1 = (pr, w2)" by force
          then have [simp]: "w2 = w1" by (rule precondition_keeps [OF keep])
          show thesis
          proof (cases pr)
            case (Inl err)
            then show thesis using refused split ok1 p owner pre lim by simp
          next
            case (Inr u)
            then have ok3: "ws_precondition (steps rq state c) w1 = (Inr (), w1)" using pre by simp
            obtain ores w3 where op: "ws_perform (steps rq state c) owner p w1 = (ores, w3)" by force
            note repo = perform_repo [OF op]
            show thesis
            proof (cases ores)
              case (Inl err)
              then show thesis
                using failed [of err w1 owner p] split p owner ok1 ok2 ok3 op repo lim by simp
            next
              case (Inr out)
              then show thesis
                using wrote [of w1 owner p out w3] split p owner ok1 ok2 ok3 op repo lim by simp
            qed
          qed
        qed
      qed
    qed
  qed
qed

text \<open>Whatever happens, the caller is charged exactly one hit.\<close>

lemma charged:
  assumes "reads_keep (as_crud state)" "handler rq state c claims w = (res, w')"
  shows "w_limiter w' = w_limiter (snd (check_write_rate state c w))"
  using assms
proof (cases rule: runs)
  case (refused err)
  then show ?thesis by simp
next
  case (failed err owner p w1)
  have "w_limiter w' = w_limiter w1" by (subst failed(9)) simp
  then show ?thesis using failed(6) by simp
next
  case (wrote owner p out w1 w2)
  have "w_limiter w2 = w_limiter w1" by (subst wrote(8)) simp
  then show ?thesis using wrote(5,10) by simp
qed

end

section \<open>The writes satisfy it\<close>

datatype ('p, 'u) write_body = Post 'p | Patch 'u | Remove

definition tracked_by :: "codec \<Rightarrow> written \<Rightarrow> tracked list" where
  "tracked_by cd out =
     (if cd_tracks cd then (case out of
        Created hero \<Rightarrow> [\<lparr>tr_name = ''hero.created'',
          tr_props = [(''powers_count'', (let n = (case h_powers hero of None \<Rightarrow> 0 | Some ps \<Rightarrow> length ps)
                                          in int (if n < 2 ^ 64 then n else 0)))],
          tr_url = HERO_URL\<rparr>]
      | Deleted DeletedOne \<Rightarrow> [\<lparr>tr_name = ''hero.deleted'', tr_props = [], tr_url = HERO_URL\<rparr>]
      | _ \<Rightarrow> [])
      else [])"

lemma tracking_run: "tracking cd out w = (Inr (), w\<lparr>w_tracked := w_tracked w @ tracked_by cd out\<rparr>)"
  by (auto simp: tracking_def tracked_by_def hero_created_def hero_deleted_def run_simps Let_def
      split: written.splits delete_outcome.splits option.splits)

lemma perform_world: "perform state c owner cmd w = (res, w') \<Longrightarrow> w' = w\<lparr>w_repo := w_repo w'\<rparr>"
  by (auto simp: perform_def run_simps Let_def split: write_cmd.splits sum.splits)

lemma write_steps_laws:
  "ws_perform (create_steps cd state c body1) = perform state c"
  "ws_perform (update_steps cd state c body2) = perform state c"
  "ws_perform (delete_steps cd state c) = perform state c"
  "ws_track (create_steps cd state c body1) = tracking cd"
  "ws_track (update_steps cd state c body2) = tracking cd"
  "ws_track (delete_steps cd state c) = tracking cd"
  "ws_announce (create_steps cd state c body1) = announcement c"
  "ws_announce (update_steps cd state c body2) = announcement c"
  "ws_announce (delete_steps cd state c) = announcement c"
  "ws_respond (create_steps cd state c body1) = reply cd (as_crud state)"
  "ws_respond (update_steps cd state c body2) = reply cd (as_crud state)"
  "ws_respond (delete_steps cd state c) = reply cd (as_crud state)"
  "ws_precondition (create_steps cd state c body1) = ok ()"
  "ws_precondition (update_steps cd state c body2) = if_match_of state c"
  "ws_precondition (delete_steps cd state c) = if_match_of state c"
  "ws_roles (create_steps cd state c body1) = HERO_WRITE_ROLES"
  "ws_roles (update_steps cd state c body2) = HERO_WRITE_ROLES"
  "ws_roles (delete_steps cd state c) = HERO_DELETE_ROLES"
  by (simp_all add: create_steps_def update_steps_def delete_steps_def hero_write_def)

lemma write_steps_keep:
  assumes "reads_keep (as_crud state)"
  shows "ws_precondition (create_steps cd state c body1) w = (res, w') \<Longrightarrow> w' = w"
    and "ws_precondition (update_steps cd state c body2) w = (res, w') \<Longrightarrow> w' = w"
    and "ws_precondition (delete_steps cd state c) w = (res, w') \<Longrightarrow> w' = w"
  using enforce_if_match_world [OF assms]
  by (simp_all add: write_steps_laws if_match_of_def ok_def) (metis snd_conv)+

end
