(* ===== verification/Heroes_Json.thy ===== *)
theory Heroes_Json
  imports Hero_Endpoint
begin

text \<open>
  \<open>src/hero/controllers/heroes.rs\<close>, the CRUD handlers of \<open>/crud/v1/heroes/v2/json\<close>. Extraction
  (claims, query, body) is axum's and the \<open>Oidc\<close> extractor's: a handler starts from what they
  yield. \<open>?\<close> is \<open>and_then\<close>, so a step that fails ends the handler with its error and the state
  reached so far.
\<close>

section \<open>Handlers\<close>

definition hero_read_json :: "hero \<Rightarrow> json" where
  "hero_read_json hero = read_json (read_from_model hero)"

definition list_or_get_v2 ::
  "('r, 'l, 'sc) app_state \<Rightarrow> call \<Rightarrow> claims \<Rightarrow> ('r, 'l, response) handler" where
  "list_or_get_v2 state c claims =
     (let crud = as_crud state; query = c_query c; raw_params = c_params c in
      and_then (lift (require_any_role claims (oidc_client_id (as_settings state)) HERO_READ_ROLES)) (\<lambda>_.
      and_then (lift (map_err UnprocessableEntity (ca_parse_archived_scope crud raw_params))) (\<lambda>archived.
      and_then (lift (map_err UnprocessableEntity (ca_parse_filters crud HERO_FIELD_SPECS raw_params)))
        (\<lambda>filters.
      and_then (lift (map_err UnprocessableEntity (ca_parse_sort crud HERO_FIELD_SPECS raw_params)))
        (\<lambda>sort.
      let skip = (case hq_skip query of None \<Rightarrow> 0 | Some n \<Rightarrow> n);
          limit = (case hq_limit query of None \<Rightarrow> ca_default_limit crud | Some n \<Rightarrow> n) in
      and_then (on_repo from_crud_error
        (ca_resolve_list_or_get crud (hq_id query) skip limit archived filters sort)) (\<lambda>result.
      let etag = read_etag crud result in
      case ca_not_modified crud (c_headers c) etag of
        Some unchanged \<Rightarrow> ok unchanged
      | None \<Rightarrow>
          (let body = (case result of
               One hero \<Rightarrow> hero_read_json hero
             | Many heroes \<Rightarrow> JArr (map (\<lambda>hero. read_json (read_from_model hero)) heroes))
           in ok (with_headers (ca_revalidation_headers crud etag) (json_response 200 body)))))))))"

definition create_v2 ::
  "('r, 'l, 'sc) app_state \<Rightarrow> call \<Rightarrow> claims \<Rightarrow> hero_create \<Rightarrow> ('r, 'l, response) handler" where
  "create_v2 state c claims payload =
     (let crud = as_crud state in
      and_then (check_write_rate state c) (\<lambda>_.
      and_then (lift (require_any_role claims (oidc_client_id (as_settings state)) HERO_WRITE_ROLES)) (\<lambda>_.
      and_then (lift (map_err UnprocessableEntity (validate_create payload))) (\<lambda>_.
      and_then (lift (subject claims)) (\<lambda>owner_id.
      and_then (on_repo (from_repo_error (ca_repo_error_display crud))
                 (ca_create crud (c_clock c) owner_id payload)) (\<lambda>hero.
      and_then (publish HERO_EVENT_RESOURCE Create [h_id hero]) (\<lambda>_.
      and_then (hero_created hero) (\<lambda>_.
      ok (json_response 201 (read_json (read_from_model hero)))))))))))"

definition update_v2 ::
  "('r, 'l, 'sc) app_state \<Rightarrow> call \<Rightarrow> claims \<Rightarrow> hero_update \<Rightarrow> ('r, 'l, response) handler" where
  "update_v2 state c claims payload =
     (let crud = as_crud state; query = c_query c; raw_params = c_params c in
      and_then (check_write_rate state c) (\<lambda>_.
      and_then (lift (require_any_role claims (oidc_client_id (as_settings state)) HERO_WRITE_ROLES)) (\<lambda>_.
      and_then (lift (map_err UnprocessableEntity (validate_update payload))) (\<lambda>_.
      and_then (lift (map_err UnprocessableEntity (ca_parse_filters crud HERO_FIELD_SPECS raw_params)))
        (\<lambda>filters.
      and_then (lift (map_err UnprocessableEntity (ca_reject_only_archived crud raw_params))) (\<lambda>_.
      and_then (lift (subject claims)) (\<lambda>owner_id.
      and_then (enforce_if_match state (c_headers c) (hq_id query) raw_params) (\<lambda>_.
      and_then (on_repo from_crud_error (ca_resolve_update crud (c_clock c) (hq_id query) owner_id
        filters payload (bulk_action_max_matched (as_settings state)))) (\<lambda>outcome.
      case outcome of
        UpdatedOne hero \<Rightarrow>
          and_then (publish HERO_EVENT_RESOURCE Update [h_id hero]) (\<lambda>_.
          ok (with_headers [(ETAG, ca_record_etag crud hero)] (json_response 200 (hero_read_json hero))))
      | UpdatedBulk result \<Rightarrow>
          and_then (publish HERO_EVENT_RESOURCE UpdateMany (br_ids result)) (\<lambda>_.
          ok (json_response 200 (JCrate (CBulk result)))))))))))))"

definition delete_v2 ::
  "('r, 'l, 'sc) app_state \<Rightarrow> call \<Rightarrow> claims \<Rightarrow> ('r, 'l, response) handler" where
  "delete_v2 state c claims =
     (let crud = as_crud state; query = c_query c; raw_params = c_params c in
      and_then (check_write_rate state c) (\<lambda>_.
      and_then (lift (require_any_role claims (oidc_client_id (as_settings state)) HERO_DELETE_ROLES)) (\<lambda>_.
      and_then (lift (map_err UnprocessableEntity (ca_parse_filters crud HERO_FIELD_SPECS raw_params)))
        (\<lambda>filters.
      and_then (lift (map_err UnprocessableEntity (ca_reject_only_archived crud raw_params))) (\<lambda>_.
      and_then (lift (map_err UnprocessableEntity (ca_parse_include_unpublished crud raw_params)))
        (\<lambda>include_unpublished.
      and_then (lift (subject claims)) (\<lambda>owner_id.
      and_then (enforce_if_match state (c_headers c) (hq_id query) raw_params) (\<lambda>_.
      and_then (on_repo from_crud_error (ca_resolve_delete crud (c_clock c) (hq_id query) owner_id
        filters (bulk_action_max_matched (as_settings state)) include_unpublished)) (\<lambda>outcome.
      case outcome of
        DeletedOne \<Rightarrow>
          (let ids = (case hq_id query of None \<Rightarrow> [] | Some i \<Rightarrow> [i]) in
           and_then (publish HERO_EVENT_RESOURCE Delete ids) (\<lambda>_.
           and_then hero_deleted (\<lambda>_.
           ok (status_response 204))))
      | DeletedBulk result \<Rightarrow>
          and_then (publish HERO_EVENT_RESOURCE DeleteMany (br_ids result)) (\<lambda>_.
          ok (json_response 200 (JCrate (CBulk result)))))))))))))"

section \<open>The router implements the endpoint\<close>

definition json_codec :: codec where
  "json_codec =
     \<lparr>cd_one = \<lambda>hero. Inr (json_response 200 (hero_read_json hero)),
      cd_many = \<lambda>heroes. Inr (json_response 200 (JArr (map (\<lambda>hero. read_json (read_from_model hero)) heroes))),
      cd_bulk_updated = \<lambda>result. Inr (json_response 200 (JCrate (CBulk result))),
      cd_bulk_deleted = \<lambda>result. Inr (json_response 200 (JCrate (CBulk result))),
      cd_wrap = \<lambda>r. r, cd_tracks = True\<rparr>"

lemma json_read: "list_or_get_v2 state c claims = endpoint_read json_codec state c claims"
  unfolding list_or_get_v2_def endpoint_read_def json_codec_def role_gate_def Let_def
  by (intro and_then_cong) (simp add: fuse split: option.splits list_or_get.splits)

lemma json_create:
  "create_v2 state c claims payload =
     write_pipeline (\<lambda>e. e) state c claims
       (create_steps json_codec state c (checked_body validate_create (\<lambda>p. p) payload))"
  unfolding create_v2_def step_defs json_codec_def
  by (simp add: fuse hero_read_json_def with_status_def json_response_def)

lemma json_update:
  "update_v2 state c claims payload =
     write_pipeline (\<lambda>e. e) state c claims
       (update_steps json_codec state c (checked_body validate_update (\<lambda>p. p) payload))"
  unfolding update_v2_def step_defs json_codec_def
  by (simp add: fuse, intro and_then_cong) (simp add: fuse split: update_outcome.splits)

lemma json_delete:
  "delete_v2 state c claims =
     write_pipeline (\<lambda>e. e) state c claims (delete_steps json_codec state c)"
  unfolding delete_v2_def step_defs json_codec_def
  by (simp add: fuse, intro and_then_cong) (simp add: fuse split: delete_outcome.splits)

end
