(* ===== verification/Heroes_V1.thy ===== *)
theory Heroes_V1
  imports Hero_Endpoint
begin

text \<open>
  \<open>src/hero/controllers/heroes_v1.rs\<close>, the deprecated handlers of \<open>/crud/v1/heroes/v1/json\<close>: the
  version 2 data under the version 1 views, with the sunset headers on every success.
\<close>

section \<open>Sunset\<close>

definition CURRENT_VERSION_LINK_v1 :: string where
  "CURRENT_VERSION_LINK_v1 = ''/crud/v1/heroes/v2/json''"

text \<open>2027-01-01T00:00:00Z, in nanoseconds since the epoch.\<close>

definition sunset_instant :: int where
  "sunset_instant = 1798761600 * 10 ^ 9"

definition with_sunset_v1 :: "(int \<Rightarrow> string) \<Rightarrow> string \<Rightarrow> response \<Rightarrow> response" where
  "with_sunset_v1 http_date link response =
     into_response_parts http_date \<lparr>sunset_at = sunset_instant, sunset_link = Some link\<rparr> response"

section \<open>Handlers\<close>

definition hero_read_v1_json :: "hero \<Rightarrow> json" where
  "hero_read_v1_json hero = read_v1_json (read_v1_from_model hero)"

definition list_or_get_v1 ::
  "('r, 'l, 'sc) app_state \<Rightarrow> call \<Rightarrow> claims \<Rightarrow> ('r, 'l, response) handler" where
  "list_or_get_v1 state c claims =
     (let crud = as_crud state; query = c_query c; raw_params = c_params c in
      and_then (lift (require_any_role claims (oidc_client_id (as_settings state)) HERO_READ_ROLES)) (\<lambda>_.
      and_then (lift (map_err UnprocessableEntity (ca_parse_archived_scope crud raw_params))) (\<lambda>archived.
      and_then (lift (map_err UnprocessableEntity (ca_parse_filters crud HERO_FIELD_SPECS raw_params)))
        (\<lambda>filters.
      and_then (lift (map_err UnprocessableEntity (ca_parse_sort crud HERO_FIELD_SPECS raw_params)))
        (\<lambda>sort.
      let skip = (case hq_skip query of None \<Rightarrow> 0 | Some n \<Rightarrow> n);
          limit = (case hq_limit query of None \<Rightarrow> ca_default_limit crud | Some n \<Rightarrow> n) in
      and_then (on_repo from_crud_error
        (ca_resolve_list_or_get crud (hq_id query) skip limit archived filters sort)) (\<lambda>result.
      let etag = read_etag crud result in
      case ca_not_modified crud (c_headers c) etag of
        Some unchanged \<Rightarrow> ok (with_sunset_v1 (as_http_date state) CURRENT_VERSION_LINK_v1 unchanged)
      | None \<Rightarrow>
          (let body = (case result of
               One hero \<Rightarrow> hero_read_v1_json hero
             | Many heroes \<Rightarrow> JArr (map (\<lambda>hero. read_v1_json (read_v1_from_model hero)) heroes))
           in ok (with_sunset_v1 (as_http_date state) CURRENT_VERSION_LINK_v1 (with_headers (ca_revalidation_headers crud etag) (json_response 200 body))))))))))"

definition create_v1 ::
  "('r, 'l, 'sc) app_state \<Rightarrow> call \<Rightarrow> claims \<Rightarrow> hero_create_v1 \<Rightarrow> ('r, 'l, response) handler" where
  "create_v1 state c claims payload =
     (let crud = as_crud state in
      and_then (check_write_rate state c) (\<lambda>_.
      and_then (lift (require_any_role claims (oidc_client_id (as_settings state)) HERO_WRITE_ROLES)) (\<lambda>_.
      and_then (lift (map_err UnprocessableEntity (validate_create_v1 payload))) (\<lambda>_.
      and_then (lift (subject claims)) (\<lambda>owner_id.
      and_then (on_repo (from_repo_error (ca_repo_error_display crud))
                 (ca_create crud (c_clock c) owner_id (create_from_v1 payload))) (\<lambda>hero.
      and_then (publish HERO_EVENT_RESOURCE Create [h_id hero]) (\<lambda>_.
      ok (with_sunset_v1 (as_http_date state) CURRENT_VERSION_LINK_v1 (json_response 201 (read_v1_json (read_v1_from_model hero)))))))))))"

definition update_v1 ::
  "('r, 'l, 'sc) app_state \<Rightarrow> call \<Rightarrow> claims \<Rightarrow> hero_update_v1 \<Rightarrow> ('r, 'l, response) handler" where
  "update_v1 state c claims payload =
     (let crud = as_crud state; query = c_query c; raw_params = c_params c in
      and_then (check_write_rate state c) (\<lambda>_.
      and_then (lift (require_any_role claims (oidc_client_id (as_settings state)) HERO_WRITE_ROLES)) (\<lambda>_.
      and_then (lift (map_err UnprocessableEntity (validate_update_v1 payload))) (\<lambda>_.
      and_then (lift (map_err UnprocessableEntity (ca_parse_filters crud HERO_FIELD_SPECS raw_params)))
        (\<lambda>filters.
      and_then (lift (map_err UnprocessableEntity (ca_reject_only_archived crud raw_params))) (\<lambda>_.
      and_then (lift (subject claims)) (\<lambda>owner_id.
      and_then (enforce_if_match state (c_headers c) (hq_id query) raw_params) (\<lambda>_.
      and_then (on_repo from_crud_error (ca_resolve_update crud (c_clock c) (hq_id query) owner_id
        filters (update_from_v1 payload) (bulk_action_max_matched (as_settings state)))) (\<lambda>outcome.
      and_then (case outcome of
        UpdatedOne hero \<Rightarrow>
          and_then (publish HERO_EVENT_RESOURCE Update [h_id hero]) (\<lambda>_.
          ok (with_headers [(ETAG, ca_record_etag crud hero)] (json_response 200 (hero_read_v1_json hero))))
      | UpdatedBulk result \<Rightarrow>
          and_then (publish HERO_EVENT_RESOURCE UpdateMany (br_ids result)) (\<lambda>_.
          ok (json_response 200 (JCrate (CBulk result))))) (\<lambda>body.
      ok (with_sunset_v1 (as_http_date state) CURRENT_VERSION_LINK_v1 body)))))))))))"

definition delete_v1 ::
  "('r, 'l, 'sc) app_state \<Rightarrow> call \<Rightarrow> claims \<Rightarrow> ('r, 'l, response) handler" where
  "delete_v1 state c claims =
     (let crud = as_crud state; query = c_query c; raw_params = c_params c in
      and_then (check_write_rate state c) (\<lambda>_.
      and_then (lift (require_any_role claims (oidc_client_id (as_settings state)) HERO_DELETE_ROLES)) (\<lambda>_.
      and_then (lift (map_err UnprocessableEntity (ca_parse_filters crud HERO_FIELD_SPECS raw_params)))
        (\<lambda>filters.
      and_then (lift (map_err UnprocessableEntity (ca_reject_only_archived crud raw_params))) (\<lambda>_.
      and_then (lift (map_err UnprocessableEntity (ca_parse_include_unpublished crud raw_params)))
        (\<lambda>include_unpublished.
      and_then (lift (subject claims)) (\<lambda>owner_id.
      and_then (enforce_if_match state (c_headers c) (hq_id query) raw_params) (\<lambda>_.
      and_then (on_repo from_crud_error (ca_resolve_delete crud (c_clock c) (hq_id query) owner_id
        filters (bulk_action_max_matched (as_settings state)) include_unpublished)) (\<lambda>outcome.
      and_then (case outcome of
        DeletedOne \<Rightarrow>
          (let ids = (case hq_id query of None \<Rightarrow> [] | Some i \<Rightarrow> [i]) in
           and_then (publish HERO_EVENT_RESOURCE Delete ids) (\<lambda>_.
           ok (status_response 204)))
      | DeletedBulk result \<Rightarrow>
          and_then (publish HERO_EVENT_RESOURCE DeleteMany (br_ids result)) (\<lambda>_.
          ok (json_response 200 (JCrate (CBulk result))))) (\<lambda>body.
      ok (with_sunset_v1 (as_http_date state) CURRENT_VERSION_LINK_v1 body)))))))))))"

section \<open>The router implements the endpoint\<close>

definition v1_codec :: "(int \<Rightarrow> string) \<Rightarrow> codec" where
  "v1_codec http_date =
     \<lparr>cd_one = \<lambda>hero. Inr (json_response 200 (hero_read_v1_json hero)),
      cd_many = \<lambda>heroes. Inr (json_response 200
        (JArr (map (\<lambda>hero. read_v1_json (read_v1_from_model hero)) heroes))),
      cd_bulk_updated = \<lambda>result. Inr (json_response 200 (JCrate (CBulk result))),
      cd_bulk_deleted = \<lambda>result. Inr (json_response 200 (JCrate (CBulk result))),
      cd_wrap = with_sunset_v1 http_date CURRENT_VERSION_LINK_v1, cd_tracks = False\<rparr>"

lemma v1_read: "list_or_get_v1 state c claims = endpoint_read (v1_codec (as_http_date state)) state c claims"
  unfolding list_or_get_v1_def endpoint_read_def v1_codec_def role_gate_def Let_def
  by (intro and_then_cong) (simp add: fuse split: option.splits list_or_get.splits)

lemma v1_create:
  "create_v1 state c claims body =
     write_pipeline (\<lambda>e. e) state c claims
       (create_steps (v1_codec (as_http_date state)) state c (checked_body validate_create_v1 create_from_v1 body))"
  unfolding create_v1_def step_defs v1_codec_def
  by (simp add: fuse hero_read_v1_json_def with_status_def json_response_def)

lemma v1_update:
  "update_v1 state c claims body =
     write_pipeline (\<lambda>e. e) state c claims
       (update_steps (v1_codec (as_http_date state)) state c (checked_body validate_update_v1 update_from_v1 body))"
  unfolding update_v1_def step_defs v1_codec_def
  by (simp add: fuse, intro and_then_cong) (simp add: fuse split: update_outcome.splits)

lemma v1_delete:
  "delete_v1 state c claims =
     write_pipeline (\<lambda>e. e) state c claims (delete_steps (v1_codec (as_http_date state)) state c)"
  unfolding delete_v1_def step_defs v1_codec_def
  by (simp add: fuse, intro and_then_cong) (simp add: fuse split: delete_outcome.splits)

end
