(* ===== verification/Heroes_Xml.thy ===== *)
theory Heroes_Xml
  imports Hero_Endpoint
begin

text \<open>
  \<open>src/hero/controllers/heroes_xml.rs\<close>, the handlers of \<open>/crud/v1/heroes/v2/xml\<close>: the body is parsed
  after the role check, and the response is encoded after the write and its event.
\<close>

section \<open>UTF-8\<close>

text \<open>\<open>std::str::from_utf8\<close>: a \<open>str\<close> is its bytes, checked to be well-formed UTF-8.\<close>

definition between :: "nat \<Rightarrow> nat \<Rightarrow> 8 word \<Rightarrow> bool" where
  "between lo hi b = (lo \<le> unat b \<and> unat b \<le> hi)"

definition continuation :: "8 word \<Rightarrow> bool" where
  "continuation = between 0x80 0xBF"

fun valid_utf8 :: "bytes \<Rightarrow> bool" where
  "valid_utf8 [] = True"
| "valid_utf8 (a # bs) =
     (if between 0 0x7F a then valid_utf8 bs
      else if between 0xC2 0xDF a then
        (case bs of b # r \<Rightarrow> continuation b \<and> valid_utf8 r | [] \<Rightarrow> False)
      else if between 0xE0 0xEF a then
        (case bs of b # c # r \<Rightarrow>
           (if a = 0xE0 then between 0xA0 0xBF b else if a = 0xED then between 0x80 0x9F b
            else continuation b) \<and> continuation c \<and> valid_utf8 r
         | _ \<Rightarrow> False)
      else if between 0xF0 0xF4 a then
        (case bs of b # c # d # r \<Rightarrow>
           (if a = 0xF0 then between 0x90 0xBF b else if a = 0xF4 then between 0x80 0x8F b
            else continuation b) \<and> continuation c \<and> continuation d \<and> valid_utf8 r
         | _ \<Rightarrow> False)
      else False)"

definition from_utf8 :: "bytes \<Rightarrow> bytes option" where
  "from_utf8 bs = (if valid_utf8 bs then Some bs else None)"

section \<open>Bodies\<close>

definition hero_list_xml :: "hero list \<Rightarrow> json" where
  "hero_list_xml heroes = JObj [(''hero'', JArr (map read_xml_from_model heroes))]"

definition xml_response :: "xml_api \<Rightarrow> string \<Rightarrow> json \<Rightarrow> app_error + response" where
  "xml_response xml root payload =
     and_then_r (map_err (\<lambda>err. Internal (''xml encode: '' @ err)) (xa_to_string_with_root xml root payload))
       (\<lambda>body. Inr (with_headers [(content_type, ''application/xml'')]
                      (text_response 200 ''text/plain; charset=utf-8'' body)))"

definition parse_xml_body :: "(bytes \<Rightarrow> string + 'a) \<Rightarrow> bytes \<Rightarrow> app_error + 'a" where
  "parse_xml_body from_str body =
     and_then_r (ok_or (UnprocessableEntity [FieldError ''body'' ''request body is not valid UTF-8''])
                  (from_utf8 body))
       (\<lambda>text. map_err (\<lambda>err. UnprocessableEntity [FieldError ''body'' (''invalid XML: '' @ err)])
                 (from_str text))"

section \<open>Handlers\<close>

definition list_or_get_v2_xml ::
  "('r, 'l, 'sc) app_state \<Rightarrow> call \<Rightarrow> claims \<Rightarrow> ('r, 'l, response) handler" where
  "list_or_get_v2_xml state c claims =
     (let crud = as_crud state; query = c_query c; raw_params = c_params c in
      and_then (lift (require_any_role claims (oidc_client_id (as_settings state)) HERO_READ_ROLES)) (\<lambda>_.
      and_then (lift (map_err UnprocessableEntity (ca_parse_archived_scope crud raw_params))) (\<lambda>archived.
      and_then (lift (map_err UnprocessableEntity (ca_parse_filters crud HERO_FIELD_SPECS raw_params)))
        (\<lambda>filters.
      and_then (lift (map_err UnprocessableEntity (ca_parse_sort crud HERO_FIELD_SPECS raw_params)))
        (\<lambda>sort.
      let skip = (case hq_skip query of None \<Rightarrow> 0 | Some n \<Rightarrow> n);
          limit = (case hq_limit query of None \<Rightarrow> ca_default_limit crud | Some n \<Rightarrow> n) in
      and_then (on_repo from_crud_error
        (ca_resolve_list_or_get crud (hq_id query) skip limit archived filters sort)) (\<lambda>result.
      let etag = read_etag crud result in
      case ca_not_modified crud (c_headers c) etag of
        Some unchanged \<Rightarrow> ok unchanged
      | None \<Rightarrow>
          and_then (lift (case result of
               One hero \<Rightarrow> xml_response (as_xml state) ''hero'' (read_xml_from_model hero)
             | Many heroes \<Rightarrow> xml_response (as_xml state) ''heroes'' (hero_list_xml heroes)))
            (\<lambda>response.
          ok (with_headers (ca_revalidation_headers crud etag) response))))))))"

definition create_v2_xml ::
  "('r, 'l, 'sc) app_state \<Rightarrow> call \<Rightarrow> claims \<Rightarrow> bytes \<Rightarrow> ('r, 'l, response) handler" where
  "create_v2_xml state c claims body =
     (let crud = as_crud state in
      and_then (check_write_rate state c) (\<lambda>_.
      and_then (lift (require_any_role claims (oidc_client_id (as_settings state)) HERO_WRITE_ROLES)) (\<lambda>_.
      and_then (lift (parse_xml_body (xa_hero_create (as_xml state)) body)) (\<lambda>payload.
      and_then (lift (map_err UnprocessableEntity (validate_create payload))) (\<lambda>_.
      and_then (lift (subject claims)) (\<lambda>owner_id.
      and_then (on_repo (from_repo_error (ca_repo_error_display crud))
                 (ca_create crud (c_clock c) owner_id payload)) (\<lambda>hero.
      and_then (publish HERO_EVENT_RESOURCE Create [h_id hero]) (\<lambda>_.
      and_then (lift (xml_response (as_xml state) ''hero'' (read_xml_from_model hero))) (\<lambda>response.
      ok (with_status 201 response))))))))))"

definition update_v2_xml ::
  "('r, 'l, 'sc) app_state \<Rightarrow> call \<Rightarrow> claims \<Rightarrow> bytes \<Rightarrow> ('r, 'l, response) handler" where
  "update_v2_xml state c claims body =
     (let crud = as_crud state; query = c_query c; raw_params = c_params c in
      and_then (check_write_rate state c) (\<lambda>_.
      and_then (lift (require_any_role claims (oidc_client_id (as_settings state)) HERO_WRITE_ROLES)) (\<lambda>_.
      and_then (lift (parse_xml_body (xa_hero_update (as_xml state)) body)) (\<lambda>payload.
      and_then (lift (map_err UnprocessableEntity (validate_update payload))) (\<lambda>_.
      and_then (lift (map_err UnprocessableEntity (ca_parse_filters crud HERO_FIELD_SPECS raw_params)))
        (\<lambda>filters.
      and_then (lift (map_err UnprocessableEntity (ca_reject_only_archived crud raw_params))) (\<lambda>_.
      and_then (lift (subject claims)) (\<lambda>owner_id.
      and_then (enforce_if_match state (c_headers c) (hq_id query) raw_params) (\<lambda>_.
      and_then (on_repo from_crud_error (ca_resolve_update crud (c_clock c) (hq_id query) owner_id
        filters payload (bulk_action_max_matched (as_settings state)))) (\<lambda>outcome.
      case outcome of
        UpdatedOne hero \<Rightarrow>
          and_then (publish HERO_EVENT_RESOURCE Update [h_id hero]) (\<lambda>_.
          let etag = ca_record_etag crud hero in
          and_then (lift (xml_response (as_xml state) ''hero'' (read_xml_from_model hero))) (\<lambda>response.
          ok (with_headers [(ETAG, etag)] response)))
      | UpdatedBulk result \<Rightarrow>
          and_then (publish HERO_EVENT_RESOURCE UpdateMany (br_ids result)) (\<lambda>_.
          lift (xml_response (as_xml state) ''bulk_update_result'' (JCrate (CBulk result))))))))))))))"

definition delete_v2_xml ::
  "('r, 'l, 'sc) app_state \<Rightarrow> call \<Rightarrow> claims \<Rightarrow> ('r, 'l, response) handler" where
  "delete_v2_xml state c claims =
     (let crud = as_crud state; query = c_query c; raw_params = c_params c in
      and_then (check_write_rate state c) (\<lambda>_.
      and_then (lift (require_any_role claims (oidc_client_id (as_settings state)) HERO_DELETE_ROLES)) (\<lambda>_.
      and_then (lift (map_err UnprocessableEntity (ca_parse_filters crud HERO_FIELD_SPECS raw_params)))
        (\<lambda>filters.
      and_then (lift (map_err UnprocessableEntity (ca_reject_only_archived crud raw_params))) (\<lambda>_.
      and_then (lift (map_err UnprocessableEntity (ca_parse_include_unpublished crud raw_params)))
        (\<lambda>include_unpublished.
      and_then (lift (subject claims)) (\<lambda>owner_id.
      and_then (enforce_if_match state (c_headers c) (hq_id query) raw_params) (\<lambda>_.
      and_then (on_repo from_crud_error (ca_resolve_delete crud (c_clock c) (hq_id query) owner_id
        filters (bulk_action_max_matched (as_settings state)) include_unpublished)) (\<lambda>outcome.
      case outcome of
        DeletedOne \<Rightarrow>
          (let ids = (case hq_id query of None \<Rightarrow> [] | Some i \<Rightarrow> [i]) in
           and_then (publish HERO_EVENT_RESOURCE Delete ids) (\<lambda>_.
           ok (status_response 204)))
      | DeletedBulk result \<Rightarrow>
          and_then (publish HERO_EVENT_RESOURCE DeleteMany (br_ids result)) (\<lambda>_.
          lift (xml_response (as_xml state) ''bulk_delete_result'' (JCrate (CBulk result)))))))))))))"

section \<open>The router implements the endpoint\<close>

definition xml_codec :: "xml_api \<Rightarrow> codec" where
  "xml_codec xml =
     \<lparr>cd_one = \<lambda>hero. xml_response xml ''hero'' (read_xml_from_model hero),
      cd_many = \<lambda>heroes. xml_response xml ''heroes'' (hero_list_xml heroes),
      cd_bulk_updated = \<lambda>result. xml_response xml ''bulk_update_result'' (JCrate (CBulk result)),
      cd_bulk_deleted = \<lambda>result. xml_response xml ''bulk_delete_result'' (JCrate (CBulk result)),
      cd_wrap = \<lambda>r. r, cd_tracks = False\<rparr>"

definition xml_body :: "(bytes \<Rightarrow> string + 'p) \<Rightarrow> ('p \<Rightarrow> unit parsed) \<Rightarrow> ('p \<Rightarrow> 'q) \<Rightarrow> bytes \<Rightarrow>
    app_error + 'q" where
  "xml_body from_str validate convert body =
     and_then_r (parse_xml_body from_str body) (checked_body validate convert)"

lemma xml_read: "list_or_get_v2_xml state c claims = endpoint_read (xml_codec (as_xml state)) state c claims"
  unfolding list_or_get_v2_xml_def endpoint_read_def xml_codec_def role_gate_def Let_def
  by (intro and_then_cong) (simp add: fuse split: option.splits list_or_get.splits)

lemma xml_create:
  "create_v2_xml state c claims body =
     write_pipeline (\<lambda>e. e) state c claims
       (create_steps (xml_codec (as_xml state)) state c (xml_body (xa_hero_create (as_xml state)) validate_create (\<lambda>p. p) body))"
  unfolding create_v2_xml_def step_defs xml_codec_def xml_body_def
  by (simp add: fuse xml_body_def)

lemma xml_update:
  "update_v2_xml state c claims body =
     write_pipeline (\<lambda>e. e) state c claims
       (update_steps (xml_codec (as_xml state)) state c (xml_body (xa_hero_update (as_xml state)) validate_update (\<lambda>p. p) body))"
  unfolding update_v2_xml_def step_defs xml_codec_def xml_body_def
  by (simp add: fuse, intro and_then_cong) (simp add: fuse split: update_outcome.splits)

lemma xml_delete:
  "delete_v2_xml state c claims =
     write_pipeline (\<lambda>e. e) state c claims (delete_steps (xml_codec (as_xml state)) state c)"
  unfolding delete_v2_xml_def step_defs xml_codec_def xml_body_def
  by (simp add: fuse, intro and_then_cong) (simp add: fuse split: delete_outcome.splits)

end
