(* ===== verification/Heroes_V1_Xml.thy ===== *)
theory Heroes_V1_Xml
  imports Heroes_V1 Heroes_Xml
begin

text \<open>
  \<open>src/hero/controllers/heroes_v1_xml.rs\<close>, the deprecated handlers of \<open>/crud/v1/heroes/v1/xml\<close>. The
  source repeats \<open>parse_xml_body\<close> word for word; the model uses the one of \<open>Heroes_Xml\<close>.
\<close>

section \<open>Bodies\<close>

definition CURRENT_VERSION_LINK_v1_xml :: string where
  "CURRENT_VERSION_LINK_v1_xml = ''/crud/v1/heroes/v2/xml''"

definition hero_list_xml_v1 :: "hero list \<Rightarrow> json" where
  "hero_list_xml_v1 heroes = JObj [(''hero'', JArr (map read_v1_xml_from_model heroes))]"

definition xml_response_v1 :: "xml_api \<Rightarrow> string \<Rightarrow> json \<Rightarrow> app_error + response" where
  "xml_response_v1 xml root payload =
     and_then_r (map_err (\<lambda>err. Internal (''xml encode: '' @ err)) (xa_to_string_with_root xml root payload))
       (\<lambda>body. Inr (with_headers [(content_type, ''application/xml'')]
                      (text_response 200 ''text/plain; charset=utf-8'' body)))"

definition with_sunset_v1_xml :: "(int \<Rightarrow> string) \<Rightarrow> response \<Rightarrow> response" where
  "with_sunset_v1_xml http_date response =
     into_response_parts http_date
       \<lparr>sunset_at = sunset_instant, sunset_link = Some CURRENT_VERSION_LINK_v1_xml\<rparr> response"

section \<open>Handlers\<close>

definition list_or_get_v1_xml ::
  "('r, 'l, 'sc) app_state \<Rightarrow> call \<Rightarrow> claims \<Rightarrow> ('r, 'l, response) handler" where
  "list_or_get_v1_xml state c claims =
     (let crud = as_crud state; query = c_query c; raw_params = c_params c in
      and_then (lift (require_any_role claims (oidc_client_id (as_settings state)) HERO_READ_ROLES)) (\<lambda>_.
      and_then (lift (map_err UnprocessableEntity (ca_parse_archived_scope crud raw_params))) (\<lambda>archived.
      and_then (lift (map_err UnprocessableEntity (ca_parse_filters crud HERO_FIELD_SPECS raw_params)))
        (\<lambda>filters.
      and_then (lift (map_err UnprocessableEntity (ca_parse_sort crud HERO_FIELD_SPECS raw_params)))
        (\<lambda>sort.
      let skip = (case hq_skip query of None \<Rightarrow> 0 | Some n \<Rightarrow> n);
          limit = (case hq_limit query of None \<Rightarrow> ca_default_limit crud | Some n \<Rightarrow> n) in
      and_then (on_repo from_crud_error
        (ca_resolve_list_or_get crud (hq_id query) skip limit archived filters sort)) (\<lambda>result.
      let etag = read_etag crud result in
      case ca_not_modified crud (c_headers c) etag of
        Some unchanged \<Rightarrow> ok (with_sunset_v1_xml (as_http_date state) unchanged)
      | None \<Rightarrow>
          and_then (lift (case result of
               One hero \<Rightarrow> xml_response_v1 (as_xml state) ''hero'' (read_v1_xml_from_model hero)
             | Many heroes \<Rightarrow> xml_response_v1 (as_xml state) ''heroes'' (hero_list_xml_v1 heroes)))
            (\<lambda>response.
          ok (with_sunset_v1_xml (as_http_date state) (with_headers (ca_revalidation_headers crud etag) response)))))))))"

definition create_v1_xml ::
  "('r, 'l, 'sc) app_state \<Rightarrow> call \<Rightarrow> claims \<Rightarrow> bytes \<Rightarrow> ('r, 'l, response) handler" where
  "create_v1_xml state c claims body =
     (let crud = as_crud state in
      and_then (check_write_rate state c) (\<lambda>_.
      and_then (lift (require_any_role claims (oidc_client_id (as_settings state)) HERO_WRITE_ROLES)) (\<lambda>_.
      and_then (lift (parse_xml_body (xa_hero_create_v1 (as_xml state)) body)) (\<lambda>payload.
      and_then (lift (map_err UnprocessableEntity (validate_create_v1 payload))) (\<lambda>_.
      and_then (lift (subject claims)) (\<lambda>owner_id.
      and_then (on_repo (from_repo_error (ca_repo_error_display crud))
                 (ca_create crud (c_clock c) owner_id (create_from_v1 payload))) (\<lambda>hero.
      and_then (publish HERO_EVENT_RESOURCE Create [h_id hero]) (\<lambda>_.
      and_then (lift (xml_response_v1 (as_xml state) ''hero'' (read_v1_xml_from_model hero))) (\<lambda>response.
      ok (with_sunset_v1_xml (as_http_date state) (with_status 201 response)))))))))))"

definition update_v1_xml ::
  "('r, 'l, 'sc) app_state \<Rightarrow> call \<Rightarrow> claims \<Rightarrow> bytes \<Rightarrow> ('r, 'l, response) handler" where
  "update_v1_xml state c claims body =
     (let crud = as_crud state; query = c_query c; raw_params = c_params c in
      and_then (check_write_rate state c) (\<lambda>_.
      and_then (lift (require_any_role claims (oidc_client_id (as_settings state)) HERO_WRITE_ROLES)) (\<lambda>_.
      and_then (lift (parse_xml_body (xa_hero_update_v1 (as_xml state)) body)) (\<lambda>payload.
      and_then (lift (map_err UnprocessableEntity (validate_update_v1 payload))) (\<lambda>_.
      and_then (lift (map_err UnprocessableEntity (ca_parse_filters crud HERO_FIELD_SPECS raw_params)))
        (\<lambda>filters.
      and_then (lift (map_err UnprocessableEntity (ca_reject_only_archived crud raw_params))) (\<lambda>_.
      and_then (lift (subject claims)) (\<lambda>owner_id.
      and_then (enforce_if_match state (c_headers c) (hq_id query) raw_params) (\<lambda>_.
      and_then (on_repo from_crud_error (ca_resolve_update crud (c_clock c) (hq_id query) owner_id
        filters (update_from_v1 payload) (bulk_action_max_matched (as_settings state)))) (\<lambda>outcome.
      and_then (case outcome of
        UpdatedOne hero \<Rightarrow>
          and_then (publish HERO_EVENT_RESOURCE Update [h_id hero]) (\<lambda>_.
          let etag = ca_record_etag crud hero in
          and_then (lift (xml_response_v1 (as_xml state) ''hero'' (read_v1_xml_from_model hero))) (\<lambda>response.
          ok (with_headers [(ETAG, etag)] response)))
      | UpdatedBulk result \<Rightarrow>
          and_then (publish HERO_EVENT_RESOURCE UpdateMany (br_ids result)) (\<lambda>_.
          lift (xml_response_v1 (as_xml state) ''bulk_update_result'' (JCrate (CBulk result))))) (\<lambda>response.
      ok (with_sunset_v1_xml (as_http_date state) response))))))))))))"

definition delete_v1_xml ::
  "('r, 'l, 'sc) app_state \<Rightarrow> call \<Rightarrow> claims \<Rightarrow> ('r, 'l, response) handler" where
  "delete_v1_xml state c claims =
     (let crud = as_crud state; query = c_query c; raw_params = c_params c in
      and_then (check_write_rate state c) (\<lambda>_.
      and_then (lift (require_any_role claims (oidc_client_id (as_settings state)) HERO_DELETE_ROLES)) (\<lambda>_.
      and_then (lift (map_err UnprocessableEntity (ca_parse_filters crud HERO_FIELD_SPECS raw_params)))
        (\<lambda>filters.
      and_then (lift (map_err UnprocessableEntity (ca_reject_only_archived crud raw_params))) (\<lambda>_.
      and_then (lift (map_err UnprocessableEntity (ca_parse_include_unpublished crud raw_params)))
        (\<lambda>include_unpublished.
      and_then (lift (subject claims)) (\<lambda>owner_id.
      and_then (enforce_if_match state (c_headers c) (hq_id query) raw_params) (\<lambda>_.
      and_then (on_repo from_crud_error (ca_resolve_delete crud (c_clock c) (hq_id query) owner_id
        filters (bulk_action_max_matched (as_settings state)) include_unpublished)) (\<lambda>outcome.
      and_then (case outcome of
        DeletedOne \<Rightarrow>
          (let ids = (case hq_id query of None \<Rightarrow> [] | Some i \<Rightarrow> [i]) in
           and_then (publish HERO_EVENT_RESOURCE Delete ids) (\<lambda>_.
           ok (status_response 204)))
      | DeletedBulk result \<Rightarrow>
          and_then (publish HERO_EVENT_RESOURCE DeleteMany (br_ids result)) (\<lambda>_.
          lift (xml_response_v1 (as_xml state) ''bulk_delete_result'' (JCrate (CBulk result))))) (\<lambda>response.
      ok (with_sunset_v1_xml (as_http_date state) response)))))))))))"

section \<open>The router implements the endpoint\<close>

definition v1xml_codec :: "('r, 'l, 'sc) app_state \<Rightarrow> codec" where
  "v1xml_codec state =
     \<lparr>cd_one = \<lambda>hero. xml_response_v1 (as_xml state) ''hero'' (read_v1_xml_from_model hero),
      cd_many = \<lambda>heroes. xml_response_v1 (as_xml state) ''heroes'' (hero_list_xml_v1 heroes),
      cd_bulk_updated = \<lambda>result. xml_response_v1 (as_xml state) ''bulk_update_result'' (JCrate (CBulk result)),
      cd_bulk_deleted = \<lambda>result. xml_response_v1 (as_xml state) ''bulk_delete_result'' (JCrate (CBulk result)),
      cd_wrap = with_sunset_v1_xml (as_http_date state), cd_tracks = False\<rparr>"

lemma v1xml_read: "list_or_get_v1_xml state c claims = endpoint_read (v1xml_codec state) state c claims"
  unfolding list_or_get_v1_xml_def endpoint_read_def v1xml_codec_def role_gate_def Let_def
  by (intro and_then_cong) (simp add: fuse split: option.splits list_or_get.splits)

lemma v1xml_create:
  "create_v1_xml state c claims body =
     write_pipeline (\<lambda>e. e) state c claims
       (create_steps (v1xml_codec state) state c (xml_body (xa_hero_create_v1 (as_xml state)) validate_create_v1 create_from_v1 body))"
  unfolding create_v1_xml_def step_defs v1xml_codec_def xml_body_def
  by (simp add: fuse xml_body_def)

lemma v1xml_update:
  "update_v1_xml state c claims body =
     write_pipeline (\<lambda>e. e) state c claims
       (update_steps (v1xml_codec state) state c (xml_body (xa_hero_update_v1 (as_xml state)) validate_update_v1 update_from_v1 body))"
  unfolding update_v1_xml_def step_defs v1xml_codec_def xml_body_def
  by (simp add: fuse, intro and_then_cong) (simp add: fuse split: update_outcome.splits)

lemma v1xml_delete:
  "delete_v1_xml state c claims =
     write_pipeline (\<lambda>e. e) state c claims (delete_steps (v1xml_codec state) state c)"
  unfolding delete_v1_xml_def step_defs v1xml_codec_def xml_body_def
  by (simp add: fuse, intro and_then_cong) (simp add: fuse split: delete_outcome.splits)

end
