(* ===== verification/Hero_Memory.thy ===== *)
theory Hero_Memory
  imports Hero_Repository
begin

text \<open>
  \<open>src/hero/repositories/hero_memory.rs\<close>: the in-memory repository of mock mode. Its two
  mutexes are one state (each call holds them to its end), a \<open>BTreeMap\<close> is its sorted entry
  list, and \<open>clk n\<close> is what the \<open>n\<close>-th \<open>Utc::now()\<close> of a call returns. It is shown to
  satisfy the repository contract, and its listing to be the page its query asks for.
\<close>

section \<open>Filters\<close>

fun compare_op :: "'a::linorder \<Rightarrow> filter_op \<Rightarrow> 'a \<Rightarrow> bool" where
  "compare_op actual Eq target = (actual = target)"
| "compare_op actual Ne target = (actual \<noteq> target)"
| "compare_op actual Lt target = (actual < target)"
| "compare_op actual Lte target = (actual \<le> target)"
| "compare_op actual Gt target = (target < actual)"
| "compare_op actual Gte target = (target \<le> actual)"
| "compare_op actual In target = False"
| "compare_op actual Contains target = False"
| "compare_op actual Icontains target = False"

definition matches_int :: "int \<Rightarrow> filter_clause \<Rightarrow> bool" where
  "matches_int actual clause =
     (if fc_op clause = In
      then (case fc_value clause of
              FList vs \<Rightarrow> list_ex (\<lambda>v. case v of FInt target \<Rightarrow> target = actual | _ \<Rightarrow> False) vs
            | _ \<Rightarrow> False)
      else (case fc_value clause of
              FInt target \<Rightarrow> compare_op actual (fc_op clause) target
            | _ \<Rightarrow> False))"

definition matches_datetime :: "int \<Rightarrow> filter_clause \<Rightarrow> bool" where
  "matches_datetime actual clause =
     (if fc_op clause = In
      then (case fc_value clause of
              FList vs \<Rightarrow> list_ex (\<lambda>v. case v of FDateTime target \<Rightarrow> target = actual | _ \<Rightarrow> False) vs
            | _ \<Rightarrow> False)
      else (case fc_value clause of
              FDateTime target \<Rightarrow> compare_op actual (fc_op clause) target
            | _ \<Rightarrow> False))"

definition matches_str :: "string \<Rightarrow> filter_clause \<Rightarrow> bool" where
  "matches_str actual clause =
     (case fc_op clause of
        In \<Rightarrow> (case fc_value clause of
                 FList vs \<Rightarrow> list_ex (\<lambda>v. case v of FStr target \<Rightarrow> target = actual | _ \<Rightarrow> False) vs
               | _ \<Rightarrow> False)
      | Contains \<Rightarrow> (case fc_value clause of FStr target \<Rightarrow> str_contains actual target | _ \<Rightarrow> False)
      | Icontains \<Rightarrow> (case fc_value clause of
                        FStr target \<Rightarrow> str_contains (to_lowercase actual) (to_lowercase target)
                      | _ \<Rightarrow> False)
      | Eq \<Rightarrow> (case fc_value clause of FStr target \<Rightarrow> actual = target | _ \<Rightarrow> False)
      | Ne \<Rightarrow> (case fc_value clause of FStr target \<Rightarrow> actual \<noteq> target | _ \<Rightarrow> False)
      | _ \<Rightarrow> False)"

definition is_some_and :: "('a \<Rightarrow> bool) \<Rightarrow> 'a option \<Rightarrow> bool" where
  "is_some_and p v = (case v of Some x \<Rightarrow> p x | None \<Rightarrow> False)"

definition matches_one :: "hero \<Rightarrow> filter_clause \<Rightarrow> bool" where
  "matches_one hero clause =
     (let f = fc_field clause in
      if f = ''id'' then matches_int (h_id hero) clause
      else if f = ''power_level'' then is_some_and (\<lambda>v. matches_int v clause) (h_power_level hero)
      else if f = ''name'' then is_some_and (\<lambda>v. matches_str v clause) (h_name hero)
      else if f = ''owner_id'' then matches_str (h_owner_id hero) clause
      else if f = ''created_at'' then matches_datetime (h_created_at hero) clause
      else if f = ''updated_at'' then matches_datetime (h_updated_at hero) clause
      else if f = ''archived_at'' then is_some_and (\<lambda>v. matches_datetime v clause) (h_archived_at hero)
      else False)"

definition matches_all :: "hero \<Rightarrow> filter_clause list \<Rightarrow> bool" where
  "matches_all hero filters = list_all (\<lambda>clause. matches_one hero clause) filters"

section \<open>Sorting\<close>

definition field_cmp :: "hero \<Rightarrow> hero \<Rightarrow> string \<Rightarrow> ordering" where
  "field_cmp a b field =
     (if field = ''id'' then cmp (h_id a) (h_id b)
      else if field = ''power_level'' then cmp (h_power_level a) (h_power_level b)
      else if field = ''name'' then cmp (h_name a) (h_name b)
      else if field = ''owner_id'' then cmp (h_owner_id a) (h_owner_id b)
      else if field = ''created_at'' then cmp (h_created_at a) (h_created_at b)
      else if field = ''updated_at'' then cmp (h_updated_at a) (h_updated_at b)
      else if field = ''archived_at'' then cmp (h_archived_at a) (h_archived_at b)
      else Equal)"

definition clause_cmp :: "sort_clause \<Rightarrow> hero \<Rightarrow> hero \<Rightarrow> ordering" where
  "clause_cmp clause a b =
     (let ord = field_cmp a b (sc_field clause) in
      if sc_descending clause then reverse_ord ord else ord)"

definition apply_sort :: "hero list \<Rightarrow> sort_clause list \<Rightarrow> hero list" where
  "apply_sort items clauses =
     foldl (\<lambda>items clause. sort_by (clause_cmp clause) items) items (rev clauses)"

section \<open>The repository\<close>

definition visible :: "hero \<Rightarrow> bool \<Rightarrow> bool \<Rightarrow> bool" where
  "visible hero include_archived only_archived =
     (if only_archived then h_archived_at hero \<noteq> None
      else include_archived \<or> h_archived_at hero = None)"

record hero_memory =
  records :: "(int, hero) btree"
  next_id :: int

definition mem_new :: hero_memory where
  "mem_new = \<lparr>records = [], next_id = 1\<rparr>"

definition id_cmp :: "hero \<Rightarrow> hero \<Rightarrow> ordering" where
  "id_cmp a b = cmp (h_id a) (h_id b)"

definition mem_list :: "list_options \<Rightarrow> hero_memory \<Rightarrow> repo_error + hero list" where
  "mem_list opts self =
     (let items = filter (\<lambda>hero. matches_all hero (lo_filters opts))
            (filter (\<lambda>hero. visible hero (lo_include_archived opts) (lo_only_archived opts))
              (map snd (records self)));
          items = (if lo_sort opts = [] then sort_by id_cmp items else apply_sort items (lo_sort opts))
      in Inr (take (lo_limit opts) (drop (lo_skip opts) items)))"

definition mem_count :: "filter_clause list \<Rightarrow> bool \<Rightarrow> bool \<Rightarrow> hero_memory \<Rightarrow> repo_error + nat" where
  "mem_count filters include_archived only_archived self =
     Inr (length (filter (\<lambda>hero. matches_all hero filters)
       (filter (\<lambda>hero. visible hero include_archived only_archived) (map snd (records self)))))"

definition mem_get :: "int \<Rightarrow> bool \<Rightarrow> hero_memory \<Rightarrow> repo_error + hero option" where
  "mem_get i include_archived self =
     Inr (case map_of (records self) i of
            Some hero \<Rightarrow> if include_archived \<or> h_archived_at hero = None then Some hero else None
          | None \<Rightarrow> None)"

definition mem_create :: "clock \<Rightarrow> string \<Rightarrow> hero_create \<Rightarrow> (hero_memory, hero) repo_op" where
  "mem_create clk owner data self =
     (let now = clk 0;
          i = next_id self;
          model = \<lparr>h_id = i, h_name = Some (hc_name data), h_powers = Some (hc_powers data),
                   h_power_level = hc_power_level data, h_owner_id = owner, h_archived_at = None,
                   h_created_at = now, h_updated_at = now\<rparr>
      in (Inr model, \<lparr>records = bt_insert i model (records self), next_id = as_i32 (i + 1)\<rparr>))"

definition apply_update :: "int \<Rightarrow> hero \<Rightarrow> hero_update \<Rightarrow> hero" where
  "apply_update now existing data =
     (let h = (case hu_name data of Some name \<Rightarrow> existing\<lparr>h_name := Some name\<rparr> | None \<Rightarrow> existing);
          h = (case hu_powers data of Some powers \<Rightarrow> h\<lparr>h_powers := Some powers\<rparr> | None \<Rightarrow> h);
          h = (if hu_power_level data \<noteq> None then h\<lparr>h_power_level := hu_power_level data\<rparr> else h)
      in h\<lparr>h_updated_at := now\<rparr>)"

definition mem_update ::
  "clock \<Rightarrow> int \<Rightarrow> string \<Rightarrow> hero_update \<Rightarrow> (hero_memory, hero option) repo_op" where
  "mem_update clk i owner data self =
     (case map_of (records self) i of
        None \<Rightarrow> (Inr None, self)
      | Some existing \<Rightarrow>
          if h_owner_id existing \<noteq> owner \<or> h_archived_at existing \<noteq> None then (Inr None, self)
          else
            let h = apply_update (clk 0) existing data
            in (Inr (Some h), self\<lparr>records := bt_insert i h (records self)\<rparr>))"

text \<open>The loops over \<open>values_mut\<close>: the rewritten entries and the changed rows.\<close>

fun update_values :: "clock \<Rightarrow> nat \<Rightarrow> filter_clause list \<Rightarrow> hero_update \<Rightarrow> (int, hero) btree \<Rightarrow>
  (int, hero) btree \<times> hero list" where
  "update_values clk n filters data [] = ([], [])"
| "update_values clk n filters data ((k, h) # m) =
     (if h_archived_at h \<noteq> None \<or> \<not> matches_all h filters
      then (case update_values clk n filters data m of (m', us) \<Rightarrow> ((k, h) # m', us))
      else
        let h' = apply_update (clk n) h
               \<lparr>hu_name = hu_name data, hu_powers = hu_powers data, hu_power_level = hu_power_level data\<rparr>
        in (case update_values clk (Suc n) filters data m of (m', us) \<Rightarrow> ((k, h') # m', h' # us)))"

definition mem_update_many ::
  "clock \<Rightarrow> filter_clause list \<Rightarrow> hero_update \<Rightarrow> (hero_memory, hero list) repo_op" where
  "mem_update_many clk filters data self =
     (case update_values clk 0 filters data (records self) of
        (m, updated) \<Rightarrow> (Inr updated, self\<lparr>records := m\<rparr>))"

definition mem_delete :: "clock \<Rightarrow> int \<Rightarrow> string \<Rightarrow> (hero_memory, bool) repo_op" where
  "mem_delete clk i owner self =
     (case map_of (records self) i of
        None \<Rightarrow> (Inr False, self)
      | Some existing \<Rightarrow>
          if h_owner_id existing \<noteq> owner \<or> h_archived_at existing \<noteq> None then (Inr False, self)
          else
            (Inr True, self\<lparr>records := bt_insert i
               (existing\<lparr>h_archived_at := Some (clk 0), h_updated_at := clk 1\<rparr>) (records self)\<rparr>))"

fun delete_values :: "int \<Rightarrow> filter_clause list \<Rightarrow> (int, hero) btree \<Rightarrow>
  (int, hero) btree \<times> hero list" where
  "delete_values now filters [] = ([], [])"
| "delete_values now filters ((k, h) # m) =
     (if h_archived_at h \<noteq> None \<or> \<not> matches_all h filters
      then (case delete_values now filters m of (m', ds) \<Rightarrow> ((k, h) # m', ds))
      else
        let h' = h\<lparr>h_archived_at := Some now, h_updated_at := now\<rparr>
        in (case delete_values now filters m of (m', ds) \<Rightarrow> ((k, h') # m', h' # ds)))"

definition mem_delete_many :: "clock \<Rightarrow> filter_clause list \<Rightarrow> (hero_memory, hero list) repo_op" where
  "mem_delete_many clk filters self =
     (case delete_values (clk 0) filters (records self) of
        (m, deleted) \<Rightarrow> (Inr deleted, self\<lparr>records := m\<rparr>))"

definition memory_repository :: "hero_memory repository" where
  "memory_repository =
     \<lparr>r_create = mem_create, r_update = mem_update, r_update_many = mem_update_many,
      r_delete = mem_delete, r_delete_many = mem_delete_many\<rparr>"

section \<open>The invariant\<close>

text \<open>Keys ascend and every row is stored under its own id.\<close>

definition mem_inv :: "hero_memory \<Rightarrow> bool" where
  "mem_inv r \<longleftrightarrow> bt_sorted (records r) \<and> list_all (\<lambda>(k, h). h_id h = k) (records r)"

definition mem_rows :: "hero_memory \<Rightarrow> int \<Rightarrow> hero option" where
  "mem_rows r = map_of (records r)"

definition mem_room :: "hero_memory \<Rightarrow> bool" where
  "mem_room r \<longleftrightarrow> list_all (\<lambda>(k, h). k < next_id r) (records r)"

definition mem_selects :: "filter_clause list \<Rightarrow> hero \<Rightarrow> bool" where
  "mem_selects filters h = matches_all h filters"

lemma mem_inv_new: "mem_inv mem_new" "mem_room mem_new"
  by (simp_all add: mem_inv_def mem_room_def mem_new_def)

lemma bt_insert_ids:
  "list_all (\<lambda>(k, h). h_id h = k) m \<Longrightarrow> h_id h = k \<Longrightarrow> list_all (\<lambda>(k, h). h_id h = k) (bt_insert k h m)"
  by (induction k h m rule: bt_insert.induct) auto

lemma mem_inv_insert: "mem_inv r \<Longrightarrow> h_id h = k \<Longrightarrow> mem_inv (r\<lparr>records := bt_insert k h (records r)\<rparr>)"
  by (simp add: mem_inv_def bt_sorted_insert bt_insert_ids)

lemma mem_rows_insert:
  "mem_inv r \<Longrightarrow> mem_rows (r\<lparr>records := bt_insert k h (records r)\<rparr>) = (mem_rows r)(k \<mapsto> h)"
  by (simp add: mem_inv_def mem_rows_def map_of_bt_insert)

lemma mem_rows_id: "mem_inv r \<Longrightarrow> mem_rows r i = Some h \<Longrightarrow> h_id h = i"
  by (auto simp: mem_inv_def mem_rows_def list_all_iff dest!: map_of_SomeD)

lemma mem_room_free: "mem_room r \<Longrightarrow> mem_rows r (next_id r) = None"
  by (force simp: mem_room_def mem_rows_def list_all_iff map_of_eq_None_iff)

lemma apply_update_edited: "apply_update now h data = (edit data h)\<lparr>h_updated_at := now\<rparr>"
  by (cases "hu_power_level data") (auto simp: apply_update_def edit_def Let_def split: option.splits)

lemma apply_update_id [simp]: "h_id (apply_update now h data) = h_id h"
  by (simp add: apply_update_edited)

text \<open>Both bulk loops are one walk: rewrite the selected rows in key order.\<close>

fun walk :: "(nat \<Rightarrow> hero \<Rightarrow> hero) \<Rightarrow> (hero \<Rightarrow> bool) \<Rightarrow> nat \<Rightarrow> (int, hero) btree \<Rightarrow>
  (int, hero) btree \<times> hero list" where
  "walk f p n [] = ([], [])"
| "walk f p n ((k, h) # m) =
     (if p h then (case walk f p (Suc n) m of (m', us) \<Rightarrow> ((k, f n h) # m', f n h # us))
      else (case walk f p n m of (m', us) \<Rightarrow> ((k, h) # m', us)))"

definition bulk_selected :: "filter_clause list \<Rightarrow> hero \<Rightarrow> bool" where
  "bulk_selected filters h \<longleftrightarrow> live h \<and> mem_selects filters h"

lemma update_copy [simp]:
  "\<lparr>hu_name = hu_name data, hu_powers = hu_powers data, hu_power_level = hu_power_level data\<rparr> =
   (data :: hero_update)"
  by simp

lemma update_values_walk:
  "update_values clk n filters data m =
     walk (\<lambda>n h. apply_update (clk n) h data) (bulk_selected filters) n m"
  by (induction clk n filters data m rule: update_values.induct)
    (auto simp: bulk_selected_def live_def mem_selects_def Let_def)

lemma delete_values_walk:
  "delete_values now filters m =
     walk (\<lambda>n h. h\<lparr>h_archived_at := Some now, h_updated_at := now\<rparr>) (bulk_selected filters) n m"
  by (induction now filters m arbitrary: n rule: delete_values.induct)
    (auto simp: bulk_selected_def live_def mem_selects_def Let_def split: prod.splits)

lemma walk_keys: "map fst (fst (walk f p n m)) = map fst m"
  by (induction f p n m rule: walk.induct) (auto split: prod.splits)

lemma walk_ids:
  "(\<And>n h. h_id (f n h) = h_id h) \<Longrightarrow> list_all (\<lambda>(k, h). h_id h = k) m \<Longrightarrow>
   list_all (\<lambda>(k, h). h_id h = k) (fst (walk f p n m))"
  by (induction f p n m rule: walk.induct) (auto split: prod.splits)

lemma walk_changed_ids:
  "(\<And>n h. h_id (f n h) = h_id h) \<Longrightarrow> list_all (\<lambda>(k, h). h_id h = k) m \<Longrightarrow>
   h_id ` set (snd (walk f p n m)) \<subseteq> fst ` set m"
  by (induction f p n m rule: walk.induct) (auto split: prod.splits if_splits, blast+)

lemma walk_sorted:
  "(\<And>n h. h_id (f n h) = h_id h) \<Longrightarrow> list_all (\<lambda>(k, h). h_id h = k) m \<Longrightarrow> bt_sorted m \<Longrightarrow>
   sorted_wrt (<) (map h_id (snd (walk f p n m)))"
proof (induction f p n m rule: walk.induct)
  case (2 f p n k h m)
  then show ?case
    using walk_changed_ids [where f = f and m = m and p = p and n = "Suc n"]
      walk_changed_ids [where f = f and m = m and p = p and n = n]
    by (cases "p h") (fastforce simp: bt_sorted_Cons split: prod.splits)+
qed simp

lemma walk_rows:
  assumes "\<And>n h. h_id (f n h) = h_id h" "list_all (\<lambda>(k, h). h_id h = k) m" "bt_sorted m"
  shows "case map_of m i of
     Some h \<Rightarrow> if p h
       then (\<exists>j. map_of (fst (walk f p n m)) i = Some (f j h) \<and> f j h \<in> set (snd (walk f p n m)))
       else map_of (fst (walk f p n m)) i = Some h \<and> i \<notin> h_id ` set (snd (walk f p n m))
   | None \<Rightarrow> map_of (fst (walk f p n m)) i = None \<and> i \<notin> h_id ` set (snd (walk f p n m))"
  using assms
proof (induction f p n m rule: walk.induct)
  case (1 f p n)
  then show ?case by simp
next
  case (2 f p n k h m)
  have k: "k \<notin> h_id ` set (snd (walk f p j m))" for j
  proof
    assume "k \<in> h_id ` set (snd (walk f p j m))"
    moreover have "h_id ` set (snd (walk f p j m)) \<subseteq> fst ` set m"
      using 2(4) by (intro walk_changed_ids 2(3)) auto
    ultimately have "k \<in> fst ` set m" by blast
    then show False using 2(5) by (auto simp: bt_sorted_Cons)
  qed
  show ?case
  proof (cases "p h")
    case True
    have IH: "case map_of m i of
         Some h \<Rightarrow> if p h
           then (\<exists>j. map_of (fst (walk f p (Suc n) m)) i = Some (f j h) \<and>
                     f j h \<in> set (snd (walk f p (Suc n) m)))
           else map_of (fst (walk f p (Suc n) m)) i = Some h \<and>
                i \<notin> h_id ` set (snd (walk f p (Suc n) m))
       | None \<Rightarrow> map_of (fst (walk f p (Suc n) m)) i = None \<and>
                i \<notin> h_id ` set (snd (walk f p (Suc n) m))"
      using 2(1) [OF True 2(3)] 2(4,5) by (simp add: bt_sorted_Cons)
    show ?thesis
      using True IH k [of "Suc n"] 2(3) [of n h] 2(4)
      by (cases "i = k") (auto simp: split_beta split: option.splits if_splits)
  next
    case False
    have IH: "case map_of m i of
         Some h \<Rightarrow> if p h
           then (\<exists>j. map_of (fst (walk f p n m)) i = Some (f j h) \<and> f j h \<in> set (snd (walk f p n m)))
           else map_of (fst (walk f p n m)) i = Some h \<and> i \<notin> h_id ` set (snd (walk f p n m))
       | None \<Rightarrow> map_of (fst (walk f p n m)) i = None \<and> i \<notin> h_id ` set (snd (walk f p n m))"
      using 2(2) [OF False 2(3)] 2(4,5) by (simp add: bt_sorted_Cons)
    show ?thesis
      using False IH k [of n] by (cases "i = k") (auto simp: split_beta split: option.splits)
  qed
qed

lemma walk_inv:
  assumes "\<And>n h. h_id (f n h) = h_id h" "mem_inv r"
  shows "mem_inv (r\<lparr>records := fst (walk f p n (records r))\<rparr>)"
proof -
  have "bt_sorted (fst (walk f p n (records r)))"
    using assms(2) walk_keys [of f p n "records r"] by (simp add: mem_inv_def bt_sorted_def)
  then show ?thesis using walk_ids [OF assms(1)] assms(2) by (simp add: mem_inv_def)
qed

section \<open>The contract holds\<close>

interpretation mem: hero_repository memory_repository mem_rows mem_inv mem_room mem_selects
proof
  fix r clk owner data m r'
  assume inv: "mem_inv r"
  show "mem_inv (snd (r_create memory_repository clk owner data r))"
    using inv by (simp add: memory_repository_def mem_create_def Let_def mem_inv_def
        bt_sorted_insert bt_insert_ids)
  assume room: "mem_room r" and c: "r_create memory_repository clk owner data r = (Inr m, r')"
  show "mem_rows r (h_id m) = None \<and> mem_rows r' = (mem_rows r)(h_id m \<mapsto> m) \<and>
      h_name m = Some (hc_name data) \<and> h_powers m = Some (hc_powers data) \<and>
      h_power_level m = hc_power_level data \<and> h_owner_id m = owner \<and> live m \<and>
      h_created_at m = clk 0 \<and> h_updated_at m = clk 0"
    using c mem_room_free [OF room] inv
    by (auto simp: memory_repository_def mem_create_def Let_def live_def mem_rows_def mem_inv_def
        map_of_bt_insert)
next
  fix r clk owner data e r'
  show "mem_rows r' = mem_rows r" if "r_create memory_repository clk owner data r = (Inl e, r')"
    using that by (simp add: memory_repository_def mem_create_def Let_def)
next
  fix r i h
  show "h_id h = i" if "mem_inv r" "mem_rows r i = Some h" using that by (rule mem_rows_id)
next
  fix r clk i owner udata
  assume inv: "mem_inv r"
  show "mem_inv (snd (r_update memory_repository clk i owner udata r))"
    using inv mem_rows_id [OF inv, of i]
    by (auto simp: memory_repository_def mem_update_def Let_def mem_inv_insert mem_rows_def
        split: option.splits)
  show "case mem_rows r i of
         Some h \<Rightarrow> if h_owner_id h = owner \<and> live h
           then (\<exists>h'. res = Some h' \<and> edited udata h h' \<and> mem_rows r' = (mem_rows r)(i \<mapsto> h'))
           else res = None \<and> mem_rows r' = mem_rows r
       | None \<Rightarrow> res = None \<and> mem_rows r' = mem_rows r"
    if "r_update memory_repository clk i owner udata r = (Inr res, r')" for res r'
    using that mem_rows_insert [OF inv]
    by (auto simp: memory_repository_def mem_update_def Let_def live_def edited_def
        apply_update_edited mem_rows_def split: option.splits if_splits)
  show "mem_rows r' = mem_rows r"
    if "r_update memory_repository clk i owner udata r = (Inl e, r')" for e r'
    using that by (auto simp: memory_repository_def mem_update_def Let_def
        split: option.splits if_splits)
next
  fix r clk filters udata
  assume inv: "mem_inv r"
  let ?w = "walk (\<lambda>n h. apply_update (clk n) h udata) (bulk_selected filters) 0 (records r)"
  have op: "r_update_many memory_repository clk filters udata r = (Inr (snd ?w), r\<lparr>records := fst ?w\<rparr>)"
    by (simp add: memory_repository_def mem_update_many_def update_values_walk split_beta)
  show "mem_inv (snd (r_update_many memory_repository clk filters udata r))"
    unfolding op snd_conv by (intro walk_inv inv) simp
  show "mem_rows r' = mem_rows r"
    if "r_update_many memory_repository clk filters udata r = (Inl e, r')" for e r'
    using that op by simp
  show "sorted_wrt (<) (map h_id ms) \<and>
      (\<forall>i. case mem_rows r i of
         Some h \<Rightarrow> if live h \<and> mem_selects filters h
           then (\<exists>h'. mem_rows r' i = Some h' \<and> edited udata h h' \<and> h' \<in> set ms)
           else mem_rows r' i = Some h \<and> i \<notin> h_id ` set ms
       | None \<Rightarrow> mem_rows r' i = None \<and> i \<notin> h_id ` set ms)"
    if "r_update_many memory_repository clk filters udata r = (Inr ms, r')" for ms r'
  proof -
    have ms: "ms = snd ?w" "r' = r\<lparr>records := fst ?w\<rparr>" using that op by simp_all
    have m: "bt_sorted (records r)" "list_all (\<lambda>(k, h). h_id h = k) (records r)"
      using inv by (simp_all add: mem_inv_def)
    have "sorted_wrt (<) (map h_id ms)" unfolding ms by (rule walk_sorted) (simp_all add: m)
    moreover have "edited udata h (apply_update (clk j) h udata)" for j h
      by (auto simp: edited_def apply_update_edited)
    then have "case mem_rows r i of
         Some h \<Rightarrow> if live h \<and> mem_selects filters h
           then (\<exists>h'. mem_rows r' i = Some h' \<and> edited udata h h' \<and> h' \<in> set ms)
           else mem_rows r' i = Some h \<and> i \<notin> h_id ` set ms
       | None \<Rightarrow> mem_rows r' i = None \<and> i \<notin> h_id ` set ms" for i
      using walk_rows [where f = "\<lambda>n h. apply_update (clk n) h udata" and m = "records r"
          and p = "bulk_selected filters" and n = 0 and i = i, OF _ m(2,1)]
      by (cases "map_of (records r) i") (auto simp: ms mem_rows_def bulk_selected_def)
    ultimately show ?thesis by blast
  qed
next
  fix r clk i owner
  assume inv: "mem_inv r"
  show "mem_inv (snd (r_delete memory_repository clk i owner r))"
    using inv mem_rows_id [OF inv, of i]
    by (auto simp: memory_repository_def mem_delete_def mem_inv_insert mem_rows_def split: option.splits)
  show "case mem_rows r i of
         Some h \<Rightarrow> if h_owner_id h = owner \<and> live h
           then (\<exists>h'. gone \<and> archived_copy h h' \<and> mem_rows r' = (mem_rows r)(i \<mapsto> h'))
           else \<not> gone \<and> mem_rows r' = mem_rows r
       | None \<Rightarrow> \<not> gone \<and> mem_rows r' = mem_rows r"
    if "r_delete memory_repository clk i owner r = (Inr gone, r')" for gone r'
    using that mem_rows_insert [OF inv]
    by (auto simp: memory_repository_def mem_delete_def live_def mem_rows_def
        intro!: exI [of _ "_\<lparr>h_archived_at := Some (clk 0), h_updated_at := clk (Suc 0)\<rparr>"] archived_copyI
        split: option.splits if_splits)
  show "mem_rows r' = mem_rows r"
    if "r_delete memory_repository clk i owner r = (Inl e, r')" for e r'
    using that by (auto simp: memory_repository_def mem_delete_def split: option.splits if_splits)
next
  fix r :: hero_memory and clk :: clock and filters
  assume inv: "mem_inv r"
  let ?f = "\<lambda>(n::nat) h. h\<lparr>h_archived_at := Some (clk 0), h_updated_at := clk 0\<rparr>"
  let ?w = "walk ?f (bulk_selected filters) 0 (records r)"
  have op: "r_delete_many memory_repository clk filters r = (Inr (snd ?w), r\<lparr>records := fst ?w\<rparr>)"
    by (simp add: memory_repository_def mem_delete_many_def delete_values_walk [of _ _ _ 0] split_beta)
  show "mem_inv (snd (r_delete_many memory_repository clk filters r))"
    unfolding op snd_conv by (intro walk_inv inv) simp
  show "mem_rows r' = mem_rows r"
    if "r_delete_many memory_repository clk filters r = (Inl e, r')" for e r'
    using that op by simp
  show "sorted_wrt (<) (map h_id ms) \<and>
      (\<forall>i. case mem_rows r i of
         Some h \<Rightarrow> if live h \<and> mem_selects filters h
           then (\<exists>h'. mem_rows r' i = Some h' \<and> archived_copy h h' \<and> h' \<in> set ms)
           else mem_rows r' i = Some h \<and> i \<notin> h_id ` set ms
       | None \<Rightarrow> mem_rows r' i = None \<and> i \<notin> h_id ` set ms)"
    if "r_delete_many memory_repository clk filters r = (Inr ms, r')" for ms r'
  proof -
    have ms: "ms = snd ?w" "r' = r\<lparr>records := fst ?w\<rparr>" using that op by simp_all
    have m: "bt_sorted (records r)" "list_all (\<lambda>(k, h). h_id h = k) (records r)"
      using inv by (simp_all add: mem_inv_def)
    have "sorted_wrt (<) (map h_id ms)" unfolding ms by (rule walk_sorted) (simp_all add: m)
    moreover have "archived_copy h (?f j h)" for j h by (auto simp: archived_copy_def)
    then have "case mem_rows r i of
         Some h \<Rightarrow> if live h \<and> mem_selects filters h
           then (\<exists>h'. mem_rows r' i = Some h' \<and> archived_copy h h' \<and> h' \<in> set ms)
           else mem_rows r' i = Some h \<and> i \<notin> h_id ` set ms
       | None \<Rightarrow> mem_rows r' i = None \<and> i \<notin> h_id ` set ms" for i
      using walk_rows [where f = ?f and m = "records r"
          and p = "bulk_selected filters" and n = 0 and i = i, OF _ m(2,1)]
      by (cases "map_of (records r) i") (auto simp: ms mem_rows_def bulk_selected_def)
    ultimately show ?thesis by blast
  qed
qed

section \<open>Ids left for the creations of a run\<close>

definition creations :: "(clock \<times> repo_cmd) list \<Rightarrow> nat" where
  "creations cs = length (filter (\<lambda>(clk, c). case c of CmdCreate _ _ \<Rightarrow> True | _ \<Rightarrow> False) cs)"

text \<open>The repository is well formed and can still give \<open>n\<close> records an id of their own.\<close>

definition mem_ok :: "nat \<Rightarrow> hero_memory \<Rightarrow> bool" where
  "mem_ok n r \<longleftrightarrow> mem_inv r \<and> mem_room r \<and> 1 \<le> next_id r \<and> next_id r + int n \<le> 2 ^ 31 - 1"

lemma walk_room:
  "list_all (\<lambda>(k, h). k < b) (fst (walk f p n m)) = list_all (\<lambda>(k, h). k < b) m"
proof -
  have "list_all (\<lambda>(k, h). k < b) l = list_all (\<lambda>k. k < b) (map fst l)" for l :: "(int \<times> hero) list"
    by (induction l) auto
  then show ?thesis by (simp add: walk_keys)
qed

lemma bt_insert_below:
  "i < b \<Longrightarrow> list_all (\<lambda>(k, h). k < b) m \<Longrightarrow> list_all (\<lambda>(k, h). k < b) (bt_insert i v m)"
  for m :: "(int, hero) btree"
  by (induction i v m rule: bt_insert.induct) auto

lemma mem_next_id:
  "next_id (exec_cmd memory_repository clk c r) =
     (case c of CmdCreate _ _ \<Rightarrow> as_i32 (next_id r + 1) | _ \<Rightarrow> next_id r)"
  by (cases c)
    (auto simp: memory_repository_def mem_create_def mem_update_def mem_update_many_def
      mem_delete_def mem_delete_many_def Let_def split: option.splits prod.splits)

lemma mem_room_step:
  assumes "mem_ok n r" and "case c of CmdCreate _ _ \<Rightarrow> 1 \<le> n | _ \<Rightarrow> True"
  shows "mem_room (exec_cmd memory_repository clk c r)"
proof (cases c)
  case (CmdCreate owner data)
  then have "1 \<le> n" using assms(2) by simp
  then have "as_i32 (next_id r + 1) = next_id r + 1"
    using assms(1) by (intro as_i32_ident) (auto simp: mem_ok_def i32_range_def)
  moreover have "list_all (\<lambda>(k, h). k < next_id r + 1) (bt_insert (next_id r) m (records r))" for m
    using assms(1) by (intro bt_insert_below) (auto simp: mem_ok_def mem_room_def list_all_iff)
  ultimately show ?thesis
    using CmdCreate by (simp add: memory_repository_def mem_create_def mem_room_def Let_def)
next
  case (CmdUpdate i owner data)
  have "i < next_id r" if "map_of (records r) i = Some h" for h
    using map_of_SomeD [OF that] assms(1) by (auto simp: mem_ok_def mem_room_def list_all_iff)
  then show ?thesis
    using CmdUpdate assms(1)
    by (auto simp: memory_repository_def mem_update_def mem_room_def mem_ok_def Let_def
        intro: bt_insert_below split: option.splits)
next
  case (CmdUpdateMany filters data)
  then show ?thesis
    using assms(1)
    by (simp add: memory_repository_def mem_update_many_def update_values_walk split_beta
        mem_room_def mem_ok_def walk_room)
next
  case (CmdDelete i owner)
  have "i < next_id r" if "map_of (records r) i = Some h" for h
    using map_of_SomeD [OF that] assms(1) by (auto simp: mem_ok_def mem_room_def list_all_iff)
  then show ?thesis
    using CmdDelete assms(1)
    by (auto simp: memory_repository_def mem_delete_def mem_room_def mem_ok_def
        intro: bt_insert_below split: option.splits)
next
  case (CmdDeleteMany filters)
  then show ?thesis
    using assms(1)
    by (simp add: memory_repository_def mem_delete_many_def delete_values_walk [of _ _ _ 0]
        split_beta mem_room_def mem_ok_def walk_room)
qed

lemma mem_ok_step:
  assumes "mem_ok (creations ((clk, c) # cs)) r"
  shows "mem_ok (creations cs) (exec_cmd memory_repository clk c r)"
proof -
  have inv: "mem_inv (exec_cmd memory_repository clk c r)"
    using assms by (intro mem.exec_inv) (simp add: mem_ok_def)
  have room: "mem_room (exec_cmd memory_repository clk c r)"
    using assms by (rule mem_room_step) (simp add: creations_def split: repo_cmd.splits)
  have "1 \<le> next_id (exec_cmd memory_repository clk c r) \<and>
      next_id (exec_cmd memory_repository clk c r) + int (creations cs) \<le> 2 ^ 31 - 1"
  proof (cases c)
    case (CmdCreate owner data)
    then have "as_i32 (next_id r + 1) = next_id r + 1"
      using assms by (intro as_i32_ident) (auto simp: mem_ok_def creations_def i32_range_def)
    then show ?thesis
      using CmdCreate assms mem_next_id [of clk c r] by (simp add: mem_ok_def creations_def)
  qed (use assms mem_next_id [of clk c r] in \<open>simp_all add: mem_ok_def creations_def\<close>)
  with inv room show ?thesis by (simp add: mem_ok_def)
qed

lemma mem_room_for: "mem_ok (creations cs) r \<Longrightarrow> mem.room_for cs r"
proof (induction cs arbitrary: r)
  case Nil
  then show ?case by simp
next
  case (Cons c cs)
  obtain clk cmd where c: "c = (clk, cmd)" by (cases c)
  then show ?case using Cons mem_ok_step [of clk cmd cs r] by (simp add: mem_ok_def)
qed

text \<open>Counting the values of a map that satisfy a predicate.\<close>

lemma count_map_of:
  assumes "distinct (map fst m)"
  shows "length (filter P (map snd m)) = card {i. \<exists>h. map_of m i = Some h \<and> P h}"
proof -
  have "length (filter P (map snd m)) = length (map fst (filter (P \<circ> snd) m))" by (simp add: filter_map)
  also have "\<dots> = card (set (map fst (filter (P \<circ> snd) m)))"
    using distinct_map_filter [OF assms] by (rule distinct_card [symmetric])
  also have "set (map fst (filter (P \<circ> snd) m)) = {i. \<exists>h. map_of m i = Some h \<and> P h}"
    using assms by (force simp: map_of_eq_Some_iff)
  finally show ?thesis .
qed

lemma mem_count_rows:
  assumes "mem_inv r"
  shows "mem_count [] True False r = Inr (card (dom (mem_rows r)))"
    and "mem_count [] False False r = Inr (card {i. \<exists>h. mem_rows r i = Some h \<and> live h})"
proof -
  have d: "distinct (map fst (records r))" using assms by (auto simp: mem_inv_def intro: bt_sorted_distinct)
  show "mem_count [] True False r = Inr (card (dom (mem_rows r)))"
    using count_map_of [OF d, of "\<lambda>_. True"]
    by (simp add: mem_count_def visible_def matches_all_def mem_rows_def dom_def)
  show "mem_count [] False False r = Inr (card {i. \<exists>h. mem_rows r i = Some h \<and> live h})"
    using count_map_of [OF d, of "\<lambda>h. h_archived_at h = None"]
    by (simp add: mem_count_def visible_def matches_all_def mem_rows_def live_def)
qed

interpretation mem_counts: counted_repository memory_repository mem_rows mem_inv mem_room mem_selects mem_count
  by unfold_locales (simp_all add: mem_count_rows mem_rows_def finite_dom_map_of)

text \<open>
  C5. One command on the in-memory repository leaves every stored row as it is, unless the row
  is live and the command addresses it (its id with its owner, or a bulk filter it satisfies);
  then the row becomes exactly the edit or the soft delete the command asks for. Creations
  touch no stored row.
\<close>

theorem memory_command_effect:
  assumes "mem_inv r" and "mem_room r" and "mem_rows r i = Some h"
  shows "mem_rows (exec_cmd memory_repository clk c r) i = Some h \<or>
     (live h \<and> addresses mem_selects h c \<and>
      (\<exists>h'. mem_rows (exec_cmd memory_repository clk c r) i = Some h' \<and> changes c h h'))"
  using mem.exec_row [OF assms] .

text \<open>
  Over any sequence of commands on the in-memory repository, with fewer than 2^31 ids used
  up, a record never disappears and keeps its id, owner and creation time, and a soft-deleted
  record stays exactly as it was.
\<close>

theorem memory_rows_persist:
  assumes "mem_ok (creations cs) r" and "mem_rows r i = Some h"
  shows "\<exists>h'. mem_rows (exec_cmds memory_repository cs r) i = Some h' \<and> same_identity h h' \<and>
     (if live h then True else h' = h)"
  using mem.exec_cmds_row [OF _ mem_room_for [OF assms(1)] assms(2)] assms(1)
  by (auto simp: mem_ok_def)

section \<open>Listing\<close>

text \<open>The order a list query asks for: its clauses in turn, ties by id.\<close>

definition order_cmp :: "sort_clause list \<Rightarrow> hero \<Rightarrow> hero \<Rightarrow> ordering" where
  "order_cmp clauses = foldr (\<lambda>c. lex_cmp (clause_cmp c)) clauses id_cmp"

lemma total_cmp_id: "total_cmp id_cmp"
  using total_cmp_cmp [of h_id] by (simp add: id_cmp_def [abs_def])

lemma total_cmp_field: "total_cmp (\<lambda>a b. field_cmp a b f)"
  unfolding field_cmp_def
  by (cases "f = ''id''"; cases "f = ''power_level''"; cases "f = ''name''"; cases "f = ''owner_id''";
      cases "f = ''created_at''"; cases "f = ''updated_at''"; cases "f = ''archived_at''";
      simp add: total_cmp_cmp total_cmp_const)

lemma total_cmp_clause: "total_cmp (clause_cmp c)"
  using total_cmp_field [of "sc_field c"] total_cmp_reverse [OF total_cmp_field [of "sc_field c"]]
  by (cases "sc_descending c") (simp_all add: clause_cmp_def [abs_def] Let_def)

lemma total_cmp_order: "total_cmp (order_cmp clauses)"
  by (induction clauses) (simp_all add: order_cmp_def total_cmp_id total_cmp_lex total_cmp_clause)

lemma apply_sort_Cons: "apply_sort items (c # cs) = sort_by (clause_cmp c) (apply_sort items cs)"
  by (simp add: apply_sort_def)

lemma apply_sort_sorted:
  "sorted_wrt (\<lambda>a b. id_cmp a b \<noteq> Greater) items \<Longrightarrow>
   sorted_wrt (\<lambda>a b. order_cmp cs a b \<noteq> Greater) (apply_sort items cs)"
proof (induction cs)
  case Nil
  then show ?case by (simp add: apply_sort_def order_cmp_def)
next
  case (Cons c cs)
  then show ?case
    using sort_by_sorted_lex [OF total_cmp_clause total_cmp_order, of cs "apply_sort items cs" c]
    by (simp add: apply_sort_Cons order_cmp_def)
qed

lemma set_apply_sort [simp]: "set (apply_sort items cs) = set items"
  by (induction cs) (simp_all add: apply_sort_Cons, simp add: apply_sort_def)

lemma length_apply_sort [simp]: "length (apply_sort items cs) = length items"
  by (induction cs) (simp_all add: apply_sort_Cons, simp add: apply_sort_def)

lemma order_cmp_Equal: "order_cmp cs a b = Equal \<Longrightarrow> h_id a = h_id b"
proof (induction cs)
  case Nil
  then show ?case by (simp add: order_cmp_def id_cmp_def cmp_def split: if_splits)
next
  case (Cons c cs)
  then show ?case by (simp add: order_cmp_def lex_cmp_def split: ordering.splits)
qed

text \<open>The rows of a query, before paging.\<close>

definition mem_matching :: "list_options \<Rightarrow> hero_memory \<Rightarrow> hero list" where
  "mem_matching opts r =
     filter (\<lambda>hero. matches_all hero (lo_filters opts))
       (filter (\<lambda>hero. visible hero (lo_include_archived opts) (lo_only_archived opts))
         (map snd (records r)))"

lemma mem_inv_ids:
  "list_all (\<lambda>(k, h). h_id h = k) m \<Longrightarrow> map h_id (map snd m) = map fst m" for m :: "(int, hero) btree"
  by (induction m) auto

lemma mem_values_sorted:
  assumes "mem_inv r"
  shows "sorted_wrt (\<lambda>a b. h_id a < h_id b) (map snd (records r))"
proof -
  have "map h_id (map snd (records r)) = map fst (records r)"
    using assms by (intro mem_inv_ids) (simp add: mem_inv_def)
  then have "sorted_wrt (<) (map h_id (map snd (records r)))"
    using assms unfolding mem_inv_def bt_sorted_def by metis
  then show ?thesis by (simp add: sorted_wrt_map)
qed

lemma mem_matching_sorted:
  "mem_inv r \<Longrightarrow> sorted_wrt (\<lambda>a b. h_id a < h_id b) (mem_matching opts r)"
  unfolding mem_matching_def by (intro sorted_wrt_filter mem_values_sorted)

lemma sorted_wrt_strict:
  assumes "sorted_wrt (\<lambda>a b. c a b \<noteq> Greater) xs" "distinct (map f xs)"
    "\<And>a b. c a b = Equal \<Longrightarrow> f a = f b"
  shows "sorted_wrt (\<lambda>a b. c a b = Less) xs"
  using assms(1,2)
proof (induction xs)
  case (Cons x xs)
  have "c x y = Less" if "y \<in> set xs" for y
  proof -
    have "f x \<noteq> f y" using Cons.prems(2) that by auto
    then have "c x y \<noteq> Equal" using assms(3) by blast
    moreover have "c x y \<noteq> Greater" using Cons.prems(1) that by simp
    ultimately show ?thesis by (cases "c x y") auto
  qed
  with Cons show ?case by simp
qed simp

text \<open>
  C14. A listing is one page of one well-defined sequence: the visible rows that satisfy every
  filter, each once, strictly ordered by the sort clauses in turn and then by id. The page is
  its \<open>limit\<close> rows after the first \<open>skip\<close>, and the count of the same filters is its length.
\<close>

theorem memory_list_page:
  assumes "mem_inv r"
  shows "\<exists>xs. mem_list opts r = Inr (take (lo_limit opts) (drop (lo_skip opts) xs)) \<and>
     distinct xs \<and>
     set xs = {h. \<exists>i. mem_rows r i = Some h \<and> matches_all h (lo_filters opts) \<and>
                     visible h (lo_include_archived opts) (lo_only_archived opts)} \<and>
     sorted_wrt (\<lambda>a b. order_cmp (lo_sort opts) a b = Less) xs \<and>
     mem_count (lo_filters opts) (lo_include_archived opts) (lo_only_archived opts) r = Inr (length xs)"
proof -
  let ?items = "mem_matching opts r"
  define xs where "xs = apply_sort ?items (lo_sort opts)"
  have strict: "sorted_wrt (\<lambda>a b. h_id a < h_id b) ?items" using mem_matching_sorted [OF assms] .
  then have ids: "sorted_wrt (\<lambda>a b. id_cmp a b \<noteq> Greater) ?items"
    by (rule sorted_wrt_mono_rel [rotated]) (simp add: id_cmp_def cmp_def)
  have dist: "distinct (map h_id ?items)"
    using strict by (simp add: sorted_wrt_map [symmetric] strict_sorted_iff)
  have page: "mem_list opts r = Inr (take (lo_limit opts) (drop (lo_skip opts) xs))"
    using sort_by_sorted_ident [OF ids]
    by (simp add: mem_list_def xs_def mem_matching_def Let_def apply_sort_def)
  have card: "distinct xs \<and> distinct (map h_id xs)"
  proof -
    have "card (h_id ` set xs) = length xs"
      using distinct_card [OF dist] by (simp add: xs_def)
    then have "distinct (map h_id xs)" by (intro card_distinct) simp
    then show ?thesis by (simp add: distinct_map)
  qed
  have rows: "set (map snd (records r)) = {h. \<exists>i. mem_rows r i = Some h}"
    using assms bt_sorted_distinct [of "records r"]
    by (force simp: mem_inv_def mem_rows_def)
  have "sorted_wrt (\<lambda>a b. order_cmp (lo_sort opts) a b = Less) xs"
    using apply_sort_sorted [OF ids, of "lo_sort opts"] card order_cmp_Equal
    unfolding xs_def by (intro sorted_wrt_strict [where f = h_id]) blast+
  moreover have "set xs = {h. \<exists>i. mem_rows r i = Some h \<and> matches_all h (lo_filters opts) \<and>
      visible h (lo_include_archived opts) (lo_only_archived opts)}"
    using rows by (auto simp: xs_def mem_matching_def)
  moreover have "mem_count (lo_filters opts) (lo_include_archived opts) (lo_only_archived opts) r =
      Inr (length xs)"
    by (simp add: mem_count_def xs_def mem_matching_def)
  ultimately show ?thesis using page card by blast
qed

section \<open>A concrete repository\<close>

definition sample_hero :: "int \<Rightarrow> string \<Rightarrow> string \<Rightarrow> int option \<Rightarrow> hero" where
  "sample_hero i name owner archived =
     \<lparr>h_id = i, h_name = Some name, h_powers = Some [''flight''], h_power_level = Some 5,
      h_owner_id = owner, h_archived_at = archived, h_created_at = 10, h_updated_at = 10\<rparr>"

definition sample_repo :: hero_memory where
  "sample_repo = \<lparr>records = [(1, sample_hero 1 ''Spectra'' ''alice'' None),
                            (2, sample_hero 2 ''Vapor'' ''bob'' (Some 20))], next_id = 3\<rparr>"

lemma sample_repo_ok: "mem_ok 5 sample_repo" "mem_inv sample_repo" "mem_room sample_repo"
  by (simp_all add: mem_ok_def mem_inv_def mem_room_def sample_repo_def sample_hero_def bt_sorted_def)

lemma sample_repo_rows:
  "mem_rows sample_repo 1 = Some (sample_hero 1 ''Spectra'' ''alice'' None)"
  "mem_rows sample_repo 2 = Some (sample_hero 2 ''Vapor'' ''bob'' (Some 20))"
  by (simp_all add: mem_rows_def sample_repo_def)

definition sample_cmds :: "(clock \<times> repo_cmd) list" where
  "sample_cmds =
     [(\<lambda>n. 30, CmdUpdateMany [] \<lparr>hu_name = Some ''X'', hu_powers = None, hu_power_level = None\<rparr>),
      (\<lambda>n. 31, CmdDelete 2 ''bob''), (\<lambda>n. 32, CmdDeleteMany []),
      (\<lambda>n. 33, CmdCreate ''bob'' \<lparr>hc_name = ''N'', hc_powers = [''p''], hc_power_level = None\<rparr>)]"

theorem memory_command_effect_witness:
  "mem_rows (exec_cmd memory_repository (\<lambda>n. 30) (CmdDelete 1 ''bob'') sample_repo) 1 =
   Some (sample_hero 1 ''Spectra'' ''alice'' None)"
  using memory_command_effect [OF sample_repo_ok(2,3) sample_repo_rows(1), of "\<lambda>n. 30" "CmdDelete 1 ''bob''"]
  by (simp add: sample_hero_def)

theorem memory_rows_persist_witness:
  "mem_rows (exec_cmds memory_repository sample_cmds sample_repo) 2 =
   Some (sample_hero 2 ''Vapor'' ''bob'' (Some 20))"
proof -
  have "mem_ok (creations sample_cmds) sample_repo"
    using sample_repo_ok by (simp add: mem_ok_def creations_def sample_cmds_def)
  from memory_rows_persist [OF this sample_repo_rows(2)] show ?thesis
    by (simp add: live_def sample_hero_def)
qed

definition sample_opts :: list_options where
  "sample_opts = \<lparr>lo_skip = 0, lo_limit = 10, lo_include_archived = True, lo_only_archived = False,
     lo_filters = [], lo_sort = [\<lparr>sc_field = ''name'', sc_descending = True\<rparr>]\<rparr>"

theorem memory_list_page_witness:
  "\<exists>xs. mem_list sample_opts sample_repo = Inr (take 10 (drop 0 xs)) \<and> length xs = 2 \<and>
     sorted_wrt (\<lambda>a b. order_cmp (lo_sort sample_opts) a b = Less) xs"
proof -
  have "mem_count [] True False sample_repo = Inr 2"
    by (simp add: mem_count_def sample_repo_def visible_def matches_all_def)
  then show ?thesis
    using memory_list_page [OF sample_repo_ok(2), of sample_opts] by (auto simp: sample_opts_def)
qed

end
