(* ===== verification/Crud_Service.thy ===== *)
theory Crud_Service
  imports Hero_Endpoint Hero_Memory
begin

text \<open>
  What \<open>craftainer_crud\<close> documents of \<open>CrudService\<close> and \<open>crud_actions\<close> over a repository
  (\<open>docs/adrs/0013\<close>): by id it calls the repository with the caller as owner and answers 404 when
  nothing was changed; without an id it refuses, or runs the bulk operation with an
  \<open>owner_id\<close> filter of the caller added. This is the hypothesis \<open>service_over\<close>; what a write of
  the API does to the rows follows from it and the repository contract. An instance over the
  in-memory repository closes the theory.
\<close>

definition owner_clause :: "string \<Rightarrow> filter_clause" where
  "owner_clause owner = \<lparr>fc_field = ''owner_id'', fc_op = Eq, fc_value = FStr owner\<rparr>"

definition scoped_to :: "string \<Rightarrow> filter_clause list \<Rightarrow> filter_clause list \<Rightarrow> bool" where
  "scoped_to owner fs fs' \<longleftrightarrow> set fs' = insert (owner_clause owner) (set fs)"

definition bulk_of :: "hero list \<Rightarrow> bulk_result" where
  "bulk_of ms = \<lparr>br_matched = length ms, br_ids = map h_id ms\<rparr>"

text \<open>How a repository result \<open>rr\<close> comes back: an error, a 404, or a value.\<close>

definition answers_one :: "(repo_error + 'a option) \<times> 'r \<Rightarrow> ('a \<Rightarrow> 'b) \<Rightarrow> (crud_error + 'b) \<times> 'r \<Rightarrow> bool" where
  "answers_one rr f res \<longleftrightarrow> (case rr of
       (Inl _, r') \<Rightarrow> \<exists>e. res = (Inl e, r')
     | (Inr None, r') \<Rightarrow> \<exists>msg. res = (Inl (CrudNotFound msg), r')
     | (Inr (Some x), r') \<Rightarrow> res = (Inr (f x), r'))"

definition answers_many :: "(repo_error + hero list) \<times> 'r \<Rightarrow> (bulk_result \<Rightarrow> 'b) \<Rightarrow>
    (crud_error + 'b) \<times> 'r \<Rightarrow> bool" where
  "answers_many rr f res \<longleftrightarrow> (case rr of
       (Inl _, r') \<Rightarrow> \<exists>e. res = (Inl e, r')
     | (Inr ms, r') \<Rightarrow> res = (Inr (f (bulk_of ms)), r'))"

definition gone_or_none :: "(repo_error + bool) \<times> 'r \<Rightarrow> (repo_error + unit option) \<times> 'r" where
  "gone_or_none rr = (case rr of
       (Inl e, r') \<Rightarrow> (Inl e, r') | (Inr b, r') \<Rightarrow> (Inr (if b then Some () else None), r'))"

definition service_over :: "'r repository \<Rightarrow> ('r, 'sc) crud_api \<Rightarrow> bool" where
  "service_over rp crud \<longleftrightarrow>
     reads_keep crud \<and>
     (\<forall>clk owner data. ca_create crud clk owner data = r_create rp clk owner data) \<and>
     (\<forall>clk i owner fs data mx r. answers_one (r_update rp clk i owner data r) UpdatedOne
        (ca_resolve_update crud clk (Some i) owner fs data mx r)) \<and>
     (\<forall>clk owner fs data mx r. (\<exists>e. ca_resolve_update crud clk None owner fs data mx r = (Inl e, r)) \<or>
        (\<exists>fs'. scoped_to owner fs fs' \<and> answers_many (r_update_many rp clk fs' data r) UpdatedBulk
           (ca_resolve_update crud clk None owner fs data mx r))) \<and>
     (\<forall>clk i owner data r. answers_one (r_update rp clk i owner data r) (\<lambda>h. h)
        (ca_resolve_update_by_id crud clk i owner data r)) \<and>
     (\<forall>clk i owner fs mx iu r. answers_one (gone_or_none (r_delete rp clk i owner r)) (\<lambda>_. DeletedOne)
        (ca_resolve_delete crud clk (Some i) owner fs mx iu r)) \<and>
     (\<forall>clk owner fs mx iu r. (\<exists>e. ca_resolve_delete crud clk None owner fs mx iu r = (Inl e, r)) \<or>
        (\<exists>fs'. scoped_to owner fs fs' \<and> answers_many (r_delete_many rp clk fs' r) DeletedBulk
           (ca_resolve_delete crud clk None owner fs mx iu r)))"

lemma service_overD:
  assumes "service_over rp crud"
  shows "reads_keep crud"
    and "ca_create crud clk owner data = r_create rp clk owner data"
    and "answers_one (r_update rp clk i owner udata r) UpdatedOne
        (ca_resolve_update crud clk (Some i) owner fs udata mx r)"
    and "(\<exists>e. ca_resolve_update crud clk None owner fs udata mx r = (Inl e, r)) \<or>
        (\<exists>fs'. scoped_to owner fs fs' \<and> answers_many (r_update_many rp clk fs' udata r) UpdatedBulk
           (ca_resolve_update crud clk None owner fs udata mx r))"
    and "answers_one (r_update rp clk i owner udata r) (\<lambda>h. h)
        (ca_resolve_update_by_id crud clk i owner udata r)"
    and "answers_one (gone_or_none (r_delete rp clk i owner r)) (\<lambda>_. DeletedOne)
        (ca_resolve_delete crud clk (Some i) owner fs mx iu r)"
    and "(\<exists>e. ca_resolve_delete crud clk None owner fs mx iu r = (Inl e, r)) \<or>
        (\<exists>fs'. scoped_to owner fs fs' \<and> answers_many (r_delete_many rp clk fs' r) DeletedBulk
           (ca_resolve_delete crud clk None owner fs mx iu r))"
  using assms unfolding service_over_def by simp_all

text \<open>The repository command a write of the API may issue.\<close>

definition issues :: "int option \<Rightarrow> string \<Rightarrow> write_cmd \<Rightarrow> repo_cmd \<Rightarrow> bool" where
  "issues rid owner cmd rc \<longleftrightarrow> (case cmd of
       WriteCreate data \<Rightarrow> rc = CmdCreate owner data
     | WriteUpdate fs data \<Rightarrow> (case rid of Some i \<Rightarrow> rc = CmdUpdate i owner data
         | None \<Rightarrow> \<exists>fs'. scoped_to owner fs fs' \<and> rc = CmdUpdateMany fs' data)
     | WriteDelete fs iu \<Rightarrow> (case rid of Some i \<Rightarrow> rc = CmdDelete i owner
         | None \<Rightarrow> \<exists>fs'. scoped_to owner fs fs' \<and> rc = CmdDeleteMany fs'))"

lemma answers_one_state: "answers_one rr f res \<Longrightarrow> snd res = snd rr"
  by (auto simp: answers_one_def split: prod.splits sum.splits option.splits)

lemma answers_many_state: "answers_many rr f res \<Longrightarrow> snd res = snd rr"
  by (auto simp: answers_many_def split: prod.splits sum.splits)

lemma gone_or_none_state [simp]: "snd (gone_or_none rr) = snd rr"
  by (auto simp: gone_or_none_def split: prod.splits sum.splits)

lemma perform_issues:
  assumes so: "service_over rp (as_crud state)" and run: "perform state c owner cmd w = (res, w')"
  shows "w_repo w' = w_repo w \<or>
     (\<exists>rc. issues (hq_id (c_query c)) owner cmd rc \<and> w_repo w' = exec_cmd rp (c_clock c) rc (w_repo w))"
proof (cases cmd)
  case (WriteCreate data)
  have "ca_create (as_crud state) (c_clock c) owner data = r_create rp (c_clock c) owner data"
    by (rule service_overD(2) [OF so])
  with run WriteCreate show ?thesis
    by (auto simp: perform_def run_simps issues_def split: sum.splits)
next
  case (WriteUpdate fs data)
  let ?mx = "bulk_action_max_matched (as_settings state)"
  let ?u = "\<lambda>rid. ca_resolve_update (as_crud state) (c_clock c) rid owner fs data ?mx (w_repo w)"
  have st: "w_repo w' = snd (?u (hq_id (c_query c)))"
    using run WriteUpdate by (auto simp: perform_def run_simps Let_def split: sum.splits)
  show ?thesis
  proof (cases "hq_id (c_query c)")
    case None
    have "(\<exists>e. ?u None = (Inl e, w_repo w)) \<or>
        (\<exists>fs'. scoped_to owner fs fs' \<and>
           answers_many (r_update_many rp (c_clock c) fs' data (w_repo w)) UpdatedBulk (?u None))"
      by (rule service_overD(4) [OF so])
    then show ?thesis
      using st WriteUpdate None by (auto simp: issues_def dest!: answers_many_state)
  next
    case (Some i)
    have "answers_one (r_update rp (c_clock c) i owner data (w_repo w)) UpdatedOne (?u (Some i))"
      by (rule service_overD(3) [OF so])
    then show ?thesis using st WriteUpdate Some by (auto simp: issues_def dest!: answers_one_state)
  qed
next
  case (WriteDelete fs iu)
  let ?mx = "bulk_action_max_matched (as_settings state)"
  let ?u = "\<lambda>rid. ca_resolve_delete (as_crud state) (c_clock c) rid owner fs ?mx iu (w_repo w)"
  have st: "w_repo w' = snd (?u (hq_id (c_query c)))"
    using run WriteDelete by (auto simp: perform_def run_simps Let_def split: sum.splits)
  show ?thesis
  proof (cases "hq_id (c_query c)")
    case None
    have "(\<exists>e. ?u None = (Inl e, w_repo w)) \<or>
        (\<exists>fs'. scoped_to owner fs fs' \<and>
           answers_many (r_delete_many rp (c_clock c) fs' (w_repo w)) DeletedBulk (?u None))"
      by (rule service_overD(7) [OF so])
    then show ?thesis
      using st WriteDelete None by (auto simp: issues_def dest!: answers_many_state)
  next
    case (Some i)
    have "answers_one (gone_or_none (r_delete rp (c_clock c) i owner (w_repo w))) (\<lambda>_. DeletedOne)
        (?u (Some i))"
      by (rule service_overD(6) [OF so])
    then show ?thesis using st WriteDelete Some by (auto simp: issues_def dest!: answers_one_state)
  qed
qed

text \<open>A command issued for an owner only reaches the owner's rows.\<close>

definition selects_owner :: "(filter_clause list \<Rightarrow> hero \<Rightarrow> bool) \<Rightarrow> bool" where
  "selects_owner sel \<longleftrightarrow>
     (\<forall>fs owner h. owner_clause owner \<in> set fs \<longrightarrow> sel fs h \<longrightarrow> h_owner_id h = owner)"

lemma issued_addresses:
  assumes "selects_owner sel" "issues rid owner cmd rc" "addresses sel h rc"
  shows "h_owner_id h = owner"
proof -
  have so: "h_owner_id h = owner" if "set fs' = insert (owner_clause owner) F" "sel fs' h" for fs' F
    using assms(1) that unfolding selects_owner_def by blast
  show ?thesis
    using assms(2,3) by (cases cmd; cases rid) (auto simp: issues_def scoped_to_def dest: so)
qed

context hero_repository
begin

lemma issued_row:
  assumes "selects_owner sel" "inv r" "room r" "issues qid owner cmd rc" "rows r rid = Some h"
  shows "\<exists>h'. rows (exec_cmd rp clk rc r) rid = Some h' \<and> same_identity h h' \<and>
     (h' \<noteq> h \<longrightarrow> live h \<and> h_owner_id h = owner)"
proof -
  consider "rows (exec_cmd rp clk rc r) rid = Some h"
    | h' where "live h" "addresses sel h rc" "rows (exec_cmd rp clk rc r) rid = Some h'" "changes rc h h'"
    using exec_row [OF assms(2,3,5), of clk rc] by blast
  then show ?thesis
  proof cases
    case 1
    then show ?thesis by simp
  next
    case (2 h')
    then show ?thesis
      using issued_addresses [OF assms(1,4) 2(2)] changes_identity by blast
  qed
qed

lemma issued_new_row:
  assumes "inv r" "room r" "issues qid owner cmd rc" "rows r rid = None"
    and "rows (exec_cmd rp clk rc r) rid = Some h"
  shows "h_owner_id h = owner \<and> live h \<and> (\<exists>data. cmd = WriteCreate data)"
proof (cases rc)
  case (CmdCreate owner' data)
  obtain ores r' where op: "r_create rp clk owner' data r = (ores, r')" by force
  have "owner' = owner" "cmd = WriteCreate data" using assms(3) CmdCreate
    by (auto simp: issues_def split: write_cmd.splits option.splits)
  then show ?thesis
    using create_err [OF assms(1)] create_ok [OF assms(1,2)] op assms(4,5) CmdCreate
    by (cases ores) (fastforce split: if_splits)+
qed (use exec_touches [OF assms(1), of rc rid clk] assms(4,5) in \<open>simp_all add: touched_def del: exec_cmd.simps\<close>)

end

lemma mem_selects_owner: "selects_owner mem_selects"
proof -
  have "h_owner_id h = owner" if "owner_clause owner \<in> set fs" "matches_all h fs" for fs owner h
  proof -
    have "matches_one h (owner_clause owner)" using that by (auto simp: matches_all_def list_all_iff)
    then show ?thesis by (simp add: owner_clause_def matches_one_def matches_str_def Let_def)
  qed
  then show ?thesis by (auto simp: selects_owner_def mem_selects_def)
qed

end
