(* ===== verification/Sample_App.thy ===== *)
theory Sample_App
  imports Crud_Service
begin

text \<open>
  A concrete application for the witnesses: \<open>craftainer_crud\<close> over the in-memory repository, with
  a query language of one filter (\<open>name\<close>), entity tags from id and update instant, and the mock
  rate limiter. It satisfies the hypotheses the properties make of the crate.
\<close>

definition param_flag :: "raw_params \<Rightarrow> string \<Rightarrow> bool" where
  "param_flag ps k = (map_of ps k = Some ''true'')"

definition name_filters :: "raw_params \<Rightarrow> filter_clause list" where
  "name_filters ps = concat (map (\<lambda>(k, v). if k = ''name''
     then [\<lparr>fc_field = ''name'', fc_op = Eq, fc_value = FStr v\<rparr>] else []) ps)"

definition one_answer :: "(repo_error + 'a option) \<times> 'r \<Rightarrow> ('a \<Rightarrow> 'b) \<Rightarrow> (crud_error + 'b) \<times> 'r" where
  "one_answer rr f = (case rr of
       (Inl (Backend m), r') \<Rightarrow> (Inl (CrudInternal m), r')
     | (Inr None, r') \<Rightarrow> (Inl (CrudNotFound ''Hero not found''), r')
     | (Inr (Some x), r') \<Rightarrow> (Inr (f x), r'))"

definition many_answer :: "(repo_error + hero list) \<times> 'r \<Rightarrow> (bulk_result \<Rightarrow> 'b) \<Rightarrow> (crud_error + 'b) \<times> 'r" where
  "many_answer rr f = (case rr of
       (Inl (Backend m), r') \<Rightarrow> (Inl (CrudInternal m), r')
     | (Inr ms, r') \<Rightarrow> (Inr (f (bulk_of ms)), r'))"

definition sample_tag :: "hero \<Rightarrow> string" where
  "sample_tag h = ''v'' @ show_int (h_id h) @ ''-'' @ show_int (h_updated_at h)"

definition sample_list_tag :: "hero list \<Rightarrow> string" where
  "sample_list_tag hs = ''W/'' @ join '','' (map sample_tag hs)"

text \<open>The crate over a repository with its reads: \<open>get\<close> and \<open>list\<close>.\<close>

type_synonym 'r get_op = "int \<Rightarrow> bool \<Rightarrow> 'r \<Rightarrow> repo_error + hero option"
type_synonym 'r list_op = "list_options \<Rightarrow> 'r \<Rightarrow> repo_error + hero list"

definition resolve_list_over :: "'r get_op \<Rightarrow> 'r list_op \<Rightarrow> int option \<Rightarrow> nat \<Rightarrow> nat \<Rightarrow> bool \<Rightarrow> filter_clause list \<Rightarrow>
    sort_clause list \<Rightarrow> ('r, crud_error, list_or_get) eff" where
  "resolve_list_over get lst rid sk li ia fs so r = (case rid of
       Some i \<Rightarrow> (fst (one_answer (get i ia r, r) One), r)
     | None \<Rightarrow> (map_err (\<lambda>_. CrudInternal ''list'') (and_then_r
         (lst \<lparr>lo_skip = sk, lo_limit = li, lo_include_archived = ia, lo_only_archived = False,
                    lo_filters = fs, lo_sort = so\<rparr> r) (\<lambda>hs. Inr (Many hs))), r))"

definition crud_over :: "'r repository \<Rightarrow> 'r get_op \<Rightarrow> 'r list_op \<Rightarrow> ('r, bool) crud_api" where
  "crud_over rp get lst =
     \<lparr>ca_parse_archived_scope = (\<lambda>ps. Inr (param_flag ps ''include_archived'')),
      ca_parse_include_archived = (\<lambda>ps. Inr (param_flag ps ''include_archived'')),
      ca_parse_filters = (\<lambda>specs ps. Inr (name_filters ps)),
      ca_parse_sort = (\<lambda>specs ps. Inr []),
      ca_reject_only_archived = (\<lambda>ps. if param_flag ps ''only_archived''
        then Inl [FieldError ''only_archived'' ''not allowed''] else Inr ()),
      ca_parse_include_unpublished = (\<lambda>ps. Inr True),
      ca_get = (\<lambda>i ia r. (get i ia r, r)),
      ca_list = (\<lambda>sk li ia oa fs so r. (lst \<lparr>lo_skip = sk, lo_limit = li, lo_include_archived = ia,
        lo_only_archived = oa, lo_filters = fs, lo_sort = so\<rparr> r, r)),
      ca_create = r_create rp,
      ca_resolve_list_or_get = resolve_list_over get lst,
      ca_resolve_update = (\<lambda>clk rid owner fs data mx r. case rid of
          Some i \<Rightarrow> one_answer (r_update rp clk i owner data r) UpdatedOne
        | None \<Rightarrow> if fs = [] then (Inl (CrudUnprocessableEntity []), r)
            else many_answer (r_update_many rp clk (owner_clause owner # fs) data r) UpdatedBulk),
      ca_resolve_update_by_id = (\<lambda>clk i owner data r. one_answer (r_update rp clk i owner data r) (\<lambda>h. h)),
      ca_resolve_delete = (\<lambda>clk rid owner fs mx iu r. case rid of
          Some i \<Rightarrow> one_answer (gone_or_none (r_delete rp clk i owner r)) (\<lambda>_. DeletedOne)
        | None \<Rightarrow> if fs = [] then (Inl (CrudUnprocessableEntity []), r)
            else many_answer (r_delete_many rp clk (owner_clause owner # fs) r) DeletedBulk),
      ca_default_limit = 20,
      ca_record_etag = sample_tag,
      ca_list_etag = sample_list_tag,
      ca_not_modified = (\<lambda>hs etag. if header_str hs ''if-none-match'' = Some etag
        then Some (set_header ETAG etag (status_response 304)) else None),
      ca_check_if_match = (\<lambda>hs etag name. if header_str hs IF_MATCH = Some etag then Inr ()
        else Inl (CrudPreconditionFailed (name @ '' was modified since the supplied If-Match''))),
      ca_revalidation_headers = (\<lambda>etag. [(ETAG, etag), (cache_control, ''private, no-cache'')]),
      ca_repo_error_display = (\<lambda>e. case e of Backend m \<Rightarrow> m),
      ca_redacted_detail = (\<lambda>msg fallback. fallback),
      ca_crud_error_into_response = (\<lambda>e. into_response (\<lambda>msg fallback. fallback) (from_crud_error e))\<rparr>"

lemma one_answer_answers: "answers_one rr f (one_answer rr f)"
  by (auto simp: answers_one_def one_answer_def split: prod.splits sum.splits option.splits repo_error.splits)

lemma many_answer_answers: "answers_many rr f (many_answer rr f)"
  by (auto simp: answers_many_def many_answer_def split: prod.splits sum.splits repo_error.splits)

lemma crud_over_reads_keep: "reads_keep (crud_over rp get lst)"
  by (auto simp: reads_keep_def crud_over_def resolve_list_over_def split: option.splits)

lemma crud_over_service: "service_over rp (crud_over rp get lst)"
  unfolding service_over_def
proof (intro conjI allI)
  show "reads_keep (crud_over rp get lst)" by (rule crud_over_reads_keep)
next
  fix clk owner data
  show "ca_create (crud_over rp get lst) clk owner data = r_create rp clk owner data"
    by (simp add: crud_over_def)
next
  fix clk i owner fs data mx r
  show "answers_one (r_update rp clk i owner data r) UpdatedOne
      (ca_resolve_update (crud_over rp get lst) clk (Some i) owner fs data mx r)"
    by (simp add: crud_over_def one_answer_answers)
next
  fix clk owner fs data mx r
  show "(\<exists>e. ca_resolve_update (crud_over rp get lst) clk None owner fs data mx r = (Inl e, r)) \<or>
      (\<exists>fs'. scoped_to owner fs fs' \<and> answers_many (r_update_many rp clk fs' data r) UpdatedBulk
         (ca_resolve_update (crud_over rp get lst) clk None owner fs data mx r))"
    by (cases "fs = []")
      (auto simp: crud_over_def many_answer_answers scoped_to_def
        intro!: exI [where x = "owner_clause owner # fs"])
next
  fix clk i owner data r
  show "answers_one (r_update rp clk i owner data r) (\<lambda>h. h)
      (ca_resolve_update_by_id (crud_over rp get lst) clk i owner data r)"
    by (simp add: crud_over_def one_answer_answers)
next
  fix clk i owner fs mx iu r
  show "answers_one (gone_or_none (r_delete rp clk i owner r)) (\<lambda>_. DeletedOne)
      (ca_resolve_delete (crud_over rp get lst) clk (Some i) owner fs mx iu r)"
    by (simp add: crud_over_def one_answer_answers)
next
  fix clk owner fs mx iu r
  show "(\<exists>e. ca_resolve_delete (crud_over rp get lst) clk None owner fs mx iu r = (Inl e, r)) \<or>
      (\<exists>fs'. scoped_to owner fs fs' \<and> answers_many (r_delete_many rp clk fs' r) DeletedBulk
         (ca_resolve_delete (crud_over rp get lst) clk None owner fs mx iu r))"
    by (cases "fs = []")
      (auto simp: crud_over_def many_answer_answers scoped_to_def
        intro!: exI [where x = "owner_clause owner # fs"])
qed

definition sample_crud :: "(hero_memory, bool) crud_api" where
  "sample_crud = crud_over memory_repository mem_get mem_list"

lemmas sample_crud_eq = sample_crud_def [unfolded crud_over_def memory_repository_def repository.simps]

lemma sample_reads_keep: "reads_keep sample_crud"
  unfolding sample_crud_def by (rule crud_over_reads_keep)

lemma sample_service: "service_over memory_repository sample_crud"
  unfolding sample_crud_def by (rule crud_over_service)

definition sample_xml :: xml_api where
  "sample_xml =
     \<lparr>xa_to_string_with_root = (\<lambda>root payload. Inr (''<'' @ root @ ''/>'')),
      xa_hero_create = (\<lambda>bs. Inr \<lparr>hc_name = ''N'', hc_powers = [''p''], hc_power_level = None\<rparr>),
      xa_hero_update = (\<lambda>bs. Inr \<lparr>hu_name = Some ''N'', hu_powers = None, hu_power_level = None\<rparr>),
      xa_hero_create_v1 = (\<lambda>bs. Inr \<lparr>hc1_name = ''N'', hc1_superpower = ''p'', hc1_power_level = None\<rparr>),
      xa_hero_update_v1 = (\<lambda>bs. Inr \<lparr>hu1_name = Some ''N'', hu1_superpower = None, hu1_power_level = None\<rparr>)\<rparr>"

definition sample_state :: "(hero_memory, sample_server, bool) app_state" where
  "sample_state =
     \<lparr>as_settings = sample_settings Dev, as_crud = sample_crud, as_redis = sample_commands,
      as_xml = sample_xml, as_http_date = (\<lambda>t. ''Fri, 01 Jan 2027 00:00:00 GMT'')\<rparr>"

definition sample_world :: "(hero_memory, sample_server) world" where
  "sample_world = \<lparr>w_repo = sample_repo, w_limiter = Mock Map.empty, w_events = [], w_tracked = []\<rparr>"

definition sample_claims :: "string \<Rightarrow> string \<Rightarrow> claims" where
  "sample_claims sub role = JObj
     [(''sub'', JStr sub),
      (''resource_access'', JObj [(''api'', JObj [(''roles'', JArr [JStr role])])])]"

definition sample_call :: "int option \<Rightarrow> raw_params \<Rightarrow> request_headers \<Rightarrow> call" where
  "sample_call rid ps hs =
     \<lparr>c_ip = ''10.0.0.1'', c_query = \<lparr>hq_id = rid, hq_skip = None, hq_limit = None\<rparr>, c_params = ps,
      c_headers = hs, c_now = 5, c_clock = (\<lambda>n. 30)\<rparr>"

lemma sample_state_sel [simp]:
  "as_crud sample_state = sample_crud" "as_settings sample_state = sample_settings Dev"
  "as_xml sample_state = sample_xml"
  by (simp_all add: sample_state_def)

lemma sample_settings_sel [simp]:
  "oidc_client_id (sample_settings m) = ''api''" "bulk_action_max_matched (sample_settings m) = 1000"
  "rate_limit_hero_write_per_minute (sample_settings m) = 20"
  by (simp_all add: sample_settings_def)

lemma sample_claims_roles: "granted_roles (sample_claims sub role) ''api'' = [role]"
  by (simp add: granted_roles_def sample_claims_def filter_map_def)

lemma sample_claims_subject: "subject (sample_claims sub role) = Inr sub"
  by (simp add: subject_def sample_claims_def)

lemma sample_call_sel [simp]:
  "c_query (sample_call rid ps hs) = \<lparr>hq_id = rid, hq_skip = None, hq_limit = None\<rparr>"
  "c_params (sample_call rid ps hs) = ps" "c_headers (sample_call rid ps hs) = hs"
  by (simp_all add: sample_call_def)

lemma sample_check: "\<exists>l. check_write_rate sample_state (sample_call rid ps hs) sample_world =
    (Inr (), sample_world\<lparr>w_limiter := l\<rparr>)"
  by (simp add: check_write_rate_def run_simps check_def count_hit_def mock_count_def sample_world_def
      nanos_def word_less_def Let_def)

end
