(* ===== verification/Heroes_Routes.thy ===== *)
theory Heroes_Routes
  imports Heroes_Json Heroes_V1_Xml Sample_App
begin

text \<open>
  The \<open>router()\<close> of the four Hero modules as one dispatch over the requests of the API, the proof
  that they implement the abstract endpoint of \<open>Hero_Endpoint\<close>, and what follows for every
  request: the gates, the announcement of writes, the sibling representations, conditional
  requests, ownership and the sunset headers.
\<close>

section \<open>Routers\<close>

fun json_router :: "(hero_create, hero_update) write_body \<Rightarrow> ('r, 'l, 'sc) app_state \<Rightarrow> call \<Rightarrow> claims \<Rightarrow>
    ('r, 'l, response) handler" where
  "json_router (Post payload) = (\<lambda>state c claims. create_v2 state c claims payload)"
| "json_router (Patch payload) = (\<lambda>state c claims. update_v2 state c claims payload)"
| "json_router Remove = delete_v2"

fun xml_router :: "(bytes, bytes) write_body \<Rightarrow> ('r, 'l, 'sc) app_state \<Rightarrow> call \<Rightarrow> claims \<Rightarrow>
    ('r, 'l, response) handler" where
  "xml_router (Post body) = (\<lambda>state c claims. create_v2_xml state c claims body)"
| "xml_router (Patch body) = (\<lambda>state c claims. update_v2_xml state c claims body)"
| "xml_router Remove = delete_v2_xml"

fun v1_router :: "(hero_create_v1, hero_update_v1) write_body \<Rightarrow> ('r, 'l, 'sc) app_state \<Rightarrow> call \<Rightarrow>
    claims \<Rightarrow> ('r, 'l, response) handler" where
  "v1_router (Post payload) = (\<lambda>state c claims. create_v1 state c claims payload)"
| "v1_router (Patch payload) = (\<lambda>state c claims. update_v1 state c claims payload)"
| "v1_router Remove = delete_v1"

fun v1_xml_router :: "(bytes, bytes) write_body \<Rightarrow> ('r, 'l, 'sc) app_state \<Rightarrow> call \<Rightarrow> claims \<Rightarrow>
    ('r, 'l, response) handler" where
  "v1_xml_router (Post body) = (\<lambda>state c claims. create_v1_xml state c claims body)"
| "v1_xml_router (Patch body) = (\<lambda>state c claims. update_v1_xml state c claims body)"
| "v1_xml_router Remove = delete_v1_xml"

datatype hero_write_request =
    ViaJson "(hero_create, hero_update) write_body"
  | ViaXml "(bytes, bytes) write_body"
  | ViaV1 "(hero_create_v1, hero_update_v1) write_body"
  | ViaV1Xml "(bytes, bytes) write_body"

fun serve_write :: "hero_write_request \<Rightarrow> ('r, 'l, 'sc) app_state \<Rightarrow> call \<Rightarrow> claims \<Rightarrow>
    ('r, 'l, response) handler" where
  "serve_write (ViaJson rq) = json_router rq"
| "serve_write (ViaXml rq) = xml_router rq"
| "serve_write (ViaV1 rq) = v1_router rq"
| "serve_write (ViaV1Xml rq) = v1_xml_router rq"

datatype hero_api = JsonV2 | XmlV2 | JsonV1 | XmlV1

fun serve_read :: "hero_api \<Rightarrow> ('r, 'l, 'sc) app_state \<Rightarrow> call \<Rightarrow> claims \<Rightarrow> ('r, 'l, response) handler" where
  "serve_read JsonV2 = list_or_get_v2"
| "serve_read XmlV2 = list_or_get_v2_xml"
| "serve_read JsonV1 = list_or_get_v1"
| "serve_read XmlV1 = list_or_get_v1_xml"

section \<open>The contract of the routers\<close>

fun api_of :: "hero_write_request \<Rightarrow> hero_api" where
  "api_of (ViaJson _) = JsonV2"
| "api_of (ViaXml _) = XmlV2"
| "api_of (ViaV1 _) = JsonV1"
| "api_of (ViaV1Xml _) = XmlV1"

fun codec_for :: "hero_api \<Rightarrow> ('r, 'l, 'sc) app_state \<Rightarrow> codec" where
  "codec_for JsonV2 state = json_codec"
| "codec_for XmlV2 state = xml_codec (as_xml state)"
| "codec_for JsonV1 state = v1_codec (as_http_date state)"
| "codec_for XmlV1 state = v1xml_codec state"

text \<open>What a request asks for: its method, with the body decoded to a version 2 request.\<close>

fun decoded :: "hero_write_request \<Rightarrow> ('r, 'l, 'sc) app_state \<Rightarrow>
    (app_error + hero_create, app_error + hero_update) write_body" where
  "decoded (ViaJson (Post p)) state = Post (checked_body validate_create (\<lambda>p. p) p)"
| "decoded (ViaJson (Patch p)) state = Patch (checked_body validate_update (\<lambda>p. p) p)"
| "decoded (ViaXml (Post b)) state = Post (xml_body (xa_hero_create (as_xml state)) validate_create (\<lambda>p. p) b)"
| "decoded (ViaXml (Patch b)) state = Patch (xml_body (xa_hero_update (as_xml state)) validate_update (\<lambda>p. p) b)"
| "decoded (ViaV1 (Post p)) state = Post (checked_body validate_create_v1 create_from_v1 p)"
| "decoded (ViaV1 (Patch p)) state = Patch (checked_body validate_update_v1 update_from_v1 p)"
| "decoded (ViaV1Xml (Post b)) state =
     Post (xml_body (xa_hero_create_v1 (as_xml state)) validate_create_v1 create_from_v1 b)"
| "decoded (ViaV1Xml (Patch b)) state =
     Patch (xml_body (xa_hero_update_v1 (as_xml state)) validate_update_v1 update_from_v1 b)"
| "decoded _ state = Remove"

definition steps_of :: "codec \<Rightarrow> (app_error + hero_create, app_error + hero_update) write_body \<Rightarrow>
    ('r, 'l, 'sc) app_state \<Rightarrow> call \<Rightarrow> ('r, 'l) hero_steps" where
  "steps_of cd d state c = (case d of
       Post body \<Rightarrow> create_steps cd state c body
     | Patch body \<Rightarrow> update_steps cd state c body
     | Remove \<Rightarrow> delete_steps cd state c)"

definition api_steps :: "hero_write_request \<Rightarrow> ('r, 'l, 'sc) app_state \<Rightarrow> call \<Rightarrow> ('r, 'l) hero_steps" where
  "api_steps rq state c = steps_of (codec_for (api_of rq) state) (decoded rq state) state c"

definition api_tracked :: "hero_write_request \<Rightarrow> written \<Rightarrow> tracked list" where
  "api_tracked rq out = tracked_by (json_codec\<lparr>cd_tracks := (api_of rq = JsonV2)\<rparr>) out"

lemma cd_tracks_iff: "cd_tracks (codec_for api state) = (api = JsonV2)"
  by (cases api) (simp_all add: json_codec_def xml_codec_def v1_codec_def v1xml_codec_def)

lemma tracked_by_cong: "cd_tracks cd = cd_tracks cd' \<Longrightarrow> tracked_by cd out = tracked_by cd' out"
  by (simp add: tracked_by_def)

lemma steps_of_laws:
  "ws_perform (steps_of cd d state c) = perform state c"
  "ws_track (steps_of cd d state c) = tracking cd"
  "ws_announce (steps_of cd d state c) = announcement c"
  "ws_respond (steps_of cd d state c) = reply cd (as_crud state)"
  by (cases d; simp add: steps_of_def write_steps_laws)+

lemma serve_write_implements:
  "serve_write rq state c claims = write_pipeline (\<lambda>e. e) state c claims (api_steps rq state c)"
proof (cases rq)
  case (ViaJson b)
  then show ?thesis
    by (cases b) (simp_all add: api_steps_def steps_of_def json_create json_update json_delete)
next
  case (ViaXml b)
  then show ?thesis
    by (cases b) (simp_all add: api_steps_def steps_of_def xml_create xml_update xml_delete)
next
  case (ViaV1 b)
  then show ?thesis
    by (cases b) (simp_all add: api_steps_def steps_of_def v1_create v1_update v1_delete)
next
  case (ViaV1Xml b)
  then show ?thesis
    by (cases b) (simp_all add: api_steps_def steps_of_def v1xml_create v1xml_update v1xml_delete)
qed

lemma serve_read_implements:
  "serve_read api state c claims = endpoint_read (codec_for api state) state c claims"
  by (cases api) (simp_all add: json_read xml_read v1_read v1xml_read)

interpretation api: write_endpoint "\<lambda>_ e. e" serve_write api_steps api_tracked
proof
  fix rq :: hero_write_request and state :: "('a, 'b, 'c) app_state" and c claims
  show "serve_write rq state c claims = write_pipeline (\<lambda>e. e) state c claims (api_steps rq state c)"
    by (rule serve_write_implements)
next
  fix rq :: hero_write_request and state :: "('a, 'b, 'c) app_state" and c w pres w'
  assume "reads_keep (as_crud state)" "ws_precondition (api_steps rq state c) w = (pres, w')"
  then show "w' = w"
    by (cases "decoded rq state") (auto simp: api_steps_def steps_of_def dest: write_steps_keep)
next
  fix rq :: hero_write_request and state :: "('a, 'b, 'c) app_state" and c owner p w ores w'
  assume "ws_perform (api_steps rq state c) owner p w = (ores, w')"
  then show "w' = w\<lparr>w_repo := w_repo w'\<rparr>"
    by (auto simp: api_steps_def steps_of_laws dest: perform_world)
next
  fix rq :: hero_write_request and state :: "('a, 'b, 'c) app_state" and c out w
  show "ws_track (api_steps rq state c) out w = (Inr (), w\<lparr>w_tracked := w_tracked w @ api_tracked rq out\<rparr>)"
    unfolding api_tracked_def api_steps_def steps_of_laws tracking_run
    by (simp add: tracked_by_def cd_tracks_iff)
qed

section \<open>The gates\<close>

definition required_roles :: "hero_write_request \<Rightarrow> string list" where
  "required_roles rq = (case rq of
       ViaJson Remove \<Rightarrow> HERO_DELETE_ROLES | ViaXml Remove \<Rightarrow> HERO_DELETE_ROLES
     | ViaV1 Remove \<Rightarrow> HERO_DELETE_ROLES | ViaV1Xml Remove \<Rightarrow> HERO_DELETE_ROLES
     | _ \<Rightarrow> HERO_WRITE_ROLES)"

definition has_role :: "('r, 'l, 'sc) app_state \<Rightarrow> claims \<Rightarrow> string list \<Rightarrow> bool" where
  "has_role state claims roles \<longleftrightarrow>
     set roles \<inter> set (granted_roles claims (oidc_client_id (as_settings state))) \<noteq> {}"

lemma api_steps_roles: "ws_roles (api_steps rq state c) = required_roles rq"
  by (cases rq; rename_tac b; case_tac b)
    (simp_all add: api_steps_def steps_of_def write_steps_laws required_roles_def)

lemma role_gate_iff:
  "role_gate state claims roles =
     (if has_role state claims roles then Inr () else Inl (Forbidden ''Insufficient role''))"
  by (simp add: role_gate_def require_any_role_iff has_role_def)

lemma check_write_rate_limiter: "check_write_rate state c w = (r, w1) \<Longrightarrow> limiter_only w w1"
  by (auto simp: check_write_rate_def run_simps)

text \<open>
  C10. Every write request of the four routers is charged to the rate limiter first: over the
  limit it ends there, and a caller without a role of the method's set (editor or maintainer to
  create and update, maintainer alone to delete) ends there with 403; in both cases nothing but
  the limiter's counter has changed. A read by a caller with none of the four read roles is a
  403 that changes nothing at all.
\<close>

theorem role_and_rate_gates:
  "(case check_write_rate state c w of
      (Inl err, w1) \<Rightarrow> limiter_only w w1 \<and> serve_write rq state c claims w = (Inl err, w1)
    | (Inr _, w1) \<Rightarrow> limiter_only w w1 \<and>
        (if has_role state claims (required_roles rq) then True
         else serve_write rq state c claims w = (Inl (Forbidden ''Insufficient role''), w1))) \<and>
   (if has_role state claims HERO_READ_ROLES then True
    else serve_read rd state c claims w = (Inl (Forbidden ''Insufficient role''), w))"
proof -
  obtain r w1 where cw: "check_write_rate state c w = (r, w1)" by force
  have rd: "serve_read rd state c claims w = (Inl (Forbidden ''Insufficient role''), w)"
    if "\<not> has_role state claims HERO_READ_ROLES"
    using that by (simp add: serve_read_implements endpoint_read_def role_gate_iff Let_def run_simps)
  show ?thesis
  proof (cases r)
    case (Inl err)
    then show ?thesis
      using cw rd api.rate_limited [of state c w err w1 rq claims] check_write_rate_limiter [OF cw] by simp
  next
    case (Inr u)
    then show ?thesis
      using cw rd api.forbidden [of state c w w1 claims rq] check_write_rate_limiter [OF cw]
      by (simp add: api_steps_roles role_gate_iff)
  qed
qed

section \<open>Writes and their announcement\<close>

text \<open>
  C15. A write request either changes nothing that anyone observes (no event, no analytics, and
  the repository as it was or as the crate's failed call left it) and answers an error, or the
  crate's call succeeded and was announced exactly once, on the \<open>heroes\<close> topic with the ids it
  wrote; analytics are tracked for version 2 JSON only. The response is rendered after that, so
  an encoding error of the XML routers answers 500 for a write that was kept and announced. The
  limiter is charged exactly once either way.
\<close>

theorem write_announced_once:
  assumes "reads_keep (as_crud state)" and "serve_write rq state c claims w = (res, w')"
  shows "w_limiter w' = w_limiter (snd (check_write_rate state c w)) \<and>
    (((\<exists>err. res = Inl err \<and>
        (w_repo w' = w_repo w \<or> (\<exists>owner cmd w1. limiter_only w w1 \<and>
           perform state c owner cmd w1 = (Inl err, w')))) \<and> quiet w w') \<or>
     (\<exists>owner cmd out w1 w2. subject claims = Inr owner \<and> limiter_only w w1 \<and>
        perform state c owner cmd w1 = (Inr out, w2) \<and> w_repo w' = w_repo w2 \<and>
        w_events w' = w_events w @ [\<lparr>ev_resource = ''heroes'',
          ev_action = fst (announcement c out), ev_ids = snd (announcement c out)\<rparr>] \<and>
        w_tracked w' = w_tracked w @ (if api_of rq = JsonV2 then tracked_by json_codec out else []) \<and>
        res = reply (codec_for (api_of rq) state) (as_crud state) out))"
proof (rule conjI)
  show "w_limiter w' = w_limiter (snd (check_write_rate state c w))"
    by (rule api.charged [OF assms])
  show "((\<exists>err. res = Inl err \<and>
        (w_repo w' = w_repo w \<or> (\<exists>owner cmd w1. limiter_only w w1 \<and>
           perform state c owner cmd w1 = (Inl err, w')))) \<and> quiet w w') \<or>
     (\<exists>owner cmd out w1 w2. subject claims = Inr owner \<and> limiter_only w w1 \<and>
        perform state c owner cmd w1 = (Inr out, w2) \<and> w_repo w' = w_repo w2 \<and>
        w_events w' = w_events w @ [\<lparr>ev_resource = ''heroes'',
          ev_action = fst (announcement c out), ev_ids = snd (announcement c out)\<rparr>] \<and>
        w_tracked w' = w_tracked w @ (if api_of rq = JsonV2 then tracked_by json_codec out else []) \<and>
        res = reply (codec_for (api_of rq) state) (as_crud state) out)"
    (is "?failed \<or> ?wrote")
    using assms
  proof (cases rule: api.runs)
    case (refused err)
    then show ?thesis using limiter_only_quiet by blast
  next
    case (failed err owner p w1)
    have "quiet w w1" using failed(2) limiter_only_quiet by blast
    moreover have "quiet w1 w'" by (subst failed(9)) simp
    ultimately have "quiet w w'" by (simp add: quiet_def)
    with failed show ?thesis by (auto simp: api_steps_def steps_of_laws)
  next
    case (wrote owner p out w1 w2)
    have "quiet w w1" using wrote(1) limiter_only_quiet by blast
    moreover have "quiet w1 w2" by (subst wrote(8)) simp
    ultimately have q: "w_events w2 = w_events w" "w_tracked w2 = w_tracked w"
      by (simp_all add: quiet_def)
    have t: "api_tracked rq out = (if api_of rq = JsonV2 then tracked_by json_codec out else [])"
      by (simp add: api_tracked_def tracked_by_def json_codec_def)
    have "?wrote"
      using wrote(2) wrote(1) wrote(7) wrote(9) wrote(10) q t
      unfolding api_steps_def steps_of_laws
      by (intro exI [where x = owner] exI [where x = p] exI [where x = out] exI [where x = w1]
          exI [where x = w2]) (simp add: HERO_EVENT_RESOURCE_def)
    then show ?thesis by blast
  qed
qed

section \<open>Ownership\<close>

text \<open>What a write request does to the repository, in terms of one command of its caller.\<close>

lemma serve_write_repo:
  assumes so: "service_over rp (as_crud state)" and run: "serve_write rq state c claims w = (res, w')"
  shows "w_repo w' = w_repo w \<or> (\<exists>owner cmd rc. subject claims = Inr owner \<and>
     issues (hq_id (c_query c)) owner cmd rc \<and> w_repo w' = exec_cmd rp (c_clock c) rc (w_repo w))"
  using service_overD(1) [OF so] run
proof (cases rule: api.runs)
  case (refused err)
  then show ?thesis using limiter_only_quiet by blast
next
  case (failed err owner p w1)
  have "w_repo w1 = w_repo w" using failed(2) limiter_only_quiet by blast
  with failed perform_issues [OF so, of c owner p w1] show ?thesis
    unfolding api_steps_def steps_of_laws by metis
next
  case (wrote owner p out w1 w2)
  have "w_repo w1 = w_repo w" using wrote(1) limiter_only_quiet by blast
  moreover have "w_repo w' = w_repo w2" using wrote(10) by simp
  ultimately show ?thesis
    using wrote(2,7) perform_issues [OF so, of c owner p w1]
    unfolding api_steps_def steps_of_laws by metis
qed

lemma serve_write_role:
  assumes "reads_keep (as_crud state)" and "serve_write rq state c claims w = (res, w')" and "w_repo w' \<noteq> w_repo w"
  shows "has_role state claims (required_roles rq)"
  using assms(1,2)
proof (cases rule: api.runs)
  case (refused err)
  then show ?thesis using limiter_only_quiet assms(3) by blast
qed (auto simp: api_steps_roles role_gate_iff split: if_splits)

text \<open>What one command of the caller may do to a row.\<close>

definition within_owner :: "string \<Rightarrow> (int \<Rightarrow> hero option) \<Rightarrow> (int \<Rightarrow> hero option) \<Rightarrow> int \<Rightarrow> bool" where
  "within_owner owner before after i \<longleftrightarrow>
     (case before i of
        Some h \<Rightarrow> (\<exists>h'. after i = Some h' \<and> same_identity h h' \<and> (h' = h \<or> (live h \<and> h_owner_id h = owner)))
      | None \<Rightarrow> (case after i of Some h' \<Rightarrow> live h' \<and> h_owner_id h' = owner | None \<Rightarrow> True))"

lemma within_owner_refl: "within_owner owner rows rows i"
  by (simp add: within_owner_def split: option.splits)

context hero_repository
begin

lemma issued_within_owner:
  assumes "selects_owner sel" "inv r" "room r" "issues qid owner cmd rc"
  shows "inv (exec_cmd rp clk rc r) \<and> within_owner owner (rows r) (rows (exec_cmd rp clk rc r)) i"
proof (cases "rows r i")
  case None
  then show ?thesis
    using exec_inv [OF assms(2), of clk rc] issued_new_row [OF assms(2-4) None, of clk]
    by (auto simp: within_owner_def split: option.splits)
next
  case (Some h)
  then show ?thesis
    using exec_inv [OF assms(2), of clk rc] issued_row [OF assms(1-4) Some, of clk]
    by (auto simp: within_owner_def)
qed

end

text \<open>
  C7. Over the in-memory repository, a write request by any route touches only records of the
  caller: a stored record keeps its id, owner and creation time, and if anything of it changed
  it was live and its owner is the token's \<open>sub\<close>; a record that appears is live and owned by the
  token's \<open>sub\<close>, whatever the body said. The repository stays well-formed.
\<close>

theorem writes_stay_within_owner:
  assumes "service_over memory_repository (as_crud state)"
    and "mem_inv (w_repo w)" and "mem_room (w_repo w)"
    and "serve_write rq state c claims w = (res, w')"
  shows "mem_inv (w_repo w') \<and>
    (case mem_rows (w_repo w) i of
       Some h \<Rightarrow> (\<exists>h'. mem_rows (w_repo w') i = Some h' \<and> same_identity h h' \<and>
         (h' = h \<or> (live h \<and> subject claims = Inr (h_owner_id h))))
     | None \<Rightarrow> (case mem_rows (w_repo w') i of
         Some h' \<Rightarrow> live h' \<and> subject claims = Inr (h_owner_id h') | None \<Rightarrow> True))"
  using serve_write_repo [OF assms(1,4)]
proof
  assume "w_repo w' = w_repo w"
  then show ?thesis using assms(2) by (auto split: option.splits)
next
  assume "\<exists>owner cmd rc. subject claims = Inr owner \<and> issues (hq_id (c_query c)) owner cmd rc \<and>
     w_repo w' = exec_cmd memory_repository (c_clock c) rc (w_repo w)"
  then obtain owner cmd rc where o: "subject claims = Inr owner"
      "issues (hq_id (c_query c)) owner cmd rc"
      "w_repo w' = exec_cmd memory_repository (c_clock c) rc (w_repo w)" by blast
  show ?thesis
    using mem.issued_within_owner [OF mem_selects_owner assms(2,3) o(2), of "c_clock c" i] o
    by (auto simp: within_owner_def split: option.splits)
qed

section \<open>Conditional requests\<close>

definition without_headers :: "call \<Rightarrow> call" where
  "without_headers c = c\<lparr>c_headers := []\<rparr>"

lemma without_headers_sel [simp]:
  "c_ip (without_headers c) = c_ip c" "c_query (without_headers c) = c_query c"
  "c_params (without_headers c) = c_params c" "c_headers (without_headers c) = []"
  "c_now (without_headers c) = c_now c" "c_clock (without_headers c) = c_clock c"
  by (simp_all add: without_headers_def)

lemma check_write_rate_headers: "check_write_rate state (without_headers c) = check_write_rate state c"
  by (simp add: check_write_rate_def)

lemma perform_headers: "perform state (without_headers c) = perform state c"
  by (intro ext) (simp add: perform_def Let_def split: write_cmd.split)

lemma api_perform: "ws_perform (api_steps rq state c) = perform state c"
  and api_respond: "ws_respond (api_steps rq state c) = reply (codec_for (api_of rq) state) (as_crud state)"
  and api_announce: "ws_announce (api_steps rq state c) = announcement c"
  by (simp_all add: api_steps_def steps_of_laws)

lemma query_filters_headers: "query_filters state (without_headers c) = query_filters state c"
  by (simp add: query_filters_def)

lemma announcement_headers: "announcement (without_headers c) = announcement c"
  by (intro ext) (simp add: announcement_def split: written.split update_outcome.split delete_outcome.split)

lemma api_steps_headers:
  "ws_prepare (api_steps rq state (without_headers c)) = ws_prepare (api_steps rq state c)"
  "ws_announce (api_steps rq state (without_headers c)) = ws_announce (api_steps rq state c)"
  "ws_respond (api_steps rq state (without_headers c)) = ws_respond (api_steps rq state c)"
proof -
  show "ws_prepare (api_steps rq state (without_headers c)) = ws_prepare (api_steps rq state c)"
    by (cases "decoded rq state")
      (simp_all add: api_steps_def steps_of_def create_steps_def update_steps_def delete_steps_def
        hero_write_def query_filters_headers)
qed (simp_all add: api_steps_def steps_of_laws announcement_headers)

lemma no_if_match: "\<not> contains_key [] IF_MATCH"
  by (simp add: contains_key_def header_lookup_def)

lemma api_precondition_headers:
  "ws_precondition (api_steps rq state (without_headers c)) = ok ()"
  by (cases "decoded rq state") (simp_all add: api_steps_def steps_of_def write_steps_laws
      if_match_of_def enforce_if_match_absent no_if_match)

definition is_post :: "hero_write_request \<Rightarrow> bool" where
  "is_post rq = (case rq of
       ViaJson (Post _) \<Rightarrow> True | ViaXml (Post _) \<Rightarrow> True | ViaV1 (Post _) \<Rightarrow> True
     | ViaV1Xml (Post _) \<Rightarrow> True | _ \<Rightarrow> False)"

lemma decoded_post: "is_post rq \<longleftrightarrow> (\<exists>body. decoded rq state = Post body)"
  by (cases rq; rename_tac b; case_tac b) (simp_all add: is_post_def)

lemma api_precondition:
  "ws_precondition (api_steps rq state c) = (if is_post rq then ok () else if_match_of state c)"
  unfolding decoded_post [of rq state]
  by (cases "decoded rq state") (simp_all add: api_steps_def steps_of_def write_steps_laws)

text \<open>A run with the header is a run without it, except for the precondition.\<close>

lemma serve_write_headers:
  "serve_write rq state c claims w =
    (case check_write_rate state c w of (Inl err, w1) \<Rightarrow> (Inl err, w1) | (Inr _, w1) \<Rightarrow>
     case ws_prepare (api_steps rq state c) of
       Inl err \<Rightarrow> serve_write rq state (without_headers c) claims w
     | Inr p \<Rightarrow>
     case subject claims of Inl err \<Rightarrow> serve_write rq state (without_headers c) claims w | Inr owner \<Rightarrow>
     if \<not> has_role state claims (required_roles rq) then serve_write rq state (without_headers c) claims w
     else case ws_precondition (api_steps rq state c) w1 of
       (Inl err, w2) \<Rightarrow> (Inl err, w2)
     | (Inr _, w2) \<Rightarrow> if w2 = w1 then serve_write rq state (without_headers c) claims w
                       else serve_write rq state c claims w)"
proof -
  obtain r w1 where cw: "check_write_rate state c w = (r, w1)" by force
  show ?thesis
  proof (cases r)
    case (Inl err)
    then show ?thesis using cw api.rate_limited [of state c w err w1 rq claims] by simp
  next
    case (Inr u)
    then have ok1: "check_write_rate state c w = (Inr (), w1)" using cw by simp
    then have ok1': "check_write_rate state (without_headers c) w = (Inr (), w1)"
      by (simp add: check_write_rate_headers)
    show ?thesis
    proof (cases "has_role state claims (required_roles rq)")
      case False
      then have "role_gate state claims (ws_roles (api_steps rq state c)) = Inl (Forbidden ''Insufficient role'')"
        "role_gate state claims (ws_roles (api_steps rq state (without_headers c))) =
           Inl (Forbidden ''Insufficient role'')"
        by (simp_all add: api_steps_roles role_gate_iff)
      then show ?thesis
        using False ok1 api.forbidden [OF ok1] api.forbidden [OF ok1'] by (simp split: sum.splits)
    next
      case True
      then have g: "role_gate state claims (ws_roles (api_steps rq state c)) = Inr ()"
        "role_gate state claims (ws_roles (api_steps rq state (without_headers c))) = Inr ()"
        by (simp_all add: api_steps_roles role_gate_iff)
      show ?thesis
        using True ok1 unfolding api.passed [OF ok1 g(1)] api.passed [OF ok1' g(2)]
        by (simp add: api_steps_headers api_precondition_headers run_simps api_perform
            perform_headers split: sum.splits prod.splits)
    qed
  qed
qed

lemma serve_write_same_headers:
  assumes "\<And>w1. check_write_rate state c w = (Inr (), w1) \<Longrightarrow>
    ws_precondition (api_steps rq state c) w1 = (Inr (), w1)"
  shows "serve_write rq state c claims w = serve_write rq state (without_headers c) claims w"
proof -
  obtain r w1 where cw: "check_write_rate state c w = (r, w1)" by force
  show ?thesis
  proof (cases r)
    case (Inl err)
    then show ?thesis
      using cw api.rate_limited [of state c w err w1 rq claims]
        api.rate_limited [of state "without_headers c" w err w1 rq claims]
      by (simp add: check_write_rate_headers)
  next
    case (Inr u)
    then show ?thesis
      using serve_write_headers [of rq state c claims w] cw assms
      by (simp split: sum.splits if_splits)
  qed
qed

lemma if_match_precondition:
  assumes "\<not> is_post rq" and "hq_id (c_query c) = Some i" and "contains_key (c_headers c) IF_MATCH"
    and "ca_parse_include_archived (as_crud state) (c_params c) = Inr ia"
    and "ca_get (as_crud state) i ia (w_repo w) = (Inr (Some cur), w_repo w)"
    and "ca_check_if_match (as_crud state) (c_headers c) (ca_record_etag (as_crud state) cur) ''Hero'' = verdict"
    and "limiter_only w w1"
  shows "ws_precondition (api_steps rq state c) w1 = (map_err from_crud_error verdict, w1)"
proof -
  have "w_repo w1 = w_repo w" using assms(7) limiter_only_quiet by blast
  moreover have "w1\<lparr>w_repo := w_repo w\<rparr> = w1" if "w_repo w1 = w_repo w" using that by (cases w1) simp
  ultimately show ?thesis
    using assms(1-6)
    by (simp add: api_precondition if_match_of_def enforce_if_match_def Let_def run_simps)
qed

text \<open>
  C16. \<open>If-Match\<close> on a write of one existing record: when the header does not match the record's
  current tag the request fails, with the precondition error or with the error it would have
  had anyway, and nothing but the limiter's counter changed; when it matches, the request is
  exactly the one without the header.
\<close>

theorem if_match_guards_writes:
  assumes "reads_keep (as_crud state)" and "\<not> is_post rq" and "hq_id (c_query c) = Some i"
    and "contains_key (c_headers c) IF_MATCH"
    and "ca_parse_include_archived (as_crud state) (c_params c) = Inr ia"
    and "ca_get (as_crud state) i ia (w_repo w) = (Inr (Some cur), w_repo w)"
    and "ca_check_if_match (as_crud state) (c_headers c) (ca_record_etag (as_crud state) cur) ''Hero'' = verdict"
    and "serve_write rq state c claims w = (res, w')"
  shows "case verdict of
      Inl err \<Rightarrow> limiter_only w w' \<and> (res = Inl (from_crud_error err) \<or>
        (\<exists>e. res = Inl e \<and> fst (serve_write rq state (without_headers c) claims w) = Inl e))
    | Inr _ \<Rightarrow> serve_write rq state (without_headers c) claims w = (res, w')"
proof -
  note pre = if_match_precondition [OF assms(2-7)]
  show ?thesis
  proof (cases verdict)
    case (Inr u)
    then have "ws_precondition (api_steps rq state c) w1 = (Inr (), w1)"
      if "check_write_rate state c w = (Inr (), w1)" for w1
      using pre [OF check_write_rate_limiter [OF that]] by simp
    then show ?thesis
      using Inr serve_write_same_headers [of state c w rq claims] assms(8) by simp
  next
    case (Inl err)
    have keep: "reads_keep (as_crud state)" by (rule assms(1))
    from keep assms(8) have lim: "limiter_only w w'"
    proof (cases rule: api.runs)
      case (failed e owner p w1)
      then show ?thesis using pre [of w1] Inl by simp
    next
      case (wrote owner p out w1 w2)
      then show ?thesis using pre [of w1] Inl by simp
    qed
    obtain r w1 where cw: "check_write_rate state c w = (r, w1)" by force
    have "res = Inl (from_crud_error err) \<or>
        (\<exists>e. res = Inl e \<and> fst (serve_write rq state (without_headers c) claims w) = Inl e)"
    proof (cases r)
      case (Inl e)
      then show ?thesis
        using cw assms(8) api.rate_limited [of state c w e w1 rq claims]
          api.rate_limited [of state "without_headers c" w e w1 rq claims]
        by (auto simp add: check_write_rate_headers)
    next
      case (Inr u)
      obtain res0 w0 where s0: "serve_write rq state (without_headers c) claims w = (res0, w0)" by force
      have "(\<exists>e. res = Inl e)"
        using keep assms(8)
      proof (cases rule: api.runs)
        case (wrote owner p out w1 w2)
        then show ?thesis using pre [of w1] Inl by simp
      qed simp_all
      then show ?thesis
        using serve_write_headers [of rq state c claims w] cw Inr pre [OF check_write_rate_limiter [OF cw]]
          assms(8) Inl s0
        by (auto split: sum.splits if_splits)
    qed
    then show ?thesis using lim Inl by simp
  qed
qed

text \<open>
  \<open>If-Match\<close> is ignored where there is no one record to compare: on a create, on a bulk
  update or delete, and on a record the write cannot see; so is its absence. The request is then
  exactly the one without the header.
\<close>

theorem if_match_ignored:
  assumes "is_post rq \<or> hq_id (c_query c) = None \<or> \<not> contains_key (c_headers c) IF_MATCH \<or>
    (\<exists>i ia. hq_id (c_query c) = Some i \<and>
       ca_parse_include_archived (as_crud state) (c_params c) = Inr ia \<and>
       ca_get (as_crud state) i ia (w_repo w) = (Inr None, w_repo w))"
  shows "serve_write rq state c claims w = serve_write rq state (without_headers c) claims w"
proof (rule serve_write_same_headers)
  fix w1
  assume "check_write_rate state c w = (Inr (), w1)"
  then have "limiter_only w w1" by (rule check_write_rate_limiter)
  then have "w_repo w1 = w_repo w" "w1\<lparr>w_repo := w_repo w\<rparr> = w1"
    using limiter_only_quiet by (blast, cases w1, cases w) (simp add: limiter_only_def)
  then show "ws_precondition (api_steps rq state c) w1 = (Inr (), w1)"
    using assms
    by (auto simp: api_precondition if_match_of_def enforce_if_match_def Let_def run_simps
        split: option.splits)
qed

section \<open>A stale tag on an archived record\<close>

lemma api_prepare_kind:
  "\<not> is_post rq \<Longrightarrow> ws_prepare (api_steps rq state c) = Inr p \<Longrightarrow> \<nexists>data. p = WriteCreate data"
  unfolding decoded_post [of rq state]
  by (cases "decoded rq state")
    (auto simp: api_steps_def steps_of_def update_steps_def delete_steps_def hero_write_def and_then_r_Inr)

lemma archived_write_not_found:
  assumes so: "service_over memory_repository (as_crud state)" and inv: "mem_inv (w_repo w)"
    and row: "mem_rows (w_repo w) i = Some h" "\<not> live h" and q: "hq_id (c_query c) = Some i"
    and p: "\<nexists>data. p = WriteCreate data"
  shows "\<exists>msg w'. perform state c owner p w = (Inl (NotFound msg), w')"
proof -
  have none: "\<exists>r'. r_update memory_repository clk i owner data (w_repo w) = (Inr None, r')"
    and gone: "\<exists>r'. r_delete memory_repository clk i owner (w_repo w) = (Inr False, r')" for clk data
    using row by (simp_all add: memory_repository_def mem_update_def mem_delete_def mem_rows_def live_def)
  show ?thesis
  proof (cases p)
    case (WriteUpdate fs data)
    obtain r' where "r_update memory_repository (c_clock c) i owner data (w_repo w) = (Inr None, r')"
      using none by blast
    then show ?thesis
      using service_overD(3) [OF so, of "c_clock c" i owner data "w_repo w" fs
          "bulk_action_max_matched (as_settings state)"] q WriteUpdate
      by (auto simp: answers_one_def perform_def run_simps)
  next
    case (WriteDelete fs iu)
    obtain r' where "r_delete memory_repository (c_clock c) i owner (w_repo w) = (Inr False, r')"
      using gone by blast
    then show ?thesis
      using service_overD(6) [OF so, of "c_clock c" i owner "w_repo w" fs
          "bulk_action_max_matched (as_settings state)" iu] q WriteDelete
      by (auto simp: answers_one_def gone_or_none_def perform_def run_simps)
  qed (use p in blast)
qed

text \<open>
  The precondition is checked with the caller's \<open>include_archived\<close>, the write never sees an
  archived record: a single-record write to an archived record answers 404 without \<open>If-Match\<close>, and
  with a stale one and \<open>include_archived\<close> set it answers the precondition's error instead.
\<close>

theorem stale_tag_on_archived_record:
  assumes "service_over memory_repository (as_crud state)" and "mem_inv (w_repo w)"
    and "mem_rows (w_repo w) i = Some cur" and "\<not> live cur" and "\<not> is_post rq"
    and "hq_id (c_query c) = Some i" and "contains_key (c_headers c) IF_MATCH"
    and "ca_parse_include_archived (as_crud state) (c_params c) = Inr True"
    and "ca_get (as_crud state) i True (w_repo w) = (Inr (Some cur), w_repo w)"
    and "ca_check_if_match (as_crud state) (c_headers c) (ca_record_etag (as_crud state) cur) ''Hero'' = Inl err"
    and "check_write_rate state c w = (Inr (), w1)" and "has_role state claims (required_roles rq)"
    and "ws_prepare (api_steps rq state c) = Inr p" and "subject claims = Inr owner"
  shows "fst (serve_write rq state c claims w) = Inl (from_crud_error err) \<and>
    (\<exists>msg. fst (serve_write rq state (without_headers c) claims w) = Inl (NotFound msg))"
proof -
  have lim: "limiter_only w w1" by (rule check_write_rate_limiter [OF assms(11)])
  then have repo: "w_repo w1 = w_repo w" using limiter_only_quiet by blast
  have same: "w1\<lparr>w_repo := w_repo w\<rparr> = w1" using repo by (cases w1) simp
  have ok1': "check_write_rate state (without_headers c) w = (Inr (), w1)"
    using assms(11) by (simp add: check_write_rate_headers)
  have g: "role_gate state claims (ws_roles (api_steps rq state c)) = Inr ()"
    "role_gate state claims (ws_roles (api_steps rq state (without_headers c))) = Inr ()"
    using assms(12) by (simp_all add: api_steps_roles role_gate_iff)
  have "ws_precondition (api_steps rq state c) w1 = (Inl (from_crud_error err), w1)"
    using assms(5-10) repo same
    by (simp add: api_precondition if_match_of_def enforce_if_match_def Let_def run_simps)
  then have "fst (serve_write rq state c claims w) = Inl (from_crud_error err)"
    unfolding api.passed [OF assms(11) g(1)] using assms(13,14) by simp
  moreover obtain msg w2 where "perform state c owner p w1 = (Inl (NotFound msg), w2)"
    using archived_write_not_found [OF assms(1) _ _ assms(4,6) api_prepare_kind [OF assms(5,13)], of w1 owner]
      assms(2,3) repo by auto
  then have "fst (serve_write rq state (without_headers c) claims w) = Inl (NotFound msg)"
    unfolding api.passed [OF ok1' g(2)] using assms(13,14)
    by (simp add: api_steps_headers api_precondition_headers run_simps api_perform perform_headers)
  ultimately show ?thesis by blast
qed

section \<open>Witnesses\<close>

lemma sample_get_archived:
  "ca_get sample_crud 2 True sample_repo = (Inr (Some (sample_hero 2 ''Vapor'' ''bob'' (Some 20))), sample_repo)"
  by (simp add: sample_crud_eq mem_get_def sample_repo_def)

lemma sample_get_live:
  "ca_get sample_crud 1 False sample_repo = (Inr (Some (sample_hero 1 ''Spectra'' ''alice'' None)), sample_repo)"
  by (simp add: sample_crud_eq mem_get_def sample_repo_def sample_hero_def)

definition stale :: request_headers where
  "stale = [(IF_MATCH, Visible ''old'')]"

lemma stale_sel: "contains_key stale IF_MATCH" "header_str stale IF_MATCH = Some ''old''"
  by (simp_all add: contains_key_def header_str_def header_lookup_def stale_def IF_MATCH_def
      to_lowercase_def char_lower_def code_def)

lemma sample_tag_stale: "sample_tag h \<noteq> ''old''"
  by (simp add: sample_tag_def)

lemma sample_stale: "ca_check_if_match sample_crud stale (ca_record_etag sample_crud h) ''Hero'' =
    Inl (CrudPreconditionFailed ''Hero was modified since the supplied If-Match'')"
  using sample_tag_stale [of h] by (simp add: sample_crud_eq stale_sel)

lemma sample_include_archived: "ca_parse_include_archived sample_crud [(''include_archived'', ''true'')] = Inr True"
  "ca_parse_include_archived sample_crud [] = Inr False"
  by (simp_all add: sample_crud_eq param_flag_def)

lemma sample_world_sel [simp]: "w_repo sample_world = sample_repo" "w_events sample_world = []"
  "w_tracked sample_world = []"
  by (simp_all add: sample_world_def)

lemma sample_role: "has_role sample_state (sample_claims sub role) roles \<longleftrightarrow> role \<in> set roles"
  by (auto simp: has_role_def sample_claims_roles)

lemma sample_prepare_delete: "ws_prepare (api_steps (ViaJson Remove) sample_state (sample_call (Some i) ps hs)) =
    (if param_flag ps ''only_archived'' then Inl (UnprocessableEntity [FieldError ''only_archived'' ''not allowed''])
     else Inr (WriteDelete (name_filters ps) True))"
  by (simp add: api_steps_def steps_of_def delete_steps_def hero_write_def query_filters_def sample_crud_eq)

theorem stale_tag_on_archived_record_witness:
  "fst (serve_write (ViaJson Remove) sample_state
      (sample_call (Some 2) [(''include_archived'', ''true'')] stale) (sample_claims ''bob'' ''maintainer'') sample_world) =
     Inl (PreconditionFailed ''Hero was modified since the supplied If-Match'') \<and>
   (\<exists>msg. fst (serve_write (ViaJson Remove) sample_state
      (without_headers (sample_call (Some 2) [(''include_archived'', ''true'')] stale))
      (sample_claims ''bob'' ''maintainer'') sample_world) = Inl (NotFound msg))"
proof -
  obtain l where l: "check_write_rate sample_state (sample_call (Some 2) [(''include_archived'', ''true'')] stale)
      sample_world = (Inr (), sample_world\<lparr>w_limiter := l\<rparr>)" using sample_check by blast
  have d: "required_roles (ViaJson Remove) = [''maintainer'']"
    by (simp add: required_roles_def HERO_DELETE_ROLES_def)
  have p: "ws_prepare (api_steps (ViaJson Remove) sample_state
      (sample_call (Some 2) [(''include_archived'', ''true'')] stale)) = Inr (WriteDelete [] True)"
    by (simp add: sample_prepare_delete param_flag_def name_filters_def)
  show ?thesis
    using stale_tag_on_archived_record [of sample_state sample_world 2 "sample_hero 2 ''Vapor'' ''bob'' (Some 20)"
        "ViaJson Remove" "sample_call (Some 2) [(''include_archived'', ''true'')] stale"
        "CrudPreconditionFailed ''Hero was modified since the supplied If-Match''"
        "sample_world\<lparr>w_limiter := l\<rparr>" "sample_claims ''bob'' ''maintainer''" "WriteDelete [] True" "''bob''"]
    by (simp add: sample_service sample_repo_ok sample_repo_rows live_def sample_hero_def [of 2] is_post_def
        stale_sel sample_include_archived sample_get_archived [simplified sample_hero_def] sample_stale l
        sample_role d p sample_claims_subject)
qed

text \<open>A deletion by its owner, run to its end.\<close>

lemma sample_deletion:
  "\<exists>w'. serve_write (ViaJson Remove) sample_state (sample_call (Some 1) [] [])
      (sample_claims ''alice'' ''maintainer'') sample_world = (Inr (status_response 204), w') \<and>
    w_events w' = [\<lparr>ev_resource = ''heroes'', ev_action = Delete, ev_ids = [1]\<rparr>] \<and>
    mem_rows (w_repo w') 1 = Some ((sample_hero 1 ''Spectra'' ''alice'' None)
      \<lparr>h_archived_at := Some 30, h_updated_at := 30\<rparr>)"
proof -
  let ?c = "sample_call (Some 1) [] []"
  let ?h = "(sample_hero 1 ''Spectra'' ''alice'' None)\<lparr>h_archived_at := Some 30, h_updated_at := 30\<rparr>"
  obtain l where l: "check_write_rate sample_state ?c sample_world = (Inr (), sample_world\<lparr>w_limiter := l\<rparr>)"
    using sample_check by blast
  have g: "role_gate sample_state (sample_claims ''alice'' ''maintainer'')
      (ws_roles (api_steps (ViaJson Remove) sample_state ?c)) = Inr ()"
    by (simp add: api_steps_roles role_gate_iff sample_role required_roles_def HERO_DELETE_ROLES_def)
  have pre: "ws_precondition (api_steps (ViaJson Remove) sample_state ?c) = ok ()"
    by (simp add: api_precondition is_post_def if_match_of_def enforce_if_match_absent no_if_match)
  have op: "ca_resolve_delete sample_crud (\<lambda>n. 30) (Some 1) ''alice'' fs mx iu sample_repo =
      (Inr DeletedOne, sample_repo\<lparr>records := [(1, ?h), (2, sample_hero 2 ''Vapor'' ''bob'' (Some 20))]\<rparr>)"
    for fs mx iu
    by (simp add: sample_crud_eq one_answer_def gone_or_none_def mem_delete_def sample_repo_def sample_hero_def)
  have clk: "c_clock ?c = (\<lambda>n. 30)" by (simp add: sample_call_def)
  have run: "perform sample_state ?c ''alice'' (WriteDelete [] True) (sample_world\<lparr>w_limiter := l\<rparr>) =
      (Inr (Deleted DeletedOne), sample_world\<lparr>w_limiter := l,
         w_repo := sample_repo\<lparr>records := [(1, ?h), (2, sample_hero 2 ''Vapor'' ''bob'' (Some 20))]\<rparr>\<rparr>)"
    by (simp add: perform_def run_simps clk op del: fst_conv) (simp add: op ok_run)
  have p: "ws_prepare (api_steps (ViaJson Remove) sample_state ?c) = Inr (WriteDelete [] True)"
    by (simp add: sample_prepare_delete param_flag_def name_filters_def)
  show ?thesis
    unfolding api.passed [OF l g]
    by (simp add: p sample_claims_subject pre run_simps api_perform api_respond api_announce run reply_def
        announcement_def HERO_EVENT_RESOURCE_def mem_rows_def json_codec_def)
qed

theorem write_announced_once_witness:
  "\<exists>w'. serve_write (ViaJson Remove) sample_state (sample_call (Some 1) [] [])
      (sample_claims ''alice'' ''maintainer'') sample_world = (Inr (status_response 204), w') \<and>
    w_tracked w' = [\<lparr>tr_name = ''hero.deleted'', tr_props = [], tr_url = HERO_URL\<rparr>]"
proof -
  obtain w' where run: "serve_write (ViaJson Remove) sample_state (sample_call (Some 1) [] [])
      (sample_claims ''alice'' ''maintainer'') sample_world = (Inr (status_response 204), w')"
    and ev: "w_events w' = [\<lparr>ev_resource = ''heroes'', ev_action = Delete, ev_ids = [1]\<rparr>]"
    using sample_deletion by blast
  have "reads_keep (as_crud sample_state)" by (simp add: sample_reads_keep)
  from write_announced_once [OF this run] ev obtain out where
    "fst (announcement (sample_call (Some 1) [] []) out) = Delete"
    "w_tracked w' = tracked_by json_codec out"
    "Inr (status_response 204) = reply json_codec sample_crud out"
    by (auto simp: quiet_def prod_eq_iff eq_commute [of Delete])
  moreover from this have "out = Deleted DeletedOne"
    by (auto simp: announcement_def split: written.splits update_outcome.splits delete_outcome.splits)
  ultimately show ?thesis using run by (simp add: tracked_by_def json_codec_def)
qed

theorem writes_stay_within_owner_witness:
  "\<exists>res w'. serve_write (ViaJson Remove) sample_state (sample_call (Some 1) [] [])
      (sample_claims ''alice'' ''maintainer'') sample_world = (res, w') \<and>
    mem_rows (w_repo w') 2 = Some (sample_hero 2 ''Vapor'' ''bob'' (Some 20))"
proof -
  obtain w' where run: "serve_write (ViaJson Remove) sample_state (sample_call (Some 1) [] [])
      (sample_claims ''alice'' ''maintainer'') sample_world = (Inr (status_response 204), w')"
    using sample_deletion by blast
  have "service_over memory_repository (as_crud sample_state)" "mem_inv (w_repo sample_world)"
      "mem_room (w_repo sample_world)"
    by (simp_all add: sample_service sample_repo_ok)
  from writes_stay_within_owner [OF this run, of 2] sample_repo_rows(2)
  have "mem_rows (w_repo w') 2 = Some (sample_hero 2 ''Vapor'' ''bob'' (Some 20))"
    by (auto simp: live_def sample_hero_def)
  with run show ?thesis by blast
qed

theorem if_match_guards_writes_witness:
  "\<exists>res w'. serve_write (ViaJson Remove) sample_state (sample_call (Some 1) [] stale)
      (sample_claims ''alice'' ''maintainer'') sample_world = (res, w') \<and> w_repo w' = sample_repo \<and>
    w_events w' = []"
proof -
  obtain res w' where run: "serve_write (ViaJson Remove) sample_state (sample_call (Some 1) [] stale)
      (sample_claims ''alice'' ''maintainer'') sample_world = (res, w')" by force
  have "limiter_only sample_world w'"
    using if_match_guards_writes [of sample_state "ViaJson Remove" "sample_call (Some 1) [] stale" 1 False
        sample_world "sample_hero 1 ''Spectra'' ''alice'' None"
        "Inl (CrudPreconditionFailed ''Hero was modified since the supplied If-Match'')"
        "sample_claims ''alice'' ''maintainer''" res w'] run
    by (simp add: sample_reads_keep is_post_def stale_sel sample_include_archived sample_get_live sample_stale)
  then have "w_repo w' = sample_repo" "w_events w' = []"
    using limiter_only_quiet [of sample_world w'] by (simp_all add: quiet_def)
  with run show ?thesis by blast
qed

theorem if_match_ignored_witness:
  "serve_write (ViaJson Remove) sample_state (sample_call None [(''name'', ''Spectra'')] stale)
      (sample_claims ''alice'' ''maintainer'') sample_world =
   serve_write (ViaJson Remove) sample_state
      (without_headers (sample_call None [(''name'', ''Spectra'')] stale))
      (sample_claims ''alice'' ''maintainer'') sample_world \<and> contains_key stale IF_MATCH"
  using if_match_ignored [of "ViaJson Remove" "sample_call None [(''name'', ''Spectra'')] stale" sample_state
      sample_world "sample_claims ''alice'' ''maintainer''"]
  by (simp add: stale_sel)

end
