(* ===== verification/Generic_Controllers.thy ===== *)
theory Generic_Controllers
  imports Heroes_Routes
begin

text \<open>
  \<open>src/generic/controllers/audit.rs\<close> and \<open>mock.rs\<close>: the audit endpoint, and the endpoint of mock
  mode that mints tokens. \<open>jwt_encode\<close> is jsonwebtoken's \<open>encode\<close> with the mock key.
\<close>

section \<open>Audit\<close>

definition AUDIT_ROLES :: "string list" where
  "AUDIT_ROLES = [''security'', ''detective'']"

record audit_response =
  ar_subject :: string
  ar_roles :: "string list"

definition audit_json :: "audit_response \<Rightarrow> json" where
  "audit_json self = JObj [(''subject'', JStr (ar_subject self)), (''roles'', json_strs (ar_roles self))]"

definition audit :: "settings \<Rightarrow> claims \<Rightarrow> app_error + response" where
  "audit settings claims =
     and_then_r (require_any_role claims (oidc_client_id settings) AUDIT_ROLES) (\<lambda>_.
     and_then_r (subject claims) (\<lambda>subject.
     let roles = granted_roles claims (oidc_client_id settings) in
     Inr (json_response 200 (audit_json \<lparr>ar_subject = subject, ar_roles = roles\<rparr>))))"

section \<open>Mock tokens\<close>

definition MOCK_TOKEN_RATE_SCOPE :: string where
  "MOCK_TOKEN_RATE_SCOPE = ''mock-token''"

record mock_token_request =
  mt_sub :: string
  mt_roles :: "string list"

definition mock_token_response :: "string \<Rightarrow> json" where
  "mock_token_response access_token = JObj [(''access_token'', JStr access_token)]"

definition mock_claims :: "settings \<Rightarrow> mock_token_request \<Rightarrow> claims" where
  "mock_claims settings payload =
     (let resource_access = [(oidc_client_id settings, JObj [(''roles'', json_strs (mt_roles payload))])] in
      JObj [(''sub'', JStr (mt_sub payload)), (''preferred_username'', JStr (mt_sub payload)),
            (''resource_access'', JObj resource_access)])"

definition mint_token :: "('r, 'l, 'sc) app_state \<Rightarrow> (json \<Rightarrow> string + string) \<Rightarrow> nat \<Rightarrow> string \<Rightarrow>
    mock_token_request \<Rightarrow> ('r, 'l, response) handler" where
  "mint_token state jwt_encode now ip payload =
     and_then (on_limiter (check (as_redis state) now MOCK_TOKEN_RATE_SCOPE ip
       (rate_limit_mock_token_per_minute (as_settings state)) 60)) (\<lambda>_.
     let claims = mock_claims (as_settings state) payload in
     and_then (lift (map_err Internal (jwt_encode claims))) (\<lambda>token.
     ok (json_response 200 (mock_token_response token))))"

section \<open>A minted token is a login\<close>

text \<open>
  jsonwebtoken documents \<open>encode\<close>: the compact serialization, three segments of the base64url
  alphabet, the middle one the claims' JSON.
\<close>

definition encodes_compact :: "('ks, 'k, 'd) oidc_crates \<Rightarrow> (json \<Rightarrow> string + string) \<Rightarrow> bool" where
  "encodes_compact crates jwt_encode \<longleftrightarrow>
     (\<forall>claims token. jwt_encode claims = Inr token \<longrightarrow>
        (\<exists>header payload signature payload_bytes. token = header @ ''.'' @ payload @ ''.'' @ signature \<and>
           CHR ''.'' \<notin> set header \<and> CHR ''.'' \<notin> set payload \<and>
           url_safe_no_pad_decode crates payload = Some payload_bytes \<and>
           json_from_slice crates payload_bytes = Some claims))"

lemma mock_claims_subject: "subject (mock_claims settings payload) = Inr (mt_sub payload)"
  by (simp add: subject_def mock_claims_def Let_def)

lemma filter_map_strs: "filter_map as_str (map JStr ss) = ss"
  by (induction ss) (simp_all add: filter_map_def)

lemma mock_claims_roles: "granted_roles (mock_claims settings payload) (oidc_client_id settings) = mt_roles payload"
  by (simp add: granted_roles_def mock_claims_def Let_def json_strs_def filter_map_strs)

lemma decode_compact:
  assumes "encodes_compact crates jwt_encode" and "jwt_encode claims = Inr token"
  shows "decode_without_verification crates token = Some claims"
proof -
  obtain header payload signature payload_bytes where t: "token = header @ ''.'' @ payload @ ''.'' @ signature"
      "CHR ''.'' \<notin> set header" "CHR ''.'' \<notin> set payload"
      "url_safe_no_pad_decode crates payload = Some payload_bytes"
      "json_from_slice crates payload_bytes = Some claims"
    using assms unfolding encodes_compact_def by blast
  have "split_on (CHR ''.'') token = header # payload # split_on (CHR ''.'') signature"
    using split_on_append_sep [OF t(2), of "payload @ ''.'' @ signature"]
      split_on_append_sep [OF t(3), of signature] t(1) by simp
  then show ?thesis using t(4,5) by (simp add: decode_without_verification_def)
qed

lemma mint_token_Inr:
  assumes "mint_token state jwt_encode now ip payload w = (Inr resp, w')"
  obtains token where "jwt_encode (mock_claims (as_settings state) payload) = Inr token"
    "resp = json_response 200 (mock_token_response token)"
  using assms
  by (cases "jwt_encode (mock_claims (as_settings state) payload)")
    (auto simp: mint_token_def run_simps Let_def split: sum.splits prod.splits)

text \<open>
  C29. In mock mode a minted token logs in: presented as a bearer token it is accepted by the
  extractor, with the requested subject and exactly the requested roles under this application's
  client, leaving the key cache alone; and the audit endpoint serves that caller exactly when
  one of the roles is an audit role, answering the subject and the roles back.
\<close>

theorem minted_token_logs_in:
  assumes "encodes_compact crates jwt_encode" and "mode_of (ov_settings self) = MockMode"
    and "ov_settings self = as_settings state"
    and "mint_token state jwt_encode now ip payload w = (Inr resp, w')"
  shows "\<exists>token claims. r_body resp = JsonBody (JObj [(''access_token'', JStr token)]) \<and>
    from_request_parts crates self t1 t2 (bearer_headers token) cache = (Inr claims, cache) \<and>
    subject claims = Inr (mt_sub payload) \<and>
    granted_roles claims (oidc_client_id (as_settings state)) = mt_roles payload \<and>
    audit (as_settings state) claims =
      (if set (mt_roles payload) \<inter> {''security'', ''detective''} = {} then Inl (Forbidden ''Insufficient role'')
       else Inr (json_response 200 (JObj [(''subject'', JStr (mt_sub payload)),
         (''roles'', json_strs (mt_roles payload))])))"
proof -
  let ?claims = "mock_claims (as_settings state) payload"
  obtain token where t: "jwt_encode ?claims = Inr token" "resp = json_response 200 (mock_token_response token)"
    using assms(4) by (rule mint_token_Inr)
  have "from_request_parts crates self t1 t2 (bearer_headers token) cache = (Inr ?claims, cache)"
    using assms(2) decode_compact [OF assms(1) t(1)]
    by (simp add: from_request_parts_token decode_bearer_token_def run_simps)
  moreover have "r_body resp = JsonBody (JObj [(''access_token'', JStr token)])"
    by (simp add: t(2) json_response_def mock_token_response_def)
  moreover have "audit (as_settings state) ?claims =
      (if set (mt_roles payload) \<inter> {''security'', ''detective''} = {} then Inl (Forbidden ''Insufficient role'')
       else Inr (json_response 200 (JObj [(''subject'', JStr (mt_sub payload)),
         (''roles'', json_strs (mt_roles payload))])))"
    by (auto simp: audit_def require_any_role_iff mock_claims_roles mock_claims_subject AUDIT_ROLES_def audit_json_def)
  ultimately show ?thesis using mock_claims_subject mock_claims_roles by blast
qed

section \<open>A witness\<close>

definition sample_mock_state :: "(hero_memory, sample_server, bool) app_state" where
  "sample_mock_state = sample_state\<lparr>as_settings := sample_settings MockMode\<rparr>"

definition sample_payload :: mock_token_request where
  "sample_payload = \<lparr>mt_sub = ''alice'', mt_roles = [''detective'']\<rparr>"

definition mint_sample_crates :: "(string list, string, string) oidc_crates" where
  "mint_sample_crates = sample_oidc_crates
     \<lparr>json_from_slice := (\<lambda>_. Some (mock_claims (sample_settings MockMode) sample_payload))\<rparr>"

definition mint_sample_encode :: "json \<Rightarrow> string + string" where
  "mint_sample_encode claims =
     (if claims = mock_claims (sample_settings MockMode) sample_payload then Inr ''h.p.s'' else Inl ''unsupported'')"

lemma mint_sample_compact: "encodes_compact mint_sample_crates mint_sample_encode"
  unfolding encodes_compact_def
proof (intro allI impI)
  fix claims token
  assume "mint_sample_encode claims = Inr token"
  then have "claims = mock_claims (sample_settings MockMode) sample_payload" "token = ''h.p.s''"
    by (auto simp: mint_sample_encode_def split: if_splits)
  then show "\<exists>header payload signature payload_bytes. token = header @ ''.'' @ payload @ ''.'' @ signature \<and>
      CHR ''.'' \<notin> set header \<and> CHR ''.'' \<notin> set payload \<and>
      url_safe_no_pad_decode mint_sample_crates payload = Some payload_bytes \<and>
      json_from_slice mint_sample_crates payload_bytes = Some claims"
    by (intro exI [where x = "''h''"] exI [where x = "''p''"] exI [where x = "''s''"])
      (simp add: mint_sample_crates_def sample_oidc_crates_def)
qed

lemma sample_mint:
  "\<exists>resp w. mint_token sample_mock_state mint_sample_encode 5 ''10.0.0.1'' sample_payload sample_world = (Inr resp, w)"
  by (simp add: mint_token_def run_simps sample_mock_state_def mint_sample_encode_def check_def count_hit_def
      mock_count_def sample_world_def nanos_def word_less_def Let_def sample_settings_def)

theorem minted_token_logs_in_witness:
  "\<exists>resp w token claims. mint_token sample_mock_state mint_sample_encode 5 ''10.0.0.1'' sample_payload sample_world =
      (Inr resp, w) \<and>
     r_body resp = JsonBody (JObj [(''access_token'', JStr token)]) \<and>
     from_request_parts mint_sample_crates (sample_verifier MockMode) 6 7 (bearer_headers token) None = (Inr claims, None) \<and>
     granted_roles claims ''api'' = [''detective'']"
proof -
  obtain resp w where run: "mint_token sample_mock_state mint_sample_encode 5 ''10.0.0.1'' sample_payload sample_world =
      (Inr resp, w)" using sample_mint by blast
  have "mode_of (ov_settings (sample_verifier MockMode)) = MockMode"
      "ov_settings (sample_verifier MockMode) = as_settings sample_mock_state"
    by (simp_all add: sample_verifier_def verifier_new_def with_resource_server_def sample_settings_def
        sample_mock_state_def)
  from minted_token_logs_in [OF mint_sample_compact this run, of 6 7 None] run
  show ?thesis by (auto simp: sample_mock_state_def sample_payload_def)
qed

end
