(* ===== verification/Heroes_Siblings.thy ===== *)
theory Heroes_Siblings
  imports Heroes_Routes
begin

text \<open>
  The four Hero routers against each other: the same request by two of them does the same to
  the repository, the limiter and the event bus and answers with the same status, whatever the
  representation; what sets the deprecated version 1 apart is its sunset headers.
\<close>

section \<open>Statuses\<close>

text \<open>The status of a handler's result, errors rendered by \<open>AppError::into_response\<close>.\<close>

definition http_status :: "app_error + response \<Rightarrow> nat" where
  "http_status r = (case r of Inl e \<Rightarrow> status_of e | Inr resp \<Rightarrow> r_status resp)"

definition encode_failed :: "app_error + response \<Rightarrow> bool" where
  "encode_failed r \<longleftrightarrow> (\<exists>err. r = Inl (Internal (''xml encode: '' @ err)))"

fun written_status :: "written \<Rightarrow> nat" where
  "written_status (Created _) = 201"
| "written_status (Updated _) = 200"
| "written_status (Deleted DeletedOne) = 204"
| "written_status (Deleted (DeletedBulk _)) = 200"

text \<open>A codec renders with status 200, or fails to encode, and its wrapper keeps the status.\<close>

definition codec_ok :: "codec \<Rightarrow> bool" where
  "codec_ok cd \<longleftrightarrow>
     (\<forall>h. http_status (cd_one cd h) = 200 \<or> encode_failed (cd_one cd h)) \<and>
     (\<forall>hs. http_status (cd_many cd hs) = 200 \<or> encode_failed (cd_many cd hs)) \<and>
     (\<forall>b. http_status (cd_bulk_updated cd b) = 200 \<or> encode_failed (cd_bulk_updated cd b)) \<and>
     (\<forall>b. http_status (cd_bulk_deleted cd b) = 200 \<or> encode_failed (cd_bulk_deleted cd b)) \<and>
     (\<forall>r. r_status (cd_wrap cd r) = r_status r)"

lemma codec_okI:
  assumes "\<And>h. http_status (cd_one cd h) = 200 \<or> encode_failed (cd_one cd h)"
    and "\<And>hs. http_status (cd_many cd hs) = 200 \<or> encode_failed (cd_many cd hs)"
    and "\<And>b. http_status (cd_bulk_updated cd b) = 200 \<or> encode_failed (cd_bulk_updated cd b)"
    and "\<And>b. http_status (cd_bulk_deleted cd b) = 200 \<or> encode_failed (cd_bulk_deleted cd b)"
    and "\<And>r. r_status (cd_wrap cd r) = r_status r"
  shows "codec_ok cd"
  using assms by (simp add: codec_ok_def)

lemma json_http_status [simp]: "http_status (Inr (json_response st j)) = st"
  by (simp add: http_status_def json_response_def)

lemma text_status [simp]: "r_status (text_response st ct b) = st"
  by (simp add: text_response_def)

lemma xml_http_status:
  "http_status (xml_response xml root j) = 200 \<or> encode_failed (xml_response xml root j)"
  "http_status (xml_response_v1 xml root j) = 200 \<or> encode_failed (xml_response_v1 xml root j)"
  by (cases "xa_to_string_with_root xml root j";
      auto simp: xml_response_def xml_response_v1_def http_status_def encode_failed_def)+

lemma codec_for_ok: "codec_ok (codec_for rt state)"
proof (cases rt)
  case JsonV2
  then show ?thesis by (auto intro!: codec_okI simp: json_codec_def)
next
  case XmlV2
  then show ?thesis by (simp, intro codec_okI) (simp_all add: xml_codec_def xml_http_status)
next
  case JsonV1
  then show ?thesis by (auto intro!: codec_okI simp: v1_codec_def with_sunset_v1_def)
next
  case XmlV1
  then show ?thesis by (simp, intro codec_okI) (simp_all add: v1xml_codec_def xml_http_status with_sunset_v1_xml_def)
qed

lemma render_status:
  assumes "codec_ok cd" and "http_status r = 200 \<or> encode_failed r"
    and "\<And>resp. r_status (f resp) = st \<or> (r_status (f resp) = r_status resp \<and> st = 200)"
  shows "http_status (render cd f r) = st \<or> encode_failed (render cd f r)"
proof (cases r)
  case (Inl e)
  have "status_of e \<noteq> 200" by (cases e) simp_all
  with Inl assms(2) show ?thesis by (simp add: render_def http_status_def)
next
  case (Inr resp)
  then have "r_status resp = 200" using assms(2) by (simp add: http_status_def encode_failed_def)
  moreover have "render cd f r = Inr (cd_wrap cd (f resp))" using Inr by (simp add: render_def)
  moreover have "r_status (cd_wrap cd (f resp)) = r_status (f resp)" using assms(1) by (simp add: codec_ok_def)
  ultimately show ?thesis using assms(3) [of resp] by (auto simp: http_status_def)
qed

lemma reply_status:
  assumes "codec_ok cd"
  shows "http_status (reply cd crud out) = written_status out \<or> encode_failed (reply cd crud out)"
proof -
  have one: "http_status (cd_one cd h) = 200 \<or> encode_failed (cd_one cd h)"
    and bu: "http_status (cd_bulk_updated cd b) = 200 \<or> encode_failed (cd_bulk_updated cd b)"
    and bd: "http_status (cd_bulk_deleted cd b) = 200 \<or> encode_failed (cd_bulk_deleted cd b)" for h b
    using assms by (simp_all add: codec_ok_def)
  consider h where "out = Created h" | h where "out = Updated (UpdatedOne h)"
    | b where "out = Updated (UpdatedBulk b)" | "out = Deleted DeletedOne"
    | b where "out = Deleted (DeletedBulk b)"
    by (metis delete_outcome.exhaust update_outcome.exhaust written.exhaust)
  then show ?thesis
  proof cases
    case (1 h)
    then show ?thesis using render_status [OF assms one, where f = "with_status 201" and st = 201] by (simp add: reply_def)
  next
    case (2 h)
    then show ?thesis
      using render_status [OF assms one, where f = "with_headers [(ETAG, ca_record_etag crud h)]" and st = 200]
      by (simp add: reply_def)
  next
    case (3 b)
    then show ?thesis using render_status [OF assms bu, where f = "\<lambda>r. r" and st = 200] by (simp add: reply_def)
  next
    case 4
    then show ?thesis using assms by (simp add: reply_def http_status_def codec_ok_def status_response_def)
  next
    case (5 b)
    then show ?thesis using render_status [OF assms bd, where f = "\<lambda>r. r" and st = 200] by (simp add: reply_def)
  qed
qed

section \<open>The same request by two routers\<close>

text \<open>Two decoded bodies ask for the same, or are both refused with the same status.\<close>

definition body_agrees :: "app_error + 'a \<Rightarrow> app_error + 'a \<Rightarrow> bool" where
  "body_agrees a b = (case (a, b) of
       (Inr x, Inr y) \<Rightarrow> x = y | (Inl e, Inl e') \<Rightarrow> status_of e = status_of e' | _ \<Rightarrow> False)"

fun same_request :: "(app_error + hero_create, app_error + hero_update) write_body \<Rightarrow>
    (app_error + hero_create, app_error + hero_update) write_body \<Rightarrow> bool" where
  "same_request (Post a) (Post b) = body_agrees a b"
| "same_request (Patch a) (Patch b) = body_agrees a b"
| "same_request Remove Remove = True"
| "same_request _ _ = False"

definition same_effect :: "('r, 'l) world \<Rightarrow> ('r, 'l) world \<Rightarrow> bool" where
  "same_effect w w' \<longleftrightarrow> w_repo w = w_repo w' \<and> w_limiter w = w_limiter w' \<and> w_events w = w_events w'"

fun is_xml :: "hero_api \<Rightarrow> bool" where
  "is_xml XmlV2 = True"
| "is_xml XmlV1 = True"
| "is_xml _ = False"

lemma json_never_fails: "\<not> is_xml rt \<Longrightarrow> \<not> encode_failed (reply (codec_for rt state) crud out)"
  by (cases rt) (auto simp: reply_def render_def encode_failed_def json_codec_def v1_codec_def
      split: written.splits update_outcome.splits delete_outcome.splits)

lemma same_effect_refl [simp]: "same_effect w w"
  by (simp add: same_effect_def)

lemma same_request_steps:
  assumes "same_request (decoded rq state) (decoded rq' state)"
  shows "required_roles rq = required_roles rq'"
    and "ws_precondition (api_steps rq state c) = ws_precondition (api_steps rq' state c)"
    and "body_agrees (ws_prepare (api_steps rq state c)) (ws_prepare (api_steps rq' state c))"
proof -
  obtain d d' where d: "decoded rq state = d" "decoded rq' state = d'" by blast
  have "ws_roles (steps_of cd d state c) = ws_roles (steps_of cd' d' state c) \<and>
      ws_precondition (steps_of cd d state c) = ws_precondition (steps_of cd' d' state c)" for cd cd'
    using assms unfolding d by (cases d; cases d') (simp_all add: steps_of_def write_steps_laws)
  moreover have "body_agrees (ws_prepare (steps_of cd d state c)) (ws_prepare (steps_of cd' d' state c))"
    for cd cd'
    using assms unfolding d
    by (cases d; cases d')
      (auto simp: steps_of_def create_steps_def update_steps_def delete_steps_def hero_write_def
        body_agrees_def and_then_r_def split: sum.splits)
  ultimately show "required_roles rq = required_roles rq'"
      "ws_precondition (api_steps rq state c) = ws_precondition (api_steps rq' state c)"
      "body_agrees (ws_prepare (api_steps rq state c)) (ws_prepare (api_steps rq' state c))"
    by (simp_all add: api_steps_def d flip: api_steps_roles [of _ state c])
qed

lemma serve_write_same:
  assumes "same_request (decoded rq state) (decoded rq' state)"
    and "serve_write rq state c claims w = (res, w1)"
    and "serve_write rq' state c claims w = (res', w1')"
  shows "same_effect w1 w1' \<and> (http_status res = http_status res' \<or>
    (is_xml (api_of rq) \<and> encode_failed res) \<or> (is_xml (api_of rq') \<and> encode_failed res'))"
proof -
  note same = same_request_steps(1) [OF assms(1)] same_request_steps(2,3) [OF assms(1), of c]
  obtain r v where cw: "check_write_rate state c w = (r, v)" by force
  show ?thesis
  proof (cases r)
    case (Inl err)
    then show ?thesis
      using cw assms(2,3) api.rate_limited [of state c w err v rq claims]
        api.rate_limited [of state c w err v rq' claims] by simp
  next
    case (Inr u)
    then have ok1: "check_write_rate state c w = (Inr (), v)" using cw by simp
    show ?thesis
    proof (cases "has_role state claims (required_roles rq)")
      case False
      then show ?thesis
        using assms(2,3) api.forbidden [OF ok1, of claims rq] api.forbidden [OF ok1, of claims rq'] same(1)
        by (simp add: api_steps_roles role_gate_iff)
    next
      case True
      then have g: "role_gate state claims (ws_roles (api_steps rq state c)) = Inr ()"
        "role_gate state claims (ws_roles (api_steps rq' state c)) = Inr ()"
        using same(1) by (simp_all add: api_steps_roles role_gate_iff)
      have reply: "http_status (reply (codec_for (api_of rq) state) (as_crud state) out) =
            http_status (reply (codec_for (api_of rq') state) (as_crud state) out) \<or>
          (is_xml (api_of rq) \<and> encode_failed (reply (codec_for (api_of rq) state) (as_crud state) out)) \<or>
          (is_xml (api_of rq') \<and> encode_failed (reply (codec_for (api_of rq') state) (as_crud state) out))" for out
        using reply_status [OF codec_for_ok] json_never_fails by metis
      show ?thesis
        using assms(2,3) same(3) reply
        unfolding api.passed [OF ok1 g(1)] api.passed [OF ok1 g(2)] same(2)
        by (auto simp: body_agrees_def api_perform api_respond api_announce same_effect_def
            http_status_def [of "Inl e" for e] split: sum.splits prod.splits)
    qed
  qed
qed

text \<open>
  C13. Two routers that decode the same request, whatever the representation and version, leave
  the same repository, limiter and events and answer with the same status, unless an XML
  response could not be encoded.
\<close>

theorem siblings_same_effect:
  assumes "same_request (decoded rq state) (decoded rq' state)"
    and "serve_write rq state c claims w = (res, w1)"
    and "serve_write rq' state c claims w = (res', w1')"
  shows "w_repo w1 = w_repo w1' \<and> w_limiter w1 = w_limiter w1' \<and> w_events w1 = w_events w1' \<and>
    (http_status res = http_status res' \<or>
     (is_xml (api_of rq) \<and> encode_failed res) \<or> (is_xml (api_of rq') \<and> encode_failed res'))"
  using serve_write_same [OF assms] by (simp add: same_effect_def)

section \<open>Version 1 is version 2 under its views\<close>

fun upgrade :: "(hero_create_v1, hero_update_v1) write_body \<Rightarrow> (hero_create, hero_update) write_body" where
  "upgrade (Post p) = Post (create_from_v1 p)"
| "upgrade (Patch p) = Patch (update_from_v1 p)"
| "upgrade Remove = Remove"

lemma checked_body_agrees:
  "(validate p = Inr () \<longleftrightarrow> validate' (f p) = Inr ()) \<Longrightarrow>
   body_agrees (checked_body validate f p) (checked_body validate' (\<lambda>q. q) (f p))"
  by (cases "validate p"; cases "validate' (f p)") (auto simp: checked_body_def body_agrees_def)

lemma upgrade_same_request: "same_request (decoded (ViaV1 rq) state) (decoded (ViaJson (upgrade rq)) state)"
  by (cases rq) (simp_all add: checked_body_agrees v1_create_valid v1_update_valid)

text \<open>
  A deprecated version 1 JSON request does to the repository, the limiter and the event bus
  exactly what the version 2 request with the converted body does, and answers with the same
  status.
\<close>

theorem v1_is_v2_converted:
  "case serve_write (ViaV1 rq) state c claims w of (res, w1) \<Rightarrow>
   case serve_write (ViaJson (upgrade rq)) state c claims w of (res', w1') \<Rightarrow>
     w_repo w1 = w_repo w1' \<and> w_limiter w1 = w_limiter w1' \<and> w_events w1 = w_events w1' \<and>
     http_status res = http_status res'"
proof -
  obtain res w1 res' w1' where s: "serve_write (ViaV1 rq) state c claims w = (res, w1)"
      "serve_write (ViaJson (upgrade rq)) state c claims w = (res', w1')" by force
  show ?thesis
    using serve_write_same [OF upgrade_same_request s] s by (simp add: same_effect_def)
qed

section \<open>Sunset headers\<close>

datatype hero_request = ReadRequest hero_api | WriteRequest hero_write_request

fun serve :: "hero_request \<Rightarrow> ('r, 'l, 'sc) app_state \<Rightarrow> call \<Rightarrow> claims \<Rightarrow> ('r, 'l, response) handler" where
  "serve (ReadRequest rt) = serve_read rt"
| "serve (WriteRequest rq) = serve_write rq"

fun request_api :: "hero_request \<Rightarrow> hero_api" where
  "request_api (ReadRequest rt) = rt"
| "request_api (WriteRequest rq) = api_of rq"

fun deprecated :: "hero_api \<Rightarrow> bool" where
  "deprecated JsonV1 = True"
| "deprecated XmlV1 = True"
| "deprecated _ = False"

fun current_link :: "hero_api \<Rightarrow> string" where
  "current_link JsonV1 = ''/crud/v1/heroes/v2/json''"
| "current_link XmlV1 = ''/crud/v1/heroes/v2/xml''"
| "current_link _ = []"

text \<open>The responses and headers the crate makes carry none of the sunset headers.\<close>

definition sunset_names :: "string list" where
  "sunset_names = [DEPRECATION, SUNSET, LINK]"

definition no_sunset :: "response \<Rightarrow> bool" where
  "no_sunset r \<longleftrightarrow> (\<forall>k \<in> set sunset_names. header_of r k = None)"

definition plain_crate :: "('r, 'sc) crud_api \<Rightarrow> bool" where
  "plain_crate crud \<longleftrightarrow>
     (\<forall>hs etag r. ca_not_modified crud hs etag = Some r \<longrightarrow> no_sunset r) \<and>
     (\<forall>etag. \<forall>k \<in> set sunset_names. map_of (rev (ca_revalidation_headers crud etag)) k = None)"

lemma sunset_names_distinct:
  "k \<in> set sunset_names \<Longrightarrow> k \<noteq> content_type \<and> k \<noteq> ETAG"
  by (auto simp: sunset_names_def DEPRECATION_def SUNSET_def LINK_def content_type_def ETAG_def)

lemma no_sunset_simps [simp]:
  "no_sunset (json_response st j)" "no_sunset (text_response st ct b)" "no_sunset (status_response st)"
  "no_sunset (with_status st r) = no_sunset r"
  using sunset_names_distinct
  by (auto simp: no_sunset_def json_response_def text_response_def status_response_def header_of_def)

lemma no_sunset_headers:
  "no_sunset r \<Longrightarrow> \<forall>k \<in> set sunset_names. map_of (rev kvs) k = None \<Longrightarrow> no_sunset (with_headers kvs r)"
  by (simp add: no_sunset_def header_of_with_headers)

lemma no_sunset_one: "no_sunset r \<Longrightarrow> k = content_type \<or> k = ETAG \<Longrightarrow> no_sunset (set_header k v r)"
  using sunset_names_distinct by (auto simp: no_sunset_def)

text \<open>Every success of a router is its codec's wrapping of a response without sunset headers.\<close>

definition plain_codec :: "codec \<Rightarrow> bool" where
  "plain_codec cd \<longleftrightarrow>
     (\<forall>h r. cd_one cd h = Inr r \<longrightarrow> no_sunset r) \<and> (\<forall>hs r. cd_many cd hs = Inr r \<longrightarrow> no_sunset r) \<and>
     (\<forall>b r. cd_bulk_updated cd b = Inr r \<longrightarrow> no_sunset r) \<and>
     (\<forall>b r. cd_bulk_deleted cd b = Inr r \<longrightarrow> no_sunset r)"

lemma xml_response_plain:
  "xml_response xml root j = Inr r \<Longrightarrow> no_sunset r" "xml_response_v1 xml root j = Inr r \<Longrightarrow> no_sunset r"
  by (auto simp: xml_response_def xml_response_v1_def and_then_r_Inr no_sunset_one)

lemma codec_for_plain: "plain_codec (codec_for rt state)"
  by (cases rt) (auto simp: plain_codec_def json_codec_def xml_codec_def v1_codec_def v1xml_codec_def
      xml_response_plain)

lemma reply_plain:
  "plain_codec cd \<Longrightarrow> reply cd crud out = Inr resp \<Longrightarrow> \<exists>r. resp = cd_wrap cd r \<and> no_sunset r"
  by (auto simp: reply_def render_def and_then_r_Inr plain_codec_def no_sunset_one
      split: written.splits update_outcome.splits delete_outcome.splits)

lemma read_reply_plain:
  assumes "plain_codec cd" "plain_crate crud" "read_reply cd crud hs result = Inr resp"
  shows "\<exists>r. resp = cd_wrap cd r \<and> no_sunset r"
  using assms
  by (auto simp: read_reply_def render_def and_then_r_Inr plain_codec_def plain_crate_def
      intro!: no_sunset_headers split: option.splits list_or_get.splits)

lemma serve_plain:
  assumes "plain_crate (as_crud state)" and "reads_keep (as_crud state)"
    and "serve rq state c claims w = (Inr resp, w')"
  shows "\<exists>r. resp = cd_wrap (codec_for (request_api rq) state) r \<and> no_sunset r"
proof (cases rq)
  case (ReadRequest rt)
  then have "endpoint_read (codec_for rt state) state c claims w = (Inr resp, w')"
    using assms(3) by (simp add: serve_read_implements)
  then show ?thesis
  proof (cases rule: endpoint_read_runs)
    case (answered archived filters sorting result r)
    then show ?thesis
      using read_reply_plain [OF codec_for_plain assms(1) answered(3) [symmetric]] ReadRequest by simp
  qed simp_all
next
  case (WriteRequest wr)
  then have "serve_write wr state c claims w = (Inr resp, w')" using assms(3) by simp
  with assms(2) show ?thesis
  proof (cases rule: api.runs)
    case (wrote owner p out w1 w2)
    then show ?thesis
      using reply_plain [OF codec_for_plain, of "api_of wr" state "as_crud state" out resp] WriteRequest
      by (simp add: api_respond)
  qed simp_all
qed

lemma link_safe: "header_value_from_str (sunset_link_value CURRENT_VERSION_LINK_v1) =
    Some (sunset_link_value CURRENT_VERSION_LINK_v1)"
  "header_value_from_str (sunset_link_value CURRENT_VERSION_LINK_v1_xml) =
    Some (sunset_link_value CURRENT_VERSION_LINK_v1_xml)"
  by (simp_all add: header_value_from_str_def sunset_link_value_def CURRENT_VERSION_LINK_v1_def
      CURRENT_VERSION_LINK_v1_xml_def header_safe_char_def code_def)

text \<open>
  C39. Every successful response of the deprecated version 1 routers, a 304 and a 204 included,
  carries \<open>Deprecation: true\<close>, the sunset date and a link to the version 2 router of its own
  format; no response of the version 2 routers carries any of the three.
\<close>

theorem sunset_exactly_on_v1:
  assumes "plain_crate (as_crud state)" and "reads_keep (as_crud state)"
    and "header_value_from_str (as_http_date state sunset_instant) = Some date"
    and "serve rq state c claims w = (Inr resp, w')"
  shows "if deprecated (request_api rq)
     then header_of resp DEPRECATION = Some ''true'' \<and> header_of resp SUNSET = Some date \<and>
       header_of resp LINK = Some (sunset_link_value (current_link (request_api rq)))
     else header_of resp DEPRECATION = None \<and> header_of resp SUNSET = None \<and> header_of resp LINK = None"
proof -
  obtain r where r: "resp = cd_wrap (codec_for (request_api rq) state) r" "no_sunset r"
    using serve_plain [OF assms(1,2,4)] by blast
  have date: "the (header_value_from_str (as_http_date state sunset_instant)) = date"
    using assms(3) by simp
  have names: "LINK \<noteq> SUNSET" "LINK \<noteq> DEPRECATION" "SUNSET \<noteq> DEPRECATION"
    by (simp_all add: LINK_def SUNSET_def DEPRECATION_def)
  have cur: "CURRENT_VERSION_LINK_v1 = ''/crud/v1/heroes/v2/json''"
      "CURRENT_VERSION_LINK_v1_xml = ''/crud/v1/heroes/v2/xml''"
    by (simp_all add: CURRENT_VERSION_LINK_v1_def CURRENT_VERSION_LINK_v1_xml_def)
  show ?thesis
  proof (cases "request_api rq")
    case JsonV1
    then show ?thesis
      using r date names link_safe
      by (simp add: v1_codec_def with_sunset_v1_def into_response_parts_header flip: cur)
  next
    case XmlV1
    then show ?thesis
      using r date names link_safe
      by (simp add: v1xml_codec_def with_sunset_v1_xml_def into_response_parts_header flip: cur)
  next
    case JsonV2
    then show ?thesis using r by (simp add: json_codec_def no_sunset_def sunset_names_def)
  next
    case XmlV2
    then show ?thesis using r by (simp add: xml_codec_def no_sunset_def sunset_names_def)
  qed
qed

section \<open>Reads\<close>

text \<open>
  C28. A read changes nothing. When it succeeds, the crate's lookup found a record or a page, and
  the response is the crate's 304 for its tag or a 200 that carries that tag, computed from the
  stored record: one row has one tag on all four routers.
\<close>

theorem reads_are_pure_and_tagged:
  assumes "reads_keep (as_crud state)" and "plain_crate (as_crud state)"
    and "\<forall>etag. map_of (rev (ca_revalidation_headers (as_crud state) etag)) ETAG = Some etag"
    and "serve_read rt state c claims w = (res, w')"
  shows "w' = w \<and> (case res of Inl _ \<Rightarrow> True | Inr resp \<Rightarrow>
    (\<exists>archived filters sorting result.
      read_lookup state c archived filters sorting (w_repo w) = (Inr result, w_repo w) \<and>
      (case ca_not_modified (as_crud state) (c_headers c) (read_etag (as_crud state) result) of
         Some unchanged \<Rightarrow> resp = cd_wrap (codec_for rt state) unchanged
       | None \<Rightarrow> r_status resp = 200 \<and>
           header_of resp ETAG = Some (read_etag (as_crud state) result))))"
proof -
  let ?cd = "codec_for rt state"
  have keep: "snd (read_lookup state c a f s r) = r" for a f s r
    using assms(1) by (simp add: reads_keep_def read_lookup_def)
  have wrap: "header_of (cd_wrap ?cd r) ETAG = header_of r ETAG \<and> r_status (cd_wrap ?cd r) = r_status r" for r
    by (cases rt) (simp_all add: json_codec_def xml_codec_def v1_codec_def v1xml_codec_def with_sunset_v1_def
        with_sunset_v1_xml_def into_response_parts_header ETAG_def LINK_def SUNSET_def DEPRECATION_def)
  have ok200: "cd_one ?cd h = Inr r \<Longrightarrow> r_status r = 200" "cd_many ?cd hs = Inr r \<Longrightarrow> r_status r = 200"
    for h hs r
    using codec_for_ok [of rt state] unfolding codec_ok_def http_status_def encode_failed_def
    by (metis sum.case(2) sum.distinct(1))+
  have "endpoint_read ?cd state c claims w = (res, w')" using assms(4) by (simp add: serve_read_implements)
  then show ?thesis
  proof (cases rule: endpoint_read_runs)
    case (refused err)
    then show ?thesis by simp
  next
    case (failed archived filters sorting err r)
    then show ?thesis using keep [of archived filters sorting "w_repo w"] by simp
  next
    case (answered archived filters sorting result r)
    then have r: "r = w_repo w" using keep [of archived filters sorting "w_repo w"] by simp
    have reply: "case ca_not_modified (as_crud state) (c_headers c) (read_etag (as_crud state) result) of
         Some unchanged \<Rightarrow> resp = cd_wrap ?cd unchanged
       | None \<Rightarrow> r_status resp = 200 \<and> header_of resp ETAG = Some (read_etag (as_crud state) result)"
      if "res = Inr resp" for resp
      using answered(3) [unfolded that, symmetric] wrap assms(3) ok200
      by (auto simp: read_reply_def render_def and_then_r_Inr header_of_with_headers
          split: option.splits list_or_get.splits)
    have look: "read_lookup state c archived filters sorting (w_repo w) = (Inr result, w_repo w)"
      and w': "w' = w" using answered(1,2) r by simp_all
    show ?thesis
    proof (cases res)
      case (Inl err)
      with w' show ?thesis by simp
    next
      case (Inr resp)
      show ?thesis using w' look reply [OF Inr] unfolding Inr by auto
    qed
  qed
qed

section \<open>Sibling witnesses\<close>

lemma sample_plain_crate: "plain_crate sample_crud"
proof -
  have "k \<noteq> ETAG \<and> k \<noteq> cache_control" if "k \<in> set sunset_names" for k
    using that by (auto simp: sunset_names_def DEPRECATION_def SUNSET_def LINK_def ETAG_def cache_control_def)
  then show ?thesis
    by (auto simp: plain_crate_def sample_crud_eq no_sunset_one split: if_splits)
qed

theorem siblings_same_effect_witness:
  "same_request (decoded (ViaV1 (Post \<lparr>hc1_name = ''N'', hc1_superpower = ''p'', hc1_power_level = None\<rparr>)) sample_state)
     (decoded (ViaV1Xml (Post [0x3C])) sample_state) \<and>
   (\<exists>res w1 res' w1'.
     serve_write (ViaV1 (Post \<lparr>hc1_name = ''N'', hc1_superpower = ''p'', hc1_power_level = None\<rparr>)) sample_state
       (sample_call None [] []) (sample_claims ''alice'' ''editor'') sample_world = (res, w1) \<and>
     serve_write (ViaV1Xml (Post [0x3C])) sample_state
       (sample_call None [] []) (sample_claims ''alice'' ''editor'') sample_world = (res', w1') \<and>
     w_events w1 = w_events w1')"
proof -
  let ?p = "\<lparr>hc1_name = ''N'', hc1_superpower = ''p'', hc1_power_level = None\<rparr>"
  have same: "same_request (decoded (ViaV1 (Post ?p)) sample_state) (decoded (ViaV1Xml (Post [0x3C])) sample_state)"
    by (simp add: xml_body_def parse_xml_body_def from_utf8_def between_def sample_xml_def body_agrees_def
        checked_body_def validate_defs text_length_ok_def MAX_LEN_def validate_text_field_def errors_result_def)
  obtain res w1 res' w1' where run:
    "serve_write (ViaV1 (Post ?p)) sample_state (sample_call None [] []) (sample_claims ''alice'' ''editor'')
       sample_world = (res, w1)"
    "serve_write (ViaV1Xml (Post [0x3C])) sample_state (sample_call None [] []) (sample_claims ''alice'' ''editor'')
       sample_world = (res', w1')" by force
  show ?thesis using same run siblings_same_effect [OF same run] by blast
qed

lemma sample_date: "header_value_from_str (as_http_date sample_state sunset_instant) =
    Some ''Fri, 01 Jan 2027 00:00:00 GMT''"
  by (simp add: sample_state_def header_value_from_str_def header_safe_char_def code_def)

lemma sample_read:
  "\<exists>resp. serve_read rt sample_state (sample_call (Some 1) [] []) (sample_claims ''eve'' ''viewer'') sample_world =
     (Inr resp, sample_world)"
proof -
  let ?h = "sample_hero 1 ''Spectra'' ''alice'' None"
  have g: "role_gate sample_state (sample_claims ''eve'' ''viewer'') HERO_READ_ROLES = Inr ()"
    by (simp add: role_gate_iff sample_role HERO_READ_ROLES_def)
  have look: "ca_resolve_list_or_get sample_crud (Some 1) sk li False fs so sample_repo = (Inr (One ?h), sample_repo)"
    for sk li fs so
    by (simp add: sample_crud_eq resolve_list_over_def one_answer_def mem_get_def sample_repo_def sample_hero_def)
  have arch: "ca_parse_archived_scope sample_crud [] = Inr False"
      "ca_parse_filters sample_crud sp [] = Inr []" "ca_parse_sort sample_crud sp [] = Inr []" for sp
    by (simp_all add: sample_crud_eq param_flag_def name_filters_def)
  have fresh: "ca_not_modified sample_crud [] tag = None" for tag
    by (simp add: sample_crud_eq header_str_def header_lookup_def)
  have one: "\<exists>r. cd_one (codec_for rt sample_state) ?h = Inr r"
    by (cases rt) (simp_all add: json_codec_def xml_codec_def v1_codec_def v1xml_codec_def xml_response_def
        xml_response_v1_def sample_xml_def)
  have same: "sample_world\<lparr>w_repo := sample_repo\<rparr> = sample_world" by (simp add: sample_world_def)
  obtain r where r: "cd_one (codec_for rt sample_state) ?h = Inr r" using one by blast
  show ?thesis
    unfolding serve_read_implements endpoint_read_def Let_def
    by (simp add: g arch look fresh run_simps same r render_def read_etag_def del: fst_conv)
      (simp add: look same r fresh run_simps render_def)
qed

theorem sunset_exactly_on_v1_witness:
  "\<exists>resp w'. serve (ReadRequest XmlV1) sample_state (sample_call (Some 1) [] [])
      (sample_claims ''eve'' ''viewer'') sample_world = (Inr resp, w') \<and>
    header_of resp SUNSET = Some ''Fri, 01 Jan 2027 00:00:00 GMT''"
proof -
  obtain resp where run: "serve (ReadRequest XmlV1) sample_state (sample_call (Some 1) [] [])
      (sample_claims ''eve'' ''viewer'') sample_world = (Inr resp, sample_world)"
    using sample_read [of XmlV1] by auto
  have "plain_crate (as_crud sample_state)" "reads_keep (as_crud sample_state)"
    by (simp_all add: sample_plain_crate sample_reads_keep)
  from sunset_exactly_on_v1 [OF this sample_date run] run show ?thesis by auto
qed

theorem reads_are_pure_and_tagged_witness:
  "\<exists>resp. serve_read JsonV1 sample_state (sample_call (Some 1) [] []) (sample_claims ''eve'' ''viewer'')
      sample_world = (Inr resp, sample_world) \<and>
    (\<exists>archived filters sorting result. read_lookup sample_state (sample_call (Some 1) [] []) archived filters
        sorting sample_repo = (Inr result, sample_repo))"
proof -
  obtain resp where run: "serve_read JsonV1 sample_state (sample_call (Some 1) [] [])
      (sample_claims ''eve'' ''viewer'') sample_world = (Inr resp, sample_world)"
    using sample_read [of JsonV1] by auto
  have "\<forall>etag. map_of (rev (ca_revalidation_headers (as_crud sample_state) etag)) ETAG = Some etag"
    by (simp add: sample_crud_eq ETAG_def cache_control_def)
  moreover have "plain_crate (as_crud sample_state)" "reads_keep (as_crud sample_state)"
    by (simp_all add: sample_plain_crate sample_reads_keep)
  ultimately show ?thesis using reads_are_pure_and_tagged [OF _ _ _ run] run by auto
qed

end
