(* ===== verification/Html_Pages.thy ===== *)
theory Html_Pages
  imports Hero_Repository
begin

text \<open>
  The rendering half of \<open>src/hero/controllers/heroes_web.rs\<close>: \<open>escape_html\<close> and the three page
  templates, literal by literal (\<open>DQ\<close> is the quote character, \<open>NL\<close> the line break of the raw
  strings). To state what the escaping is for, a scanner reads the markup these pages use: it
  separates what stands inside quoted attribute values from everything else, so that "a value
  cannot change the page" is an equation between markups and "the form shows the record" an
  equation between values.
\<close>

section \<open>Escaping\<close>

definition escape_html :: "string \<Rightarrow> string" where
  "escape_html raw =
     replace_char (CHR 0x27) ''&#39;'' (replace_char (CHR 0x22) ''&quot;'' (replace_char (CHR ''>'') ''&gt;''
       (replace_char (CHR ''<'') ''&lt;'' (replace_char (CHR ''&'') ''&amp;'' raw))))"

text \<open>The reader's side: the character references above, decoded.\<close>

definition entities :: "(string \<times> char) list" where
  "entities = [(''&amp;'', CHR ''&''), (''&lt;'', CHR ''<''), (''&gt;'', CHR ''>''),
     (''&quot;'', CHR 0x22), (''&#39;'', CHR 0x27)]"

lemma entity_length: "find (\<lambda>(e, _). starts_with s e) entities = Some (e, ch) \<Longrightarrow> 0 < length e"
  by (auto simp: entities_def split: if_splits)

function decode_html :: "string \<Rightarrow> string" where
  "decode_html [] = []"
| "decode_html (c # cs) =
     (case find (\<lambda>(e, _). starts_with (c # cs) e) entities of
        Some (e, ch) \<Rightarrow> ch # decode_html (drop (length e) (c # cs))
      | None \<Rightarrow> c # decode_html cs)"
  by pat_completeness auto

termination
  by (relation "measure length") (auto dest: entity_length)

definition escape_char :: "char \<Rightarrow> string" where
  "escape_char c =
     (if c = CHR ''&'' then ''&amp;'' else if c = CHR ''<'' then ''&lt;''
      else if c = CHR ''>'' then ''&gt;'' else if c = CHR 0x22 then ''&quot;''
      else if c = CHR 0x27 then ''&#39;'' else [c])"

lemma replace_char_Nil [simp]: "replace_char a t [] = []"
  by (simp add: replace_char_def)

lemma replace_char_Cons: "replace_char a t (c # s) = (if c = a then t else [c]) @ replace_char a t s"
  by (simp add: replace_char_def)

lemma replace_char_append: "replace_char a t (r @ s) = replace_char a t r @ replace_char a t s"
  by (simp add: replace_char_def)

text \<open>The five replacements in sequence are one replacement per character.\<close>

lemma escape_html_Nil [simp]: "escape_html [] = []"
  by (simp add: escape_html_def)

lemma escape_html_Cons: "escape_html (c # s) = escape_char c @ escape_html s"
  by (simp add: escape_html_def escape_char_def replace_char_Cons replace_char_append)

lemma escape_html_concat: "escape_html s = concat (map escape_char s)"
  by (induction s) (simp_all add: escape_html_Cons)

lemma escape_html_no_markup:
  "CHR 0x22 \<notin> set (escape_html s) \<and> CHR ''<'' \<notin> set (escape_html s) \<and>
   CHR ''>'' \<notin> set (escape_html s) \<and> CHR 0x27 \<notin> set (escape_html s)"
  by (induction s) (auto simp: escape_html_Cons escape_char_def)

lemma no_entity: "c \<noteq> CHR ''&'' \<Longrightarrow> find (\<lambda>(e, _). starts_with (c # t) e) entities = None"
  by (simp add: entities_def starts_with_def)

lemma decode_escape: "decode_html (escape_html s) = s"
proof (induction s)
  case (Cons c s)
  show ?case
    using Cons.IH no_entity
    by (auto simp: escape_html_Cons escape_char_def entities_def starts_with_def)
qed simp

section \<open>Templates\<close>

text \<open>
  \<open>format!\<close>: literal text with arguments between. \<open>raw\<close> writes a literal of the raw strings, which
  hold double quotes and no back quotes, with a back quote for the double quote.
\<close>

datatype piece = Lit string | Arg string

fun piece_text :: "piece \<Rightarrow> string" where
  "piece_text (Lit l) = l"
| "piece_text (Arg a) = a"

definition format :: "piece list \<Rightarrow> string" where
  "format ps = concat (map piece_text ps)"

definition raw :: "string \<Rightarrow> string" where
  "raw s = replace_char (CHR ''`'') [CHR 0x22] s"

definition NL :: string where
  "NL = [CHR 0x0A]"

definition bootstrap_page :: "string option \<Rightarrow> string" where
  "bootstrap_page message =
     (let message = (case message of
            Some m \<Rightarrow> format [Lit (raw ''<p class=`error`>''), Arg (escape_html m), Lit ''</p>'']
          | None \<Rightarrow> []) in
      format
       [Lit ''<!doctype html>'', Lit NL,
        Lit ''<html><head><title>Heroes</title></head>'', Lit NL,
        Lit ''<body>'', Lit NL,
        Lit ''<h1>Heroes</h1>'', Lit NL,
        Arg message, Lit NL,
        Lit ''<p>Paste a bearer token to continue (under <code>MODE=mock</code>, mint'', Lit NL,
        Lit ''one via <code>POST /mock/token</code>).</p>'', Lit NL,
        Lit (raw ''<form method=`GET` action=`/heroes/form`>''), Lit NL,
        Lit (raw ''  <label>Token <input type=`text` name=`token` size=`80` required></label>''), Lit NL,
        Lit (raw ''  <button type=`submit`>Continue</button>''), Lit NL,
        Lit ''</form>'', Lit NL,
        Lit ''</body></html>''])"

definition row_template :: "string \<Rightarrow> string \<Rightarrow> string \<Rightarrow> string \<Rightarrow> string \<Rightarrow> piece list" where
  "row_template i name powers power_level token =
       [Lit (raw ''<li class=`hero` data-hero-id=`''), Arg i, Lit (raw ''`>''), Lit NL,
        Lit (raw ''  <form class=`hero-form` method=`POST` action=`/heroes/form/''), Arg i,
        Lit ''/update?token='', Arg token,
        Lit (raw ''` data-json-action=`/crud/v1/heroes/v2/json?id=''), Arg i,
        Lit (raw ''` data-json-method=`PATCH`>''), Lit NL,
        Lit (raw ''    <input type=`text` name=`name` value=`''), Arg name, Lit (raw ''` required>''), Lit NL,
        Lit (raw ''    <input type=`text` name=`powers` value=`''), Arg powers, Lit (raw ''` required>''), Lit NL,
        Lit (raw ''    <input type=`number` name=`power_level` value=`''), Arg power_level, Lit (raw ''`>''), Lit NL,
        Lit (raw ''    <button type=`submit`>Update</button>''), Lit NL,
        Lit ''  </form>'', Lit NL,
        Lit (raw ''  <form class=`hero-delete-form` method=`POST` action=`/heroes/form/''), Arg i,
        Lit ''/delete?token='', Arg token,
        Lit (raw ''` data-json-action=`/crud/v1/heroes/v2/json?id=''), Arg i,
        Lit (raw ''` data-json-method=`DELETE`>''), Lit NL,
        Lit (raw ''    <button type=`submit`>Delete</button>''), Lit NL,
        Lit ''  </form>'', Lit NL,
        Lit ''</li>'']"

definition hero_row_html :: "hero \<Rightarrow> string \<Rightarrow> string" where
  "hero_row_html hero token =
     (let i = show_int (h_id hero);
          name = escape_html (case h_name hero of None \<Rightarrow> [] | Some n \<Rightarrow> n);
          powers = escape_html (join '', '' (case h_powers hero of None \<Rightarrow> [] | Some ps \<Rightarrow> ps));
          power_level = (case h_power_level hero of None \<Rightarrow> [] | Some p \<Rightarrow> show_int p) in
      format (row_template i name powers power_level token))"

text \<open>The page's template, before and after \<open>{rows}\<close>.\<close>

definition heroes_page_head :: "string \<Rightarrow> piece list" where
  "heroes_page_head token =
     [Lit ''<!doctype html>'', Lit NL,
      Lit (raw ''<html><head><title>Heroes</title><script src=`/heroes/components.js?token=''), Arg token,
      Lit (raw ''` defer></script></head>''), Lit NL,
      Lit (raw ''<body data-token=`''), Arg token, Lit (raw ''`>''), Lit NL,
      Lit ''<h1>Heroes</h1>'', Lit NL,
      Lit (raw ''<ul class=`hero-list`>''), Lit NL]"

definition heroes_page_foot :: "string \<Rightarrow> piece list" where
  "heroes_page_foot token =
     [Lit NL, Lit ''</ul>'', Lit NL,
      Lit ''<h2>Create a hero</h2>'', Lit NL,
      Lit (raw ''<form class=`hero-form` method=`POST` action=`/heroes/form?token=''), Arg token,
      Lit (raw ''` data-json-action=`/crud/v1/heroes/v2/json` data-json-method=`POST`>''), Lit NL,
      Lit (raw ''  <input type=`text` name=`name` placeholder=`Name` required>''), Lit NL,
      Lit (raw ''  <input type=`text` name=`powers` placeholder=`Powers, comma-separated` required>''), Lit NL,
      Lit (raw ''  <input type=`number` name=`power_level` placeholder=`Power level`>''), Lit NL,
      Lit (raw ''  <button type=`submit`>Create</button>''), Lit NL,
      Lit ''</form>'', Lit NL,
      Lit ''</body></html>'']"

definition heroes_page :: "hero list \<Rightarrow> string \<Rightarrow> string" where
  "heroes_page heroes token =
     (let rows = join NL (map (\<lambda>hero. hero_row_html hero token) heroes) in
      format (heroes_page_head token @ [Arg rows] @ heroes_page_foot token))"

section \<open>Reading a page\<close>

datatype html_mode = Content | Tag | Quoted

fun html_step :: "html_mode \<Rightarrow> char \<Rightarrow> html_mode" where
  "html_step Content c = (if c = CHR ''<'' then Tag else Content)"
| "html_step Tag c = (if c = CHR 0x22 then Quoted else if c = CHR ''>'' then Content else Tag)"
| "html_step Quoted c = (if c = CHR 0x22 then Tag else Quoted)"

abbreviation html_mode_after :: "html_mode \<Rightarrow> string \<Rightarrow> html_mode" where
  "html_mode_after m s \<equiv> foldl html_step m s"

text \<open>Everything but the contents of quoted values.\<close>

fun markup :: "html_mode \<Rightarrow> string \<Rightarrow> string" where
  "markup m [] = []"
| "markup m (c # cs) =
     (if m = Quoted \<and> c \<noteq> CHR 0x22 then markup m cs else c # markup (html_step m c) cs)"

text \<open>The quoted values, each with the attribute text in front of it (up to the last blank).\<close>

type_synonym attr_state = "html_mode \<times> string \<times> string \<times> (string \<times> string) list"

fun attr_step :: "attr_state \<Rightarrow> char \<Rightarrow> attr_state" where
  "attr_step (Content, nm, acc, out) c = (html_step Content c, [], [], out)"
| "attr_step (Tag, nm, acc, out) c =
     (html_step Tag c, if c = CHR 0x22 then nm else if c = CHR '' '' then [] else nm @ [c], [], out)"
| "attr_step (Quoted, nm, acc, out) c =
     (if c = CHR 0x22 then (Tag, [], [], out @ [(nm, acc)]) else (Quoted, nm, acc @ [c], out))"

definition attributes :: "string \<Rightarrow> (string \<times> string) list" where
  "attributes html = (case foldl attr_step (Content, [], [], []) html of (_, _, _, out) \<Rightarrow> out)"

definition values_of :: "string \<Rightarrow> string \<Rightarrow> string list" where
  "values_of attr html =
     map (\<lambda>(_, v). decode_html v) (filter (\<lambda>(n, _). n = attr @ ''='') (attributes html))"

section \<open>Arguments inside quotes\<close>

lemma format_simps [simp]: "format [] = []" "format (p # ps) = piece_text p @ format ps"
  by (simp_all add: format_def)

lemma format_append [simp]: "format (ps @ qs) = format ps @ format qs"
  by (simp add: format_def)

lemma markup_append: "markup m (s @ t) = markup m s @ markup (html_mode_after m s) t"
  by (induction m s rule: markup.induct) auto

lemma quoted_run:
  assumes "CHR 0x22 \<notin> set s"
  shows "markup Quoted s = []" "html_mode_after Quoted s = Quoted"
    "foldl attr_step (Quoted, nm, acc, out) s = (Quoted, nm, acc @ s, out)"
  using assms by (induction s arbitrary: acc) auto

text \<open>
  A template all of whose arguments stand inside quotes: where it ends, and that arguments
  without a quote leave no trace in its markup.
\<close>

fun template_end :: "html_mode \<Rightarrow> piece list \<Rightarrow> html_mode option" where
  "template_end m [] = Some m"
| "template_end m (Lit l # ps) = template_end (html_mode_after m l) ps"
| "template_end m (Arg a # ps) = (if m = Quoted then template_end m ps else None)"

fun erase :: "piece \<Rightarrow> piece" where
  "erase (Lit l) = Lit l"
| "erase (Arg a) = Arg []"

fun quote_free :: "piece \<Rightarrow> bool" where
  "quote_free (Lit l) = True"
| "quote_free (Arg a) = (CHR 0x22 \<notin> set a)"

lemma template_markup:
  "template_end m ps = Some m' \<Longrightarrow> list_all quote_free ps \<Longrightarrow>
   markup m (format ps) = markup m (format (map erase ps)) \<and> html_mode_after m (format ps) = m'"
proof (induction m ps rule: template_end.induct)
  case (2 m l ps)
  then show ?case by (simp add: markup_append)
next
  case (3 m a ps)
  then show ?case by (simp add: markup_append quoted_run split: if_splits)
qed simp

lemma show_nat_no_quote: "CHR 0x22 \<notin> set (show_nat n)"
  using show_nat_digits by (force simp: code_def)

lemma show_int_no_quote: "CHR 0x22 \<notin> set (show_int i)"
  by (simp add: show_int_def show_nat_no_quote del: show_nat.simps)

lemmas no_quote = show_int_no_quote escape_html_no_markup [THEN conjunct1]

section \<open>The pages\<close>

text \<open>The record whose every value is empty: what a row's markup looks like.\<close>

definition blank_hero :: hero where
  "blank_hero = \<lparr>h_id = 0, h_name = None, h_powers = None, h_power_level = None, h_owner_id = [],
     h_archived_at = None, h_created_at = 0, h_updated_at = 0\<rparr>"

lemma row_template_end: "template_end Content (row_template i name powers power_level token) = Some Content"
  by (simp add: row_template_def raw_def replace_char_def NL_def)

lemma page_template_end:
  "template_end Content (heroes_page_head token) = Some Content"
  "template_end Content (heroes_page_foot token) = Some Content"
  by (simp_all add: heroes_page_head_def heroes_page_foot_def raw_def replace_char_def NL_def)

lemma row_values:
  assumes "list_all (\<lambda>s. CHR 0x22 \<notin> set s) [i, name, powers, power_level, token]"
  shows "values_of ''value'' (format (row_template i name powers power_level token)) =
    map decode_html [name, powers, power_level]"
  using assms
  by (simp add: values_of_def row_template_def attributes_def raw_def replace_char_def NL_def quoted_run)

definition row_markup :: string where
  "row_markup = markup Content (format (map erase (row_template [] [] [] [] [])))"

lemma row_template_markup:
  assumes "list_all (\<lambda>s. CHR 0x22 \<notin> set s) [i, name, powers, power_level, token]"
  shows "markup Content (format (row_template i name powers power_level token)) = row_markup \<and>
    html_mode_after Content (format (row_template i name powers power_level token)) = Content"
proof -
  have "list_all quote_free (row_template i name powers power_level token)"
    using assms by (simp add: row_template_def)
  moreover have "map erase (row_template i name powers power_level token) =
      map erase (row_template [] [] [] [] [])"
    by (simp add: row_template_def)
  ultimately show ?thesis using template_markup [OF row_template_end] unfolding row_markup_def by metis
qed

lemma row_args_quote_free:
  assumes "CHR 0x22 \<notin> set token"
  shows "list_all (\<lambda>s. CHR 0x22 \<notin> set s) [show_int (h_id hero), escape_html n, escape_html p,
    (case h_power_level hero of None \<Rightarrow> [] | Some l \<Rightarrow> show_int l), token]"
  using assms by (simp add: no_quote split: option.splits)

lemma hero_row_markup:
  assumes "CHR 0x22 \<notin> set token"
  shows "markup Content (hero_row_html hero token) = row_markup"
    and "html_mode_after Content (hero_row_html hero token) = Content"
  unfolding hero_row_html_def Let_def
  using row_template_markup [OF row_args_quote_free [OF assms]] by blast+

lemma join_markup:
  assumes "\<forall>r \<in> set rows. markup Content r = m \<and> html_mode_after Content r = Content"
  shows "markup Content (join NL rows) = join NL (replicate (length rows) m) \<and>
    html_mode_after Content (join NL rows) = Content"
  using assms by (induction NL rows rule: join.induct) (simp_all add: markup_append, simp_all add: NL_def)

lemma heroes_page_markup:
  assumes "CHR 0x22 \<notin> set token"
  shows "markup Content (heroes_page heroes token) =
    markup Content (format (map erase (heroes_page_head []))) @
    join NL (replicate (length heroes) row_markup) @
    markup Content (format (map erase (heroes_page_foot [])))"
proof -
  have q: "list_all quote_free (heroes_page_head token)" "list_all quote_free (heroes_page_foot token)"
    using assms by (simp_all add: heroes_page_head_def heroes_page_foot_def)
  have e: "map erase (heroes_page_head token) = map erase (heroes_page_head [])"
      "map erase (heroes_page_foot token) = map erase (heroes_page_foot [])"
    by (simp_all add: heroes_page_head_def heroes_page_foot_def)
  note t = template_markup [OF page_template_end(1) q(1), unfolded e]
    template_markup [OF page_template_end(2) q(2), unfolded e]
  have r: "markup Content (join NL (map (\<lambda>hero. hero_row_html hero token) heroes)) =
        join NL (replicate (length heroes) row_markup) \<and>
      html_mode_after Content (join NL (map (\<lambda>hero. hero_row_html hero token) heroes)) = Content"
    using join_markup [of "map (\<lambda>hero. hero_row_html hero token) heroes" row_markup]
      hero_row_markup [OF assms] by simp
  show ?thesis by (simp add: heroes_page_def Let_def markup_append t r)
qed

text \<open>The form the page prefills for a record, as a browser would send it back.\<close>

definition form_of_row :: "string \<Rightarrow> hero_form_fields option" where
  "form_of_row html = (case values_of ''value'' html of
       [n, p, l] \<Rightarrow> Some \<lparr>hf_name = n, hf_powers = p, hf_power_level = l\<rparr>
     | _ \<Rightarrow> None)"

lemma values_of_hero_row:
  assumes "CHR 0x22 \<notin> set token"
  shows "values_of ''value'' (hero_row_html hero token) =
    [(case h_name hero of None \<Rightarrow> [] | Some n \<Rightarrow> n),
     join '', '' (case h_powers hero of None \<Rightarrow> [] | Some ps \<Rightarrow> ps),
     decode_html (case h_power_level hero of None \<Rightarrow> [] | Some p \<Rightarrow> show_int p)]"
  unfolding hero_row_html_def Let_def
  using row_values [OF row_args_quote_free [OF assms]] by (simp add: decode_escape)
lemma show_int_chars: "c \<in> set (show_int i) \<Longrightarrow> c = CHR ''-'' \<or> (48 \<le> code c \<and> code c \<le> 57)"
  using show_nat_digits by (auto simp: show_int_def simp del: show_nat.simps split: if_splits)

lemma decode_plain: "CHR ''&'' \<notin> set s \<Longrightarrow> decode_html s = s"
  by (induction s) (simp_all add: no_entity [OF not_sym])

lemma show_int_trimmed: "trim (show_int i) = show_int i"
proof -
  have w: "\<not> is_whitespace c" if "c \<in> set (show_int i)" for c
    using show_int_chars [OF that] by (auto simp: is_whitespace_def Let_def code_def)
  then have "trimmed (show_int i)"
    unfolding trimmed_def by (cases "show_int i = []") auto
  then show ?thesis by (rule trim_trimmed)
qed

lemma show_int_not_Nil [simp]: "show_int i \<noteq> []"
  by (simp add: show_int_def del: show_nat.simps)

lemma level_text_parses:
  assumes "\<forall>l. lvl = Some l \<longrightarrow> i32_range l"
  shows "parse_power_level (decode_html (case lvl of None \<Rightarrow> [] | Some p \<Rightarrow> show_int p)) = Inr lvl"
proof (cases lvl)
  case None
  then show ?thesis by (simp add: parse_power_level_def trim_def trim_start_def trim_end_def)
next
  case (Some l)
  have "CHR ''&'' \<notin> set (show_int l)" using show_int_chars [of "CHR ''&''" l] by (auto simp: code_def)
  with Some assms show ?thesis
    by (simp add: parse_power_level_def decode_plain show_int_trimmed parse_i32_show_int Let_def)
qed

text \<open>
  C26. The edit form of a record is faithful: the values a browser reads out of the row are the
  record's, whatever characters they hold, and posting the form unchanged is an update that
  changes nothing of the record but its time stamp, if its powers are ones a form can express
  (no commas, no outer blanks, not empty) and it would still be valid.
\<close>

theorem edit_form_roundtrip:
  assumes "CHR 0x22 \<notin> set token"
    and "h_name hero = Some n" "h_powers hero = Some ps" "list_all form_power ps"
    and "\<forall>l. h_power_level hero = Some l \<longrightarrow> i32_range l"
    and "validate_update \<lparr>hu_name = Some n, hu_powers = Some ps, hu_power_level = h_power_level hero\<rparr> = Inr ()"
  shows "\<exists>fields data. form_of_row (hero_row_html hero token) = Some fields \<and>
    hf_name fields = n \<and> into_hero_update fields = Inr data \<and> edit data hero = hero"
proof -
  let ?level = "decode_html (case h_power_level hero of None \<Rightarrow> [] | Some p \<Rightarrow> show_int p)"
  let ?fields = "\<lparr>hf_name = n, hf_powers = join '', '' ps, hf_power_level = ?level\<rparr>"
  let ?data = "\<lparr>hu_name = Some n, hu_powers = Some ps, hu_power_level = h_power_level hero\<rparr>"
  have row: "form_of_row (hero_row_html hero token) = Some ?fields"
    by (simp add: form_of_row_def values_of_hero_row [OF assms(1)] assms(2,3))
  have "parse_powers (join '', '' ps) = ps" using assms(4) by (simp add: powers_parse_back)
  then have data: "into_hero_update ?fields = Inr ?data"
    using assms(6) by (simp add: into_hero_update_def level_text_parses [OF assms(5)])
  have "edit ?data hero = hero"
    using assms(2,3) by (simp add: edit_def split: option.splits)
  with row data show ?thesis by (intro exI [where x = ?fields] exI [where x = ?data]) simp
qed

theorem edit_form_roundtrip_witness:
  "\<exists>fields data. form_of_row (hero_row_html (blank_hero\<lparr>h_name := Some ''<b>'',
       h_powers := Some [''x'', ''y'']\<rparr>) ''t'') = Some fields \<and>
     hf_name fields = ''<b>'' \<and> into_hero_update fields = Inr data"
proof -
  let ?h = "blank_hero\<lparr>h_name := Some ''<b>'', h_powers := Some [''x'', ''y'']\<rparr>"
  have "list_all form_power [''x'', ''y'']"
    by (simp add: form_power_def trimmed_def is_whitespace_def Let_def code_def)
  moreover have "validate_update \<lparr>hu_name = Some ''<b>'', hu_powers = Some [''x'', ''y''],
      hu_power_level = h_power_level ?h\<rparr> = Inr ()"
    by (simp add: validate_update_Inr validate_update_def errors_result_def validate_text_field_def
        validate_powers_def text_length_ok_def MAX_LEN_def blank_hero_def)
  ultimately show ?thesis
    using edit_form_roundtrip [of "''t''" ?h "''<b>''" "[''x'', ''y'']"] by (auto simp: blank_hero_def)
qed

end
