(* ===== verification/Heroes_Web.thy ===== *)
theory Heroes_Web
  imports Heroes_Siblings Html_Pages
begin

text \<open>
  The handlers of \<open>src/hero/controllers/heroes_web.rs\<close>: the extractor that also takes the token
  from the query, the form page and the three form posts. A handler answers a \<open>Response\<close> either
  way, so an early \<open>return\<close> is \<open>Inl\<close> of a response. \<open>redirect\<close> is axum's \<open>Redirect::to\<close> and
  \<open>components_js_text\<close> the script file the build includes.
\<close>

section \<open>The extractor\<close>

record web_auth =
  wa_claims :: claims
  wa_token :: string

text \<open>\<open>Query::<TokenQuery>\<close>: a repeated \<open>token\<close> does not deserialize, and \<open>ok()\<close> drops the error.\<close>

definition query_token :: "raw_params \<Rightarrow> string option" where
  "query_token params = (case filter (\<lambda>(k, _). k = ''token'') params of
       [(_, v)] \<Rightarrow> Some v | _ \<Rightarrow> None)"

definition rejected_page :: response where
  "rejected_page = with_status 401
     (html_response (bootstrap_page (Some ''That token was rejected -- paste a current one.'')))"

definition web_from_request_parts ::
  "('ks, 'k, 'd) oidc_crates \<Rightarrow> oidc_verifier \<Rightarrow> nat \<Rightarrow> nat \<Rightarrow> request_headers \<Rightarrow> raw_params \<Rightarrow>
   ('ks jwks_state, response, web_auth) eff" where
  "web_from_request_parts crates self now done_at headers params =
     (let header_token = (case header_str headers AUTHORIZATION of
            None \<Rightarrow> None | Some hv \<Rightarrow> strip_prefix hv ''Bearer '');
          token = (case header_token of Some token \<Rightarrow> Some token | None \<Rightarrow> query_token params) in
      case token of
        None \<Rightarrow> lift (Inl (html_response (bootstrap_page None)))
      | Some token \<Rightarrow> (\<lambda>cache.
          case decode_bearer_token crates self now done_at token cache of
            (Inr claims, cache') \<Rightarrow> (Inr \<lparr>wa_claims = claims, wa_token = token\<rparr>, cache')
          | (Inl _, cache') \<Rightarrow> (Inl rejected_page, cache')))"

section \<open>Handlers\<close>

type_synonym ('r, 'l) web_handler = "(('r, 'l) world, response, response) eff"

text \<open>\<open>err.into_response()\<close> of an \<open>AppError\<close>.\<close>

definition app_error_response :: "('r, 'l, 'sc) app_state \<Rightarrow> app_error \<Rightarrow> response" where
  "app_error_response state err = into_response (ca_redacted_detail (as_crud state)) err"

definition repo_error_response :: "('r, 'l, 'sc) app_state \<Rightarrow> repo_error \<Rightarrow> response" where
  "repo_error_response state err =
     app_error_response state (from_repo_error (ca_repo_error_display (as_crud state)) err)"

definition form_page :: "('r, 'l, 'sc) app_state \<Rightarrow> response + web_auth \<Rightarrow> ('r, 'l) web_handler" where
  "form_page state claims =
     (let crud = as_crud state in
      and_then (lift claims) (\<lambda>auth.
      and_then (or_return (app_error_response state)
        (lift (require_any_role (wa_claims auth) (oidc_client_id (as_settings state)) HERO_READ_ROLES))) (\<lambda>_.
      and_then (on_repo (repo_error_response state) (ca_list crud 0 100 False False [] [])) (\<lambda>heroes.
      ok (html_response (heroes_page heroes (wa_token auth)))))))"

definition form_uri :: "string \<Rightarrow> string" where
  "form_uri token = ''/heroes/form?token='' @ token"

definition create_web :: "(string \<Rightarrow> response) \<Rightarrow> ('r, 'l, 'sc) app_state \<Rightarrow> call \<Rightarrow> response + web_auth \<Rightarrow>
    hero_form_fields \<Rightarrow> ('r, 'l) web_handler" where
  "create_web redirect state c claims form =
     (let crud = as_crud state in
      and_then (lift claims) (\<lambda>auth.
      and_then (or_return (app_error_response state) (check_write_rate state c)) (\<lambda>_.
      and_then (or_return (app_error_response state)
        (lift (require_any_role (wa_claims auth) (oidc_client_id (as_settings state)) HERO_WRITE_ROLES))) (\<lambda>_.
      and_then (lift (map_err (\<lambda>errors. app_error_response state (UnprocessableEntity errors))
        (into_hero_create form))) (\<lambda>create.
      and_then (or_return (app_error_response state) (lift (subject (wa_claims auth)))) (\<lambda>owner_id.
      and_then (on_repo (repo_error_response state) (ca_create crud (c_clock c) owner_id create)) (\<lambda>hero.
      and_then (publish HERO_EVENT_RESOURCE Create [h_id hero]) (\<lambda>_.
      ok (redirect (form_uri (wa_token auth)))))))))))"

definition update_web :: "(string \<Rightarrow> response) \<Rightarrow> ('r, 'l, 'sc) app_state \<Rightarrow> call \<Rightarrow> int \<Rightarrow> response + web_auth \<Rightarrow>
    hero_form_fields \<Rightarrow> ('r, 'l) web_handler" where
  "update_web redirect state c rid claims form =
     (let crud = as_crud state in
      and_then (lift claims) (\<lambda>auth.
      and_then (or_return (app_error_response state) (check_write_rate state c)) (\<lambda>_.
      and_then (or_return (app_error_response state)
        (lift (require_any_role (wa_claims auth) (oidc_client_id (as_settings state)) HERO_WRITE_ROLES))) (\<lambda>_.
      and_then (lift (map_err (\<lambda>errors. app_error_response state (UnprocessableEntity errors))
        (into_hero_update form))) (\<lambda>update.
      and_then (or_return (app_error_response state) (lift (subject (wa_claims auth)))) (\<lambda>owner_id.
      and_then (on_repo (ca_crud_error_into_response crud)
        (ca_resolve_update_by_id crud (c_clock c) rid owner_id update)) (\<lambda>hero.
      and_then (publish HERO_EVENT_RESOURCE Update [h_id hero]) (\<lambda>_.
      ok (redirect (form_uri (wa_token auth)))))))))))"

definition delete_web :: "(string \<Rightarrow> response) \<Rightarrow> ('r, 'l, 'sc) app_state \<Rightarrow> call \<Rightarrow> int \<Rightarrow> response + web_auth \<Rightarrow>
    ('r, 'l) web_handler" where
  "delete_web redirect state c rid claims =
     (let crud = as_crud state in
      and_then (lift claims) (\<lambda>auth.
      and_then (or_return (app_error_response state) (check_write_rate state c)) (\<lambda>_.
      and_then (or_return (app_error_response state)
        (lift (require_any_role (wa_claims auth) (oidc_client_id (as_settings state)) HERO_DELETE_ROLES))) (\<lambda>_.
      and_then (or_return (app_error_response state) (lift (subject (wa_claims auth)))) (\<lambda>owner_id.
      and_then (on_repo (ca_crud_error_into_response crud)
        (ca_resolve_delete crud (c_clock c) (Some rid) owner_id []
          (bulk_action_max_matched (as_settings state)) True)) (\<lambda>_.
      and_then (publish HERO_EVENT_RESOURCE Delete [rid]) (\<lambda>_.
      ok (redirect (form_uri (wa_token auth))))))))))"

definition components_js :: "string \<Rightarrow> response" where
  "components_js components_js_text = text_response 200 ''text/javascript; charset=utf-8'' components_js_text"

datatype web_post = FormCreate hero_form_fields | FormUpdate int hero_form_fields | FormDelete int

text \<open>The router's posts: \<open>/form\<close>, \<open>/form/{id}/update\<close> and \<open>/form/{id}/delete\<close>.\<close>

fun web_router :: "(string \<Rightarrow> response) \<Rightarrow> web_post \<Rightarrow> ('r, 'l, 'sc) app_state \<Rightarrow> call \<Rightarrow> response + web_auth \<Rightarrow>
    ('r, 'l) web_handler" where
  "web_router redirect (FormCreate form) state c claims = create_web redirect state c claims form"
| "web_router redirect (FormUpdate rid form) state c claims = update_web redirect state c rid claims form"
| "web_router redirect (FormDelete rid) state c claims = delete_web redirect state c rid claims"

section \<open>The router implements the write endpoint\<close>

fun web_roles :: "web_post \<Rightarrow> string list" where
  "web_roles (FormDelete rid) = HERO_DELETE_ROLES"
| "web_roles _ = HERO_WRITE_ROLES"

fun web_cmd :: "web_post \<Rightarrow> field_error list + write_cmd" where
  "web_cmd (FormCreate form) = and_then_r (into_hero_create form) (\<lambda>d. Inr (WriteCreate d))"
| "web_cmd (FormUpdate rid form) = and_then_r (into_hero_update form) (\<lambda>d. Inr (WriteUpdate [] d))"
| "web_cmd (FormDelete rid) = Inr (WriteDelete [] True)"

fun path_id :: "web_post \<Rightarrow> int option" where
  "path_id (FormCreate form) = None"
| "path_id (FormUpdate rid form) = Some rid"
| "path_id (FormDelete rid) = Some rid"

definition web_perform :: "web_post \<Rightarrow> ('r, 'l, 'sc) app_state \<Rightarrow> call \<Rightarrow> string \<Rightarrow> write_cmd \<Rightarrow>
    (('r, 'l) world, response, written) eff" where
  "web_perform rq state c owner_id cmd =
     (let crud = as_crud state in
      case cmd of
        WriteCreate d \<Rightarrow> and_then (on_repo (repo_error_response state) (ca_create crud (c_clock c) owner_id d))
          (\<lambda>hero. ok (Created hero))
      | WriteUpdate fs d \<Rightarrow> and_then (on_repo (ca_crud_error_into_response crud)
          (ca_resolve_update_by_id crud (c_clock c) (the (path_id rq)) owner_id d))
          (\<lambda>hero. ok (Updated (UpdatedOne hero)))
      | WriteDelete fs iu \<Rightarrow> and_then (on_repo (ca_crud_error_into_response crud)
          (ca_resolve_delete crud (c_clock c) (path_id rq) owner_id fs
            (bulk_action_max_matched (as_settings state)) iu))
          (\<lambda>out. ok (Deleted out)))"

definition web_announcement :: "web_post \<Rightarrow> written \<Rightarrow> event_action \<times> int list" where
  "web_announcement rq out = (case out of
       Created hero \<Rightarrow> (Create, [h_id hero])
     | Updated (UpdatedOne hero) \<Rightarrow> (Update, [h_id hero])
     | Updated (UpdatedBulk result) \<Rightarrow> (UpdateMany, br_ids result)
     | Deleted _ \<Rightarrow> (Delete, case path_id rq of None \<Rightarrow> [] | Some i \<Rightarrow> [i]))"

type_synonym web_call = "(string \<Rightarrow> response) \<times> string \<times> web_post"

fun web_steps :: "web_call \<Rightarrow> ('r, 'l, 'sc) app_state \<Rightarrow> call \<Rightarrow> ('r, 'l, response, write_cmd, written) write_steps" where
  "web_steps (redirect, token, rq) state c =
     \<lparr>ws_roles = web_roles rq,
      ws_prepare = map_err (\<lambda>errors. app_error_response state (UnprocessableEntity errors)) (web_cmd rq),
      ws_precondition = ok (), ws_perform = web_perform rq state c,
      ws_announce = web_announcement rq, ws_track = (\<lambda>_. ok ()),
      ws_respond = (\<lambda>_. Inr (redirect (form_uri token)))\<rparr>"

fun serve_web :: "web_call \<Rightarrow> ('r, 'l, 'sc) app_state \<Rightarrow> call \<Rightarrow> claims \<Rightarrow> ('r, 'l) web_handler" where
  "serve_web (redirect, token, rq) state c claims =
     web_router redirect rq state c (Inr \<lparr>wa_claims = claims, wa_token = token\<rparr>)"

lemma map_err_and_then_r:
  "map_err g (and_then_r r (\<lambda>x. Inr (f x))) = and_then_r (map_err g r) (\<lambda>x. Inr (f x))"
  by (cases r) simp_all

lemma web_implements:
  "serve_web rq state c claims = write_pipeline (app_error_response state) state c claims (web_steps rq state c)"
proof -
  obtain redirect token post where rq: "rq = (redirect, token, post)" by (cases rq)
  show ?thesis
    unfolding rq
    by (cases post)
      (simp_all add: create_web_def update_web_def delete_web_def write_pipeline_def role_gate_def
        web_perform_def web_announcement_def map_err_and_then_r fuse Let_def)
qed

lemma web_perform_world: "web_perform rq state c owner cmd w = (res, w') \<Longrightarrow> w' = w\<lparr>w_repo := w_repo w'\<rparr>"
  by (auto simp: web_perform_def run_simps Let_def split: write_cmd.splits sum.splits)

interpretation web: write_endpoint app_error_response serve_web web_steps "\<lambda>_ _. []"
proof
  fix rq :: web_call and state :: "('a, 'b, 'c) app_state" and c claims
  show "serve_web rq state c claims =
      write_pipeline (app_error_response state) state c claims (web_steps rq state c)"
    by (rule web_implements)
next
  fix rq :: web_call and state :: "('a, 'b, 'c) app_state" and c w pres w'
  assume "ws_precondition (web_steps rq state c) w = (pres, w')"
  then show "w' = w" by (cases rq) (simp add: run_simps)
next
  fix rq :: web_call and state :: "('a, 'b, 'c) app_state" and c owner p w ores w'
  assume "ws_perform (web_steps rq state c) owner p w = (ores, w')"
  then show "w' = w\<lparr>w_repo := w_repo w'\<rparr>" by (cases rq) (auto dest: web_perform_world)
next
  fix rq :: web_call and state :: "('a, 'b, 'c) app_state" and c out w
  show "ws_track (web_steps rq state c) out w = (Inr (), w\<lparr>w_tracked := w_tracked w @ []\<rparr>)"
    by (cases rq) (simp add: run_simps)
qed

section \<open>Authentication of the pages\<close>

text \<open>The token a page request presents: a bearer header before the one \<open>token\<close> of the query.\<close>

definition presented_token :: "request_headers \<Rightarrow> raw_params \<Rightarrow> string option" where
  "presented_token headers params =
     (case (case header_str headers AUTHORIZATION of None \<Rightarrow> None | Some hv \<Rightarrow> strip_prefix hv ''Bearer '') of
        Some token \<Rightarrow> Some token | None \<Rightarrow> query_token params)"

text \<open>
  The pages know exactly the callers the API knows: the token of the bearer header, or else
  of the query, is accepted with the claims, and with the effect on the key cache, that the API
  extractor has for it as a bearer token. Without a token the answer is the page that asks for
  one; every failure, an unreachable provider included, is the 401 page.
\<close>

theorem web_caller_is_api_caller:
  "web_from_request_parts crates self now done_at headers params cache =
     (case presented_token headers params of
        None \<Rightarrow> (Inl (html_response (bootstrap_page None)), cache)
      | Some token \<Rightarrow>
          (case from_request_parts crates self now done_at (bearer_headers token) cache of
             (Inr claims, cache') \<Rightarrow> (Inr \<lparr>wa_claims = claims, wa_token = token\<rparr>, cache')
           | (Inl err, cache') \<Rightarrow> (Inl rejected_page, cache')))"
  unfolding from_request_parts_token
  by (simp add: web_from_request_parts_def presented_token_def Let_def run_simps
      split: option.splits prod.splits sum.splits)

section \<open>A form post is the JSON write\<close>

fun web_json :: "web_post \<Rightarrow> (hero_create, hero_update) write_body option" where
  "web_json (FormCreate form) = (case into_hero_create form of Inr d \<Rightarrow> Some (Post d) | Inl _ \<Rightarrow> None)"
| "web_json (FormUpdate rid form) = (case into_hero_update form of Inr d \<Rightarrow> Some (Patch d) | Inl _ \<Rightarrow> None)"
| "web_json (FormDelete rid) = Some Remove"

text \<open>The JSON request a form post stands for: the id of the path, and nothing else in the query.\<close>

definition json_call :: "web_post \<Rightarrow> call \<Rightarrow> call" where
  "json_call rq c = c\<lparr>c_query := \<lparr>hq_id = path_id rq, hq_skip = None, hq_limit = None\<rparr>,
     c_params := [], c_headers := []\<rparr>"

text \<open>An empty query parses to no filters and no flags the crate rejects.\<close>

definition parses_empty :: "('r, 'sc) crud_api \<Rightarrow> bool" where
  "parses_empty crud \<longleftrightarrow> ca_parse_filters crud HERO_FIELD_SPECS [] = Inr [] \<and>
     ca_reject_only_archived crud [] = Inr () \<and> (\<exists>b. ca_parse_include_unpublished crud [] = Inr b)"

lemma json_call_sel [simp]:
  "c_query (json_call rq c) = \<lparr>hq_id = path_id rq, hq_skip = None, hq_limit = None\<rparr>"
  "c_params (json_call rq c) = []" "c_headers (json_call rq c) = []" "c_clock (json_call rq c) = c_clock c"
  by (simp_all add: json_call_def)

lemma json_call_rate: "check_write_rate state (json_call rq c) = check_write_rate state c"
  by (simp add: check_write_rate_def json_call_def)

definition alike :: "(response + written) \<Rightarrow> (app_error + written) \<Rightarrow> bool" where
  "alike a b \<longleftrightarrow> (case (a, b) of (Inr x, Inr y) \<Rightarrow> x = y \<and> (\<forall>r. x \<noteq> Deleted (DeletedBulk r))
     | (Inl _, Inl _) \<Rightarrow> True | _ \<Rightarrow> False)"

lemma answers_one_pair:
  assumes "answers_one rr f a" "answers_one rr g b"
  obtains (no) e e' r' where "a = (Inl e, r')" "b = (Inl e', r')"
  | (yes) x r' where "a = (Inr (f x), r')" "b = (Inr (g x), r')"
  using assms by (auto simp: answers_one_def split: prod.splits sum.splits option.splits)

lemma web_perform_alike:
  assumes so: "service_over rp (as_crud state)"
    and cmd: "(\<exists>d. cmd = WriteCreate d) \<or> (\<exists>i. path_id rq = Some i)"
    and runs: "web_perform rq state c owner cmd w = (res, w1)"
      "perform state (json_call rq c) owner (case cmd of WriteDelete fs iu \<Rightarrow> WriteDelete fs iu' | _ \<Rightarrow> cmd) w = (res', w1')"
  shows "w1 = w1' \<and> alike res res'"
proof (cases cmd)
  case (WriteCreate d)
  then show ?thesis
    using runs
    by (cases "fst (ca_create (as_crud state) (c_clock c) owner d (w_repo w))")
      (auto simp: web_perform_def perform_def run_simps alike_def Let_def)
next
  case (WriteUpdate fs d)
  then obtain i where i: "path_id rq = Some i" using cmd by auto
  note runs = runs [unfolded WriteUpdate, simplified]
  from service_overD(5) [OF so, of "c_clock c" i owner d "w_repo w"]
    service_overD(3) [OF so, of "c_clock c" i owner d "w_repo w" fs "bulk_action_max_matched (as_settings state)"]
  show ?thesis
    by (rule answers_one_pair)
      (use runs i in \<open>auto simp: web_perform_def perform_def run_simps alike_def Let_def\<close>)
next
  case (WriteDelete fs iu)
  then obtain i where i: "path_id rq = Some i" using cmd by auto
  note runs = runs [unfolded WriteDelete, simplified]
  from service_overD(6) [OF so, where clk = "c_clock c" and i = i and owner = owner and r = "w_repo w"
      and fs = fs and mx = "bulk_action_max_matched (as_settings state)" and iu = iu]
    service_overD(6) [OF so, where clk = "c_clock c" and i = i and owner = owner and r = "w_repo w"
      and fs = fs and mx = "bulk_action_max_matched (as_settings state)" and iu = iu']
  show ?thesis
    by (rule answers_one_pair)
      (use runs i in \<open>auto simp: web_perform_def perform_def run_simps alike_def Let_def\<close>)
qed

lemma web_steps_json:
  assumes "web_json rq = Some body" and "parses_empty (as_crud state)"
  shows "web_roles rq = required_roles (ViaJson body)"
    and "ws_precondition (api_steps (ViaJson body) state (json_call rq c)) = ok ()"
    and "\<exists>cmd iu. web_cmd rq = Inr cmd \<and> ((\<exists>d. cmd = WriteCreate d) \<or> (\<exists>i. path_id rq = Some i)) \<and>
      ws_prepare (api_steps (ViaJson body) state (json_call rq c)) =
        Inr (case cmd of WriteDelete fs _ \<Rightarrow> WriteDelete fs iu | _ \<Rightarrow> cmd)"
proof -
  have pre: "if_match_of state (json_call rq c) = ok ()"
    by (simp add: if_match_of_def enforce_if_match_absent contains_key_def header_lookup_def)
  note q = assms(2) [unfolded parses_empty_def]
  show "web_roles rq = required_roles (ViaJson body)"
    using assms(1) by (cases rq) (auto simp: required_roles_def split: sum.splits)
  show "ws_precondition (api_steps (ViaJson body) state (json_call rq c)) = ok ()"
    using assms(1) pre
    by (cases rq) (auto simp: api_steps_def steps_of_def write_steps_laws split: sum.splits)
  show "\<exists>cmd iu. web_cmd rq = Inr cmd \<and> ((\<exists>d. cmd = WriteCreate d) \<or> (\<exists>i. path_id rq = Some i)) \<and>
      ws_prepare (api_steps (ViaJson body) state (json_call rq c)) =
        Inr (case cmd of WriteDelete fs _ \<Rightarrow> WriteDelete fs iu | _ \<Rightarrow> cmd)"
  proof (cases rq)
    case (FormCreate form)
    then obtain d where d: "into_hero_create form = Inr d" "body = Post d"
      using assms(1) by (auto split: sum.splits)
    with FormCreate show ?thesis
      using into_hero_create_Inr [OF d(1)]
      by (simp add: api_steps_def steps_of_def create_steps_def hero_write_def checked_body_def)
  next
    case (FormUpdate rid form)
    then obtain d where d: "into_hero_update form = Inr d" "body = Patch d"
      using assms(1) by (auto split: sum.splits)
    with FormUpdate show ?thesis
      using into_hero_update_Inr [OF d(1)] q
      by (simp add: api_steps_def steps_of_def update_steps_def hero_write_def checked_body_def query_filters_def)
  next
    case (FormDelete rid)
    then show ?thesis
      using assms(1) q
      by (auto simp: api_steps_def steps_of_def delete_steps_def hero_write_def query_filters_def)
  qed
qed

lemma web_announcement_alike:
  "(\<forall>r. out \<noteq> Deleted (DeletedBulk r)) \<Longrightarrow> announcement (json_call rq c) out = web_announcement rq out"
  by (cases out) (auto simp: announcement_def web_announcement_def split: delete_outcome.splits)

lemma json_reply_Inr: "\<exists>r. reply json_codec crud out = Inr r"
  by (auto simp: reply_def render_def json_codec_def split: written.splits update_outcome.splits delete_outcome.splits)

lemma web_same_effect_lemma:
  assumes so: "service_over rp (as_crud state)" and pe: "parses_empty (as_crud state)"
    and body: "web_json rq = Some body"
    and runs: "serve_web (redirect, token, rq) state c claims w = (res, w1)"
      "serve_write (ViaJson body) state (json_call rq c) claims w = (res', w1')"
  shows "same_effect w1 w1' \<and> ((\<exists>r. res' = Inr r) \<longleftrightarrow> (\<exists>r. res = Inr r)) \<and>
    (\<forall>r. res = Inr r \<longrightarrow> r = redirect (form_uri token))"
proof -
  let ?c = "json_call rq c"
  note steps = web_steps_json [OF body pe]
  obtain cmd iu where cmd: "web_cmd rq = Inr cmd" "(\<exists>d. cmd = WriteCreate d) \<or> (\<exists>i. path_id rq = Some i)"
    "ws_prepare (api_steps (ViaJson body) state ?c) =
       Inr (case cmd of WriteDelete fs _ \<Rightarrow> WriteDelete fs iu | _ \<Rightarrow> cmd)"
    using steps(3) [of c] by blast
  obtain r v where cw: "check_write_rate state c w = (r, v)" by force
  show ?thesis
  proof (cases r)
    case (Inl err)
    then show ?thesis
      using cw runs web.rate_limited [of state c w err v "(redirect, token, rq)" claims]
        api.rate_limited [of state ?c w err v "ViaJson body" claims] by (simp add: json_call_rate)
  next
    case (Inr u)
    then have ok1: "check_write_rate state c w = (Inr (), v)" "check_write_rate state ?c w = (Inr (), v)"
      using cw by (simp_all add: json_call_rate)
    show ?thesis
    proof (cases "has_role state claims (web_roles rq)")
      case False
      then show ?thesis
        using runs web.forbidden [OF ok1(1), of claims "(redirect, token, rq)"]
          api.forbidden [OF ok1(2), of claims "ViaJson body"] steps(1)
        by (auto simp: api_steps_roles role_gate_iff simp del: serve_web.simps)
    next
      case True
      then have g: "role_gate state claims (ws_roles (web_steps (redirect, token, rq) state c)) = Inr ()"
        "role_gate state claims (ws_roles (api_steps (ViaJson body) state ?c)) = Inr ()"
        using steps(1) by (simp_all add: api_steps_roles role_gate_iff)
      show ?thesis
      proof (cases "subject claims")
        case (Inl err)
        then show ?thesis
          using runs cmd(1,3) unfolding web.passed [OF ok1(1) g(1)] api.passed [OF ok1(2) g(2)] by auto
      next
        case (Inr owner)
        obtain a w2 where a: "web_perform rq state c owner cmd v = (a, w2)" by force
        obtain b w2' where b: "perform state ?c owner
            (case cmd of WriteDelete fs _ \<Rightarrow> WriteDelete fs iu | _ \<Rightarrow> cmd) v = (b, w2')" by force
        have al: "w2 = w2'" "alike a b"
          using web_perform_alike [OF so cmd(2) a, of iu b w2'] b by (auto split: write_cmd.splits)
        show ?thesis
          using runs Inr cmd(1,3) a b al steps(2) [of c]
          unfolding web.passed [OF ok1(1) g(1)] api.passed [OF ok1(2) g(2)]
          by (auto simp: alike_def api_perform api_announce api_respond same_effect_def run_simps
              web_announcement_alike json_reply_Inr split: sum.splits)
      qed
    qed
  qed
qed

text \<open>
  C27. A form post is the JSON write of the record its path names: over a crate service on any
  repository, it leaves the repository, the limiter and the event bus as the version 2 JSON
  request with the converted body does, and redirects back to the form exactly when that request
  succeeds. Role sets, rate limit, ownership and announcement are therefore the API's.
\<close>

theorem web_posts_are_json_writes:
  assumes "service_over rp (as_crud state)" and "parses_empty (as_crud state)"
    and "web_json rq = Some body"
    and "serve_web (redirect, token, rq) state c claims w = (res, w1)"
    and "serve_write (ViaJson body) state (json_call rq c) claims w = (res', w1')"
  shows "w_repo w1 = w_repo w1' \<and> w_limiter w1 = w_limiter w1' \<and> w_events w1 = w_events w1' \<and>
    (case res of Inl _ \<Rightarrow> (\<exists>err. res' = Inl err)
     | Inr r \<Rightarrow> r = redirect (form_uri token) \<and> (\<exists>r'. res' = Inr r'))"
  using web_same_effect_lemma [OF assms]
  by (cases res; cases res') (auto simp: same_effect_def)

section \<open>The token in the page\<close>

text \<open>
  What jsonwebtoken documents of the tokens it verifies: they are compact serializations, three
  base64url segments, which hold no quote.
\<close>

definition jwt_compact :: "('ks, 'k, 'd) oidc_crates \<Rightarrow> bool" where
  "jwt_compact crates \<longleftrightarrow>
     (\<forall>token key v claims. jwt_decode crates token key v = Some claims \<longrightarrow> CHR 0x22 \<notin> set token)"

lemma verified_token_compact:
  assumes "mode_of (ov_settings self) \<noteq> MockMode" "jwt_compact crates"
    and "decode_bearer_token crates self now done_at token cache = (Inr claims, cache')"
  shows "CHR 0x22 \<notin> set token"
proof -
  obtain key v where "jwt_decode crates token key v = Some claims"
    using assms(1,3)
    by (auto simp: decode_bearer_token_def run_simps ok_or_Inr split: sum.splits prod.splits)
  then show ?thesis using assms(2) by (auto simp: jwt_compact_def)
qed

lemma web_auth_token:
  assumes "web_from_request_parts crates self now done_at headers params cache = (Inr auth, cache')"
  shows "decode_bearer_token crates self now done_at (wa_token auth) cache = (Inr (wa_claims auth), cache')"
  using assms
  by (auto simp: web_from_request_parts_def Let_def run_simps split: option.splits prod.splits sum.splits)

lemma form_page_Inr:
  assumes "form_page state (Inr auth) w = (Inr resp, w')"
  obtains heroes where "resp = html_response (heroes_page heroes (wa_token auth))"
    "ca_list (as_crud state) 0 100 False False [] [] (w_repo w) = (Inr heroes, w_repo w')"
  using assms
  by (cases "ca_list (as_crud state) 0 100 False False [] [] (w_repo w)")
    (auto simp: form_page_def Let_def run_simps split: sum.splits)

text \<open>
  C25. Outside mock mode the form page an authenticated caller gets has the fixed markup of its
  number of rows: neither a stored name or power nor the token in its links adds markup to it.
\<close>

theorem form_page_markup:
  assumes "mode_of (ov_settings self) \<noteq> MockMode" and "jwt_compact crates"
    and "web_from_request_parts crates self now done_at headers params cache = (Inr auth, cache')"
    and "form_page state (Inr auth) w = (Inr resp, w')"
  shows "\<exists>n page. r_body resp = TextBody page \<and>
    markup Content page = markup Content (heroes_page (replicate n blank_hero) [])"
proof -
  obtain heroes where resp: "resp = html_response (heroes_page heroes (wa_token auth))"
    using assms(4) by (rule form_page_Inr)
  have "CHR 0x22 \<notin> set (wa_token auth)"
    by (rule verified_token_compact [OF assms(1,2) web_auth_token [OF assms(3)]])
  then have "markup Content (heroes_page heroes (wa_token auth)) =
      markup Content (heroes_page (replicate (length heroes) blank_hero) [])"
    by (simp add: heroes_page_markup)
  then show ?thesis unfolding resp html_response_def text_response_def by auto
qed

text \<open>The text of a page before its first token.\<close>

definition page_start :: string where
  "page_start = format (take 3 (heroes_page_head []))"

lemma heroes_page_start:
  obtains rest where "heroes_page heroes token = page_start @ token @ CHR 0x22 # CHR '' '' # rest"
proof
  show "heroes_page heroes token = page_start @ token @ CHR 0x22 # CHR '' '' #
      drop 2 (format (drop 4 (heroes_page_head token))) @
      join NL (map (\<lambda>hero. hero_row_html hero token) heroes) @ format (heroes_page_foot token)"
    by (simp add: heroes_page_def page_start_def heroes_page_head_def Let_def numeral_eq_Suc raw_def replace_char_def)
qed

lemma page_start_quoted: "html_mode_after Content page_start = Quoted"
  by (simp add: page_start_def heroes_page_head_def numeral_eq_Suc raw_def replace_char_def NL_def)

lemma injected_markup:
  "markup Content (heroes_page heroes (CHR 0x22 # CHR ''>'' # s)) \<noteq> markup Content (heroes_page heroes' [])"
proof -
  obtain a where a: "heroes_page heroes (CHR 0x22 # CHR ''>'' # s) =
      page_start @ (CHR 0x22 # CHR ''>'' # s) @ CHR 0x22 # CHR '' '' # a"
    by (rule heroes_page_start)
  obtain b where b: "heroes_page heroes' [] = page_start @ [] @ CHR 0x22 # CHR '' '' # b"
    by (rule heroes_page_start)
  show ?thesis by (simp add: a b markup_append page_start_quoted)
qed

text \<open>
  In mock mode the token is not verified and any text before its payload is accepted: every
  payload the mock decoder reads as a caller with a read role also comes as a query token that
  writes markup of its own into the page, which \<open>escape_html\<close> is not applied to.
\<close>

theorem mock_token_injects_markup:
  assumes "mode_of (ov_settings self) = MockMode"
    and "url_safe_no_pad_decode crates payload = Some payload_bytes" and "json_from_slice crates payload_bytes = Some claims"
    and "CHR ''.'' \<notin> set payload" and "has_role state claims HERO_READ_ROLES"
    and "ca_list (as_crud state) 0 100 False False [] [] (w_repo w) = (Inr heroes, r)"
  shows "\<exists>token auth page. web_from_request_parts crates self now done_at [] [(''token'', token)] cache =
      (Inr auth, cache) \<and>
    form_page state (Inr auth) w = (Inr (html_response page), w\<lparr>w_repo := r\<rparr>) \<and>
    (\<forall>n. markup Content page \<noteq> markup Content (heroes_page (replicate n blank_hero) []))"
proof -
  let ?token = "CHR 0x22 # CHR ''>'' # ''<script>'' @ CHR ''.'' # payload"
  let ?auth = "\<lparr>wa_claims = claims, wa_token = ?token\<rparr>"
  have "split_on (CHR ''.'') ?token = [CHR 0x22 # CHR ''>'' # ''<script>'', payload]"
    using split_on_append_sep [of "CHR ''.''" "CHR 0x22 # CHR ''>'' # ''<script>''" payload]
      split_on_no_sep [OF assms(4)] by simp
  then have "decode_bearer_token crates self now done_at ?token cache = (Inr claims, cache)"
    using assms(1-3)
    by (simp add: decode_bearer_token_def decode_without_verification_def Let_def run_simps del: split_on.simps)
  then have "web_from_request_parts crates self now done_at [] [(''token'', ?token)] cache = (Inr ?auth, cache)"
    by (simp add: web_from_request_parts_def header_str_def header_lookup_def query_token_def)
  moreover have "form_page state (Inr ?auth) w =
      (Inr (html_response (heroes_page heroes ?token)), w\<lparr>w_repo := r\<rparr>)"
    using assms(5,6) role_gate_iff [of state claims HERO_READ_ROLES]
    by (simp add: form_page_def Let_def run_simps role_gate_def)
  ultimately show ?thesis using injected_markup by blast
qed

section \<open>Witnesses\<close>

lemma sample_parses_empty: "parses_empty sample_crud"
  by (auto simp: parses_empty_def sample_crud_eq name_filters_def param_flag_def)

theorem web_posts_are_json_writes_witness:
  "\<exists>res w1 res' w1'.
     serve_web (redirect_to, ''t'', FormDelete 1) sample_state (sample_call None [] [])
       (sample_claims ''alice'' ''maintainer'') sample_world = (res, w1) \<and>
     serve_write (ViaJson Remove) sample_state (json_call (FormDelete 1) (sample_call None [] []))
       (sample_claims ''alice'' ''maintainer'') sample_world = (res', w1') \<and>
     w_repo w1 = w_repo w1' \<and> w_events w1 = w_events w1'"
proof -
  obtain res w1 where a: "serve_web (redirect_to, ''t'', FormDelete 1) sample_state (sample_call None [] [])
      (sample_claims ''alice'' ''maintainer'') sample_world = (res, w1)" by force
  obtain res' w1' where b: "serve_write (ViaJson Remove) sample_state
      (json_call (FormDelete 1) (sample_call None [] [])) (sample_claims ''alice'' ''maintainer'') sample_world =
      (res', w1')" by force
  have "service_over memory_repository (as_crud sample_state)" "parses_empty (as_crud sample_state)"
    by (simp_all add: sample_service sample_parses_empty)
  from web_posts_are_json_writes [OF this _ a b] a b show ?thesis by auto
qed

text \<open>A provider whose one token carries a viewer's claims, and a mock decoder that reads any payload so.\<close>

definition web_sample_crates :: "(string list, string, string) oidc_crates" where
  "web_sample_crates = sample_oidc_crates
     \<lparr>jwt_decode := (\<lambda>token d v. if token = ''good'' then Some (sample_claims ''alice'' ''viewer'') else None),
      json_from_slice := (\<lambda>_. Some (sample_claims ''alice'' ''viewer''))\<rparr>"

lemma web_sample_auth:
  "web_from_request_parts web_sample_crates (sample_verifier Dev) 5 9 [] [(''token'', ''good'')]
     (Some \<lparr>fetched_at = 4, cached_keys = [''k1'']\<rparr>) =
   (Inr \<lparr>wa_claims = sample_claims ''alice'' ''viewer'', wa_token = ''good''\<rparr>,
    Some \<lparr>fetched_at = 4, cached_keys = [''k1'']\<rparr>)"
  by (simp add: web_from_request_parts_def header_str_def header_lookup_def query_token_def
      decode_bearer_token_def run_simps jwks_def JWKS_CACHE_TTL_def web_sample_crates_def sample_crates_sel
      sample_verifier_def verifier_new_def with_resource_server_def sample_settings_def)

lemma sample_viewer: "has_role sample_state (sample_claims sub ''viewer'') HERO_READ_ROLES"
  by (simp add: has_role_def sample_claims_roles HERO_READ_ROLES_def)

lemma sample_form_page:
  "\<exists>resp w'. form_page sample_state (Inr \<lparr>wa_claims = sample_claims ''alice'' ''viewer'', wa_token = ''good''\<rparr>)
     sample_world = (Inr resp, w')"
  using sample_viewer [of "''alice''"] role_gate_iff [of sample_state "sample_claims ''alice'' ''viewer''" HERO_READ_ROLES]
  by (simp add: form_page_def Let_def run_simps role_gate_def sample_crud_eq mem_list_def sample_repo_def
      split: sum.splits)

theorem form_page_markup_witness:
  "\<exists>resp w' n page. form_page sample_state
       (Inr \<lparr>wa_claims = sample_claims ''alice'' ''viewer'', wa_token = ''good''\<rparr>) sample_world = (Inr resp, w') \<and>
     r_body resp = TextBody page \<and> markup Content page = markup Content (heroes_page (replicate n blank_hero) [])"
proof -
  obtain resp w' where p: "form_page sample_state
      (Inr \<lparr>wa_claims = sample_claims ''alice'' ''viewer'', wa_token = ''good''\<rparr>) sample_world = (Inr resp, w')"
    using sample_form_page by blast
  have "mode_of (ov_settings (sample_verifier Dev)) \<noteq> MockMode"
    by (simp add: sample_verifier_def verifier_new_def with_resource_server_def sample_settings_def)
  moreover have "jwt_compact web_sample_crates" by (simp add: jwt_compact_def web_sample_crates_def)
  ultimately show ?thesis using form_page_markup [OF _ _ web_sample_auth p] p by blast
qed

theorem mock_token_injects_markup_witness:
  "\<exists>token auth page. web_from_request_parts web_sample_crates (sample_verifier MockMode) 5 9 []
       [(''token'', token)] None = (Inr auth, None) \<and>
     fst (form_page sample_state (Inr auth) sample_world) = Inr (html_response page) \<and>
     (\<forall>n. markup Content page \<noteq> markup Content (heroes_page (replicate n blank_hero) []))"
proof -
  have m: "mode_of (ov_settings (sample_verifier MockMode)) = MockMode"
    by (simp add: sample_verifier_def verifier_new_def with_resource_server_def sample_settings_def)
  have d: "url_safe_no_pad_decode web_sample_crates ''p'' = Some ''p''"
      "json_from_slice web_sample_crates ''p'' = Some (sample_claims ''alice'' ''viewer'')"
    by (simp_all add: web_sample_crates_def sample_oidc_crates_def)
  obtain heroes where l: "ca_list (as_crud sample_state) 0 100 False False [] [] (w_repo sample_world) =
      (Inr heroes, w_repo sample_world)"
    by (simp add: sample_crud_eq mem_list_def)
  show ?thesis
    using mock_token_injects_markup [OF m d _ sample_viewer l, of 5 9 None] by (fastforce simp: code_def)
qed

end
