(* ===== verification/Stats_Cache.thy ===== *)
theory Stats_Cache
  imports Http Config
begin

text \<open>
  \<open>src/cache.rs\<close>: the Redis stats cache and the task that invalidates it. The Redis commands are
  the parameters of \<open>cache_commands\<close>; what the Redis manual promises of them, of \<open>SCAN\<close> in
  particular, is \<open>redis_store_documented\<close>, and of glob patterns \<open>glob_documented\<close>. The loop of
  \<open>try_invalidate\<close> may run forever as far as the code goes, so it is a partial function, shown to
  return for a server that keeps those promises. \<open>run_invalidation\<close> is a step relation: every
  \<open>await\<close> is a program point, \<open>select!\<close> a choice.
\<close>

section \<open>Keys\<close>

definition KEY_PREFIX :: string where
  "KEY_PREFIX = ''stats-cache''"

definition SCAN_COUNT :: nat where
  "SCAN_COUNT = 500"

definition version_or_unknown :: "string option \<Rightarrow> string" where
  "version_or_unknown version =
     (case (case version of Some v \<Rightarrow> if v \<noteq> [] then Some v else None | None \<Rightarrow> None) of
        Some v \<Rightarrow> v | None \<Rightarrow> ''unknown'')"

definition app_version :: "env \<Rightarrow> string" where
  "app_version env = version_or_unknown (case env ''APP_VERSION'' of Present v \<Rightarrow> Some v | _ \<Rightarrow> None)"

definition glob_special :: "char \<Rightarrow> bool" where
  "glob_special ch = (ch \<in> {CHR ''*'', CHR ''?'', CHR ''['', CHR '']'', CHR 0x5C})"

definition glob_escape :: "string \<Rightarrow> string" where
  "glob_escape s =
     fold (\<lambda>ch out. let out = (if glob_special ch then out @ [CHR 0x5C] else out) in out @ [ch]) s []"

section \<open>The cache\<close>

type_synonym redis_error = string

record 's cache_commands =
  cc_get :: "string \<Rightarrow> ('s, redis_error, string option) eff"
  cc_set_ex :: "string \<Rightarrow> string \<Rightarrow> nat \<Rightarrow> ('s, redis_error, unit) eff"
  cc_scan :: "nat \<Rightarrow> string \<Rightarrow> nat \<Rightarrow> ('s, redis_error, nat \<times> string list) eff"
  cc_unlink :: "string list \<Rightarrow> ('s, redis_error, nat) eff"
  cc_to_string :: "json \<Rightarrow> string"
  cc_from_slice :: "string \<Rightarrow> json option"

record redis_stats_cache =
  sc_ttl :: nat
  sc_version :: string
  sc_prefix :: string

definition connect_with_prefix :: "nat \<Rightarrow> string \<Rightarrow> string \<Rightarrow> redis_stats_cache" where
  "connect_with_prefix ttl version prefix = \<lparr>sc_ttl = ttl, sc_version = version, sc_prefix = prefix\<rparr>"

definition cache_connect :: "nat \<Rightarrow> string \<Rightarrow> redis_stats_cache" where
  "cache_connect ttl version = connect_with_prefix ttl version KEY_PREFIX"

definition redis_key :: "redis_stats_cache \<Rightarrow> string \<Rightarrow> string \<Rightarrow> string" where
  "redis_key self resource key =
     sc_prefix self @ '':'' @ sc_version self @ '':'' @ resource @ '':'' @ key"

definition invalidation_pattern :: "redis_stats_cache \<Rightarrow> string \<Rightarrow> string" where
  "invalidation_pattern self resource = sc_prefix self @ '':*:'' @ glob_escape resource @ '':*''"

text \<open>The \<open>loop\<close> of \<open>try_invalidate\<close>: one \<open>SCAN\<close>, an \<open>UNLINK\<close> of what it returned, until cursor 0.\<close>

partial_function (option) scan_loop ::
  "'s cache_commands \<Rightarrow> string \<Rightarrow> nat \<Rightarrow> 's \<Rightarrow> ((redis_error + unit) \<times> 's) option" where
  "scan_loop cc pattern cursor s =
     (case cc_scan cc cursor pattern SCAN_COUNT s of
        (Inl err, s1) \<Rightarrow> Some (Inl err, s1)
      | (Inr (next_cursor, keys), s1) \<Rightarrow>
          (case (if keys \<noteq> [] then cc_unlink cc keys s1 else (Inr 0, s1)) of
             (Inl err, s2) \<Rightarrow> Some (Inl err, s2)
           | (Inr _, s2) \<Rightarrow>
               if next_cursor = 0 then Some (Inr (), s2)
               else scan_loop cc pattern next_cursor s2))"

definition try_invalidate ::
  "'s cache_commands \<Rightarrow> redis_stats_cache \<Rightarrow> string \<Rightarrow> 's \<Rightarrow> ((redis_error + unit) \<times> 's) option" where
  "try_invalidate cc self resource s = scan_loop cc (invalidation_pattern self resource) 0 s"

text \<open>The trait's operations. Their error type is empty in effect: every failure degrades.\<close>

type_synonym cache_error = string

definition stats_cache_get :: "'s cache_commands \<Rightarrow> redis_stats_cache \<Rightarrow> string \<Rightarrow> string \<Rightarrow>
    ('s, cache_error, json option) eff" where
  "stats_cache_get cc self resource key = (\<lambda>s.
     case cc_get cc (redis_key self resource key) s of
       (Inr (Some raw), s') \<Rightarrow>
         (case cc_from_slice cc raw of Some hv \<Rightarrow> (Inr (Some hv), s') | None \<Rightarrow> (Inr None, s'))
     | (Inr None, s') \<Rightarrow> (Inr None, s')
     | (Inl err, s') \<Rightarrow> (Inr None, s'))"

definition stats_cache_set :: "'s cache_commands \<Rightarrow> redis_stats_cache \<Rightarrow> string \<Rightarrow> string \<Rightarrow> json \<Rightarrow>
    ('s, cache_error, unit) eff" where
  "stats_cache_set cc self resource key hv = (\<lambda>s.
     case cc_set_ex cc (redis_key self resource key) (cc_to_string cc hv) (max (sc_ttl self) 1) s of
       (_, s') \<Rightarrow> (Inr (), s'))"

definition stats_cache_invalidate :: "'s cache_commands \<Rightarrow> redis_stats_cache \<Rightarrow> string \<Rightarrow> 's \<Rightarrow>
    ((cache_error + unit) \<times> 's) option" where
  "stats_cache_invalidate cc self resource s =
     (case try_invalidate cc self resource s of
        None \<Rightarrow> None | Some (_, s') \<Rightarrow> Some (Inr (), s'))"

text \<open>\<open>build_stats_cache\<close>: which cache a process uses; the connection itself is I/O.\<close>

datatype stats_cache_kind = MemoryCache nat | RedisCache redis_stats_cache

definition build_stats_cache :: "env \<Rightarrow> mode \<Rightarrow> nat option \<Rightarrow> stats_cache_kind option" where
  "build_stats_cache env mode ttl =
     (case ttl of
        None \<Rightarrow> None
      | Some ttl \<Rightarrow>
          if mode = MockMode then Some (MemoryCache ttl)
          else Some (RedisCache (cache_connect ttl (app_version env))))"

section \<open>Escaped patterns\<close>

text \<open>The Redis manual on glob-style patterns, for the constructs the pattern uses.\<close>

definition glob_documented :: "(string \<Rightarrow> string \<Rightarrow> bool) \<Rightarrow> bool" where
  "glob_documented gm \<longleftrightarrow>
     (\<forall>s. gm [] s = (s = [])) \<and>
     (\<forall>c p s. \<not> glob_special c \<longrightarrow> gm (c # p) s = (\<exists>t. s = c # t \<and> gm p t)) \<and>
     (\<forall>c p s. gm (CHR 0x5C # c # p) s = (\<exists>t. s = c # t \<and> gm p t)) \<and>
     (\<forall>p s. gm (CHR ''*'' # p) s = (\<exists>a b. s = a @ b \<and> gm p b))"

definition escape_glob_char :: "char \<Rightarrow> string" where
  "escape_glob_char ch = (if glob_special ch then [CHR 0x5C, ch] else [ch])"

lemma glob_escape_concat: "glob_escape s = concat (map escape_glob_char s)"
proof -
  have "fold (\<lambda>ch out. let out = (if glob_special ch then out @ [CHR 0x5C] else out) in out @ [ch]) s out =
      out @ concat (map escape_glob_char s)" for out
    by (induction s arbitrary: out) (auto simp: escape_glob_char_def Let_def)
  then show ?thesis by (simp add: glob_escape_def)
qed

lemma glob_escape_matches:
  assumes "glob_documented gm"
  shows "gm (glob_escape r @ p) s \<longleftrightarrow> (\<exists>t. s = r @ t \<and> gm p t)"
proof (induction r arbitrary: s)
  case (Cons c r)
  have "gm (escape_glob_char c @ q) s = (\<exists>t. s = c # t \<and> gm q t)" for q
    using assms by (simp add: glob_documented_def escape_glob_char_def)
  then show ?case using Cons by (auto simp: glob_escape_concat)
qed (simp add: glob_escape_concat)

lemma glob_literal:
  assumes "glob_documented gm" "list_all (\<lambda>c. \<not> glob_special c) r"
  shows "gm (r @ p) s \<longleftrightarrow> (\<exists>t. s = r @ t \<and> gm p t)"
proof -
  have "glob_escape r = r"
    using assms(2) by (induction r) (simp_all add: glob_escape_concat escape_glob_char_def)
  then show ?thesis using glob_escape_matches [OF assms(1), of r p s] by simp
qed

text \<open>What the pattern selects: the entries of the resource under any version.\<close>

lemma pattern_matches:
  assumes "glob_documented gm" "list_all (\<lambda>c. \<not> glob_special c) (sc_prefix self)"
  shows "gm (invalidation_pattern self resource) k \<longleftrightarrow>
    (\<exists>version key. k = sc_prefix self @ '':'' @ version @ '':'' @ resource @ '':'' @ key)"
proof -
  have colon: "gm (CHR '':'' # p) s = (\<exists>t. s = CHR '':'' # t \<and> gm p t)" for p s
    using assms(1) by (simp add: glob_documented_def glob_special_def)
  have star: "gm (CHR ''*'' # p) s = (\<exists>a b. s = a @ b \<and> gm p b)" and nil: "gm [] s = (s = [])" for p s
    using assms(1) by (simp_all add: glob_documented_def)
  show ?thesis
    unfolding invalidation_pattern_def glob_literal [OF assms]
    by (auto simp: colon star nil glob_escape_matches [OF assms(1)]) blast
qed

section \<open>The invalidation loop\<close>

text \<open>
  What the Redis manual promises, in terms of what the server stores. \<open>due c s\<close> is what a scan at
  cursor \<open>c\<close> has still to return and \<open>todo c s\<close> bounds the calls left: a full iteration returns
  every key that is there from start to end, and it ends.
\<close>

definition redis_store_documented ::
  "'s cache_commands \<Rightarrow> (string \<Rightarrow> string \<Rightarrow> bool) \<Rightarrow> ('s \<Rightarrow> string \<Rightarrow> string option) \<Rightarrow>
   (nat \<Rightarrow> 's \<Rightarrow> string set) \<Rightarrow> (nat \<Rightarrow> 's \<Rightarrow> nat) \<Rightarrow> bool" where
  "redis_store_documented cc gm store due todo \<longleftrightarrow>
     (\<forall>k s r s'. cc_get cc k s = (r, s') \<longrightarrow> store s' = store s \<and> (\<forall>v. r = Inr v \<longrightarrow> v = store s k)) \<and>
     (\<forall>k v n s s'. cc_set_ex cc k v n s = (Inr (), s') \<longrightarrow> store s' = (store s)(k \<mapsto> v)) \<and>
     (\<forall>ks s n s'. cc_unlink cc ks s = (Inr n, s') \<longrightarrow>
        store s' = (store s) |` (- set ks) \<and> (\<forall>c. due c s' = due c s \<and> todo c s' = todo c s)) \<and>
     (\<forall>ks s e s'. cc_unlink cc ks s = (Inl e, s') \<longrightarrow>
        (\<exists>gone \<subseteq> set ks. store s' = (store s) |` (- gone))) \<and>
     (\<forall>c p n s e s'. cc_scan cc c p n s = (Inl e, s') \<longrightarrow> store s' = store s) \<and>
     (\<forall>c p n s next ks s'. cc_scan cc c p n s = (Inr (next, ks), s') \<longrightarrow> store s' = store s \<and>
        (\<forall>k \<in> set ks. gm p k) \<and>
        (\<forall>k \<in> due c s. gm p k \<longrightarrow> k \<in> dom (store s) \<longrightarrow> k \<in> set ks \<or> (next \<noteq> 0 \<and> k \<in> due next s')) \<and>
        (next \<noteq> 0 \<longrightarrow> todo next s' < todo c s)) \<and>
     (\<forall>s. dom (store s) \<subseteq> due 0 s)"

lemma redis_storeD:
  assumes "redis_store_documented cc gm store due todo"
  shows "cc_get cc k s = (r, s') \<Longrightarrow> store s' = store s \<and> (\<forall>v. r = Inr v \<longrightarrow> v = store s k)"
    and "cc_set_ex cc k v n s = (Inr (), s') \<Longrightarrow> store s' = (store s)(k \<mapsto> v)"
    and "cc_unlink cc ks s = (Inr m, s') \<Longrightarrow>
        store s' = (store s) |` (- set ks) \<and> due c s' = due c s \<and> todo c s' = todo c s"
    and "cc_unlink cc ks s = (Inl e, s') \<Longrightarrow> \<exists>gone \<subseteq> set ks. store s' = (store s) |` (- gone)"
    and "cc_scan cc c p n s = (Inl e, s') \<Longrightarrow> store s' = store s"
    and "cc_scan cc c p n s = (Inr (next_cursor, ks), s') \<Longrightarrow> store s' = store s \<and>
        (\<forall>k \<in> set ks. gm p k) \<and>
        (\<forall>k \<in> due c s. gm p k \<longrightarrow> k \<in> dom (store s) \<longrightarrow>
           k \<in> set ks \<or> (next_cursor \<noteq> 0 \<and> k \<in> due next_cursor s')) \<and>
        (next_cursor \<noteq> 0 \<longrightarrow> todo next_cursor s' < todo c s)"
    and "dom (store s) \<subseteq> due 0 s"
  using assms unfolding redis_store_documented_def by simp_all

text \<open>What the loop may do to the store, and what it has done when it reports success.\<close>

definition purges :: "(string \<Rightarrow> bool) \<Rightarrow> (string \<Rightarrow> string option) \<Rightarrow> (string \<Rightarrow> string option) \<Rightarrow> bool" where
  "purges sel m m' \<longleftrightarrow> (\<forall>k. m' k = m k \<or> (m' k = None \<and> sel k))"

lemma purges_trans: "purges sel m m' \<Longrightarrow> purges sel m' m'' \<Longrightarrow> purges sel m m''"
  unfolding purges_def by metis

lemma purges_refl [simp]: "purges sel m m"
  by (simp add: purges_def)

lemma purges_restrict: "(\<forall>k \<in> gone. sel k) \<Longrightarrow> purges sel m (m |` (- gone))"
  by (auto simp: purges_def restrict_map_def)

lemma scan_loop_returns:
  assumes doc: "redis_store_documented cc gm store due todo"
  shows "\<exists>r s'. scan_loop cc p c s = Some (r, s') \<and> purges (gm p) (store s) (store s') \<and>
    (r = Inr () \<longrightarrow> (\<forall>k \<in> due c s. gm p k \<longrightarrow> store s' k = None))"
proof (induction "todo c s" arbitrary: c s rule: less_induct)
  case less
  obtain sr s1 where scan: "cc_scan cc c p SCAN_COUNT s = (sr, s1)" by force
  show ?case
  proof (cases sr)
    case (Inl e)
    then show ?thesis
      using scan redis_storeD(5) [OF doc] by (subst scan_loop.simps) (fastforce simp: purges_def)
  next
    case (Inr nk)
    obtain nxt keys where nk: "nk = (nxt, keys)" by (cases nk)
    note sc = redis_storeD(6) [OF doc scan [unfolded Inr nk]]
    obtain ur s2 where ul: "(if keys \<noteq> [] then cc_unlink cc keys s1 else (Inr 0, s1)) = (ur, s2)" by force
    have loop: "scan_loop cc p c s = (case ur of Inl err \<Rightarrow> Some (Inl err, s2)
        | Inr _ \<Rightarrow> if nxt = 0 then Some (Inr (), s2) else scan_loop cc p nxt s2)"
      by (subst scan_loop.simps) (simp add: scan Inr nk ul del: if_split)
    show ?thesis
    proof (cases ur)
      case (Inl e)
      then obtain gone where "gone \<subseteq> set keys" "store s2 = store s1 |` (- gone)"
        using ul redis_storeD(4) [OF doc] by (metis old.sum.distinct(1) prod.inject)
      then have "purges (gm p) (store s) (store s2)"
        using sc by (metis purges_restrict subsetD)
      then show ?thesis using loop Inl by simp
    next
      case (Inr m)
      have un: "store s2 = store s1 |` (- set keys) \<and> due nxt s2 = due nxt s1 \<and> todo nxt s2 = todo nxt s1"
        using ul redis_storeD(3) [OF doc] Inr by (cases "keys = []") auto
      then have pu: "purges (gm p) (store s) (store s2)" using sc by (metis purges_restrict)
      show ?thesis
      proof (cases "nxt = 0")
        case True
        then have "\<forall>k \<in> due c s. gm p k \<longrightarrow> store s2 k = None"
          using sc un by (auto simp: restrict_map_def)
        then show ?thesis using loop Inr True pu by simp
      next
        case False
        then have "todo nxt s2 < todo c s" using sc un by simp
        from less [OF this] obtain r s' where ih: "scan_loop cc p nxt s2 = Some (r, s')"
            "purges (gm p) (store s2) (store s')"
            "r = Inr () \<longrightarrow> (\<forall>k \<in> due nxt s2. gm p k \<longrightarrow> store s' k = None)" by blast
        have "store s' k = None" if "r = Inr ()" "k \<in> due c s" "gm p k" for k
        proof (cases "store s2 k")
          case None
          then show ?thesis using ih(2) by (metis purges_def)
        next
          case (Some v)
          then have "k \<in> dom (store s)" "k \<notin> set keys" using un sc by (auto simp: restrict_map_def split: if_splits)
          then show ?thesis using sc that un ih(3) by auto
        qed
        then show ?thesis using loop Inr False ih purges_trans [OF pu ih(2)] by auto
      qed
    qed
  qed
qed

lemma invalidated_get_misses:
  assumes doc: "redis_store_documented cc gm store due todo" and glob: "glob_documented gm"
    and lit: "list_all (\<lambda>c. \<not> glob_special c) (sc_prefix self)"
    and run: "try_invalidate cc self resource s = Some (Inr (), s')"
  shows "fst (stats_cache_get cc (self\<lparr>sc_version := version\<rparr>) resource key s') = Inr None"
proof -
  let ?p = "invalidation_pattern self resource"
  let ?k = "redis_key (self\<lparr>sc_version := version\<rparr>) resource key"
  have k: "gm ?p ?k" unfolding pattern_matches [OF glob lit] by (auto simp: redis_key_def)
  have eff: "purges (gm ?p) (store s) (store s')" "\<forall>k \<in> due 0 s. gm ?p k \<longrightarrow> store s' k = None"
    using scan_loop_returns [OF doc, of ?p 0 s] run unfolding try_invalidate_def by auto
  have none: "store s' ?k = None"
  proof (cases "store s ?k")
    case None
    then show ?thesis using eff(1) unfolding purges_def by metis
  next
    case (Some v)
    then have "?k \<in> due 0 s" using redis_storeD(7) [OF doc] by blast
    then show ?thesis using eff(2) k by blast
  qed
  obtain gr s'' where "cc_get cc ?k s' = (gr, s'')" by force
  then show ?thesis
    using redis_storeD(1) [OF doc] none by (auto simp: stats_cache_get_def split: sum.splits option.splits)
qed

text \<open>
  C17. Over a Redis server that keeps its documentation, invalidating a resource always returns.
  When no command failed, no process of any version finds an entry of the resource any more; in
  every case an entry that is dropped is one the pattern selects, so only entries whose key names
  the resource are touched, and nothing else in the server changes.
\<close>

theorem invalidation_drops_every_version:
  assumes "redis_store_documented cc gm store due todo" and "glob_documented gm"
    and "list_all (\<lambda>c. \<not> glob_special c) (sc_prefix self)"
  shows "\<exists>r s'. try_invalidate cc self resource s = Some (r, s') \<and>
    (if r = Inr () then (case stats_cache_get cc (self\<lparr>sc_version := version\<rparr>) resource key s' of
       (found, _) \<Rightarrow> found = Inr None) else True) \<and>
    (store s' k = store s k \<or> (store s' k = None \<and>
       (\<exists>v name. k = sc_prefix self @ '':'' @ v @ '':'' @ resource @ '':'' @ name)))"
proof -
  obtain r s' where run: "try_invalidate cc self resource s = Some (r, s')"
      "purges (gm (invalidation_pattern self resource)) (store s) (store s')"
    using scan_loop_returns [OF assms(1)] unfolding try_invalidate_def by blast
  have "fst (stats_cache_get cc (self\<lparr>sc_version := version\<rparr>) resource key s') = Inr None" if "r = Inr ()"
    using invalidated_get_misses [OF assms] run(1) that by simp
  then show ?thesis
    using run(1,2) unfolding purges_def pattern_matches [OF assms(2,3)]
    by (intro exI [where x = r] exI [where x = s']) (auto split: prod.splits)
qed

text \<open>No failure of the server reaches a request: every operation of the trait answers \<open>Ok\<close>.\<close>

lemma cache_never_fails:
  "\<exists>v s'. stats_cache_get cc self resource key s = (Inr v, s')"
  "\<exists>s'. stats_cache_set cc self resource key hv s = (Inr (), s')"
  "stats_cache_invalidate cc self resource s = Some (res, s') \<Longrightarrow> res = Inr ()"
  by (auto simp: stats_cache_get_def stats_cache_set_def stats_cache_invalidate_def
      split: prod.splits sum.splits option.splits)

section \<open>The invalidation task\<close>

text \<open>
  The program points of \<open>run_invalidation\<close>: the two \<open>select!\<close>s at a subscription and at the stream,
  the invalidations after a (re)subscription and after an event, the retry sleep, and the return.
\<close>

datatype task_pc = Subscribing | AfterSubscribe | Listening | AfterEvent | Sleeping | Returned

text \<open>
  Around it: whether shutdown was requested, the events on the subscribed stream the task has not
  taken yet, whether an event was published after the last invalidation that worked, how often it
  invalidated, and whether the last attempt failed (\<open>invalidate_logged\<close> only logs that). An event
  published while the task is not subscribed is never delivered to it.
\<close>

record task_state =
  ts_pc :: task_pc
  ts_shutdown :: bool
  ts_stream :: nat
  ts_behind :: bool
  ts_invalidations :: nat
  ts_failed :: bool

definition subscribed :: "task_pc \<Rightarrow> bool" where
  "subscribed pc = (pc \<in> {AfterSubscribe, Listening, AfterEvent})"

inductive environment_step :: "task_state \<Rightarrow> task_state \<Rightarrow> bool" where
  event: "environment_step s (s\<lparr>ts_behind := True,
     ts_stream := (if subscribed (ts_pc s) then ts_stream s + 1 else ts_stream s)\<rparr>)"
| cancel: "environment_step s (s\<lparr>ts_shutdown := True\<rparr>)"

inductive run_invalidation :: "task_state \<Rightarrow> task_state \<Rightarrow> bool" where
  stop: "ts_pc s \<in> {Subscribing, Listening, Sleeping} \<Longrightarrow> ts_shutdown s \<Longrightarrow>
     run_invalidation s (s\<lparr>ts_pc := Returned\<rparr>)"
| subscribe: "ts_pc s = Subscribing \<Longrightarrow> run_invalidation s (s\<lparr>ts_pc := AfterSubscribe, ts_stream := 0\<rparr>)"
| subscribe_failed: "ts_pc s = Subscribing \<Longrightarrow> run_invalidation s (s\<lparr>ts_pc := Sleeping\<rparr>)"
| invalidate: "ts_pc s \<in> {AfterSubscribe, AfterEvent} \<Longrightarrow>
     run_invalidation s (s\<lparr>ts_pc := Listening, ts_behind := False, ts_failed := False,
       ts_invalidations := ts_invalidations s + 1\<rparr>)"
| invalidate_failed: "ts_pc s \<in> {AfterSubscribe, AfterEvent} \<Longrightarrow>
     run_invalidation s (s\<lparr>ts_pc := Listening, ts_failed := True, ts_invalidations := ts_invalidations s + 1\<rparr>)"
| next_event: "ts_pc s = Listening \<Longrightarrow> 0 < ts_stream s \<Longrightarrow>
     run_invalidation s (s\<lparr>ts_pc := AfterEvent, ts_stream := ts_stream s - 1\<rparr>)"
| stream_ended: "ts_pc s = Listening \<Longrightarrow> run_invalidation s (s\<lparr>ts_pc := Sleeping\<rparr>)"
| retry: "ts_pc s = Sleeping \<Longrightarrow> run_invalidation s (s\<lparr>ts_pc := Subscribing\<rparr>)"

inductive_cases environment_stepE: "environment_step s s'"
inductive_cases run_invalidationE: "run_invalidation s s'"
inductive_simps returned_stuck: "run_invalidation (s\<lparr>ts_pc := Returned\<rparr>) s'"

inductive task_run :: "task_state \<Rightarrow> task_state \<Rightarrow> bool" where
  start: "task_run s s"
| task: "task_run s s' \<Longrightarrow> run_invalidation s' s'' \<Longrightarrow> task_run s s''"
| environment: "task_run s s' \<Longrightarrow> environment_step s' s'' \<Longrightarrow> task_run s s''"

definition task_init :: task_state where
  "task_init = \<lparr>ts_pc = Subscribing, ts_shutdown = False, ts_stream = 0, ts_behind = True, ts_invalidations = 0,
     ts_failed = False\<rparr>"

text \<open>While the task listens, an event after the last invalidation is still on the stream, or the attempt failed.\<close>

definition task_inv :: "task_state \<Rightarrow> bool" where
  "task_inv s \<longleftrightarrow> (ts_pc s = Listening \<longrightarrow> ts_behind s \<longrightarrow> 0 < ts_stream s \<or> ts_failed s)"

lemma environment_step_inv: "environment_step s s' \<Longrightarrow> task_inv s \<Longrightarrow> task_inv s'"
  by (auto elim!: environment_stepE simp: task_inv_def subscribed_def)

lemma run_invalidation_inv: "run_invalidation s s' \<Longrightarrow> task_inv s \<Longrightarrow> task_inv s'"
  by (auto elim!: run_invalidationE simp: task_inv_def)

lemma task_run_inv: "task_run s s' \<Longrightarrow> task_inv s \<Longrightarrow> task_inv s'"
  by (induction rule: task_run.induct) (auto dest: environment_step_inv run_invalidation_inv)

text \<open>
  C18. Whatever happened while it was disconnected, once the task listens again and has taken
  every event of its stream, it has invalidated the cache after the last event ever published,
  unless its last attempt failed.
\<close>

theorem caught_up_is_fresh:
  assumes "task_run task_init s" and "ts_pc s = Listening" and "ts_stream s = 0" and "\<not> ts_failed s"
  shows "\<not> ts_behind s"
proof -
  have "task_inv task_init" by (simp add: task_inv_def task_init_def)
  from task_run_inv [OF assms(1) this] assms(2-4) show ?thesis by (simp add: task_inv_def)
qed

lemma stop_now:
  "ts_pc s \<in> {Subscribing, Listening, Sleeping} \<Longrightarrow> ts_shutdown s \<Longrightarrow>
   \<exists>s'. run_invalidation s s' \<and> ts_pc s' = Returned"
  using run_invalidation.stop by fastforce

lemma invalidate_then_stop:
  assumes "ts_pc s \<in> {AfterSubscribe, AfterEvent}" "ts_shutdown s"
  shows "\<exists>s' s''. run_invalidation s s' \<and> run_invalidation s' s'' \<and> ts_pc s'' = Returned"
proof -
  let ?s = "s\<lparr>ts_pc := Listening, ts_behind := False, ts_failed := False,
    ts_invalidations := ts_invalidations s + 1\<rparr>"
  have "run_invalidation s ?s" using assms(1) by (rule run_invalidation.invalidate)
  moreover have "\<exists>s''. run_invalidation ?s s'' \<and> ts_pc s'' = Returned"
    using assms(2) by (intro stop_now) simp_all
  ultimately show ?thesis by blast
qed

text \<open>
  After shutdown is requested the task can always end, by steps of its own and in at most
  two of them; once it has returned it never acts again, so it does not invalidate after that.
\<close>

theorem task_ends_after_shutdown:
  assumes "ts_shutdown s"
  shows "(ts_pc s = Returned \<and> \<not> (\<exists>s'. run_invalidation s s')) \<or>
    (\<exists>s'. run_invalidation s s' \<and> ts_pc s' = Returned) \<or>
    (\<exists>s' s''. run_invalidation s s' \<and> run_invalidation s' s'' \<and> ts_pc s'' = Returned)"
proof (cases "ts_pc s = Returned")
  case True
  then show ?thesis by (auto elim!: run_invalidationE)
next
  case False
  then have "ts_pc s \<in> {Subscribing, Listening, Sleeping} \<or> ts_pc s \<in> {AfterSubscribe, AfterEvent}"
    by (cases "ts_pc s") simp_all
  then show ?thesis using stop_now invalidate_then_stop assms by blast
qed

theorem caught_up_is_fresh_witness:
  "\<exists>s. task_run task_init s \<and> ts_pc s = Listening \<and> ts_stream s = 0 \<and> \<not> ts_behind s"
proof -
  let ?a = "task_init\<lparr>ts_pc := AfterSubscribe, ts_stream := 0\<rparr>"
  let ?l = "?a\<lparr>ts_pc := Listening, ts_behind := False, ts_failed := False,
    ts_invalidations := ts_invalidations ?a + 1\<rparr>"
  have "run_invalidation task_init ?a" by (rule run_invalidation.subscribe) (simp add: task_init_def)
  moreover have "run_invalidation ?a ?l" by (rule run_invalidation.invalidate) simp
  ultimately have r: "task_run task_init ?l" by (blast intro: task_run.intros)
  have p: "ts_pc ?l = Listening" "ts_stream ?l = 0" "\<not> ts_failed ?l" by simp_all
  show ?thesis using caught_up_is_fresh [OF r p] r p by blast
qed

theorem task_ends_after_shutdown_witness:
  "\<exists>s' s''. run_invalidation (task_init\<lparr>ts_pc := AfterEvent, ts_shutdown := True\<rparr>) s' \<and>
     run_invalidation s' s'' \<and> ts_pc s'' = Returned"
proof -
  let ?s = "task_init\<lparr>ts_pc := AfterEvent, ts_shutdown := True\<rparr>"
  have "ts_shutdown ?s" "ts_pc ?s = AfterEvent" by simp_all
  then show ?thesis using task_ends_after_shutdown [of ?s] by (auto elim!: run_invalidationE)
qed

section \<open>A concrete server\<close>

text \<open>A matcher for the documented constructs and a server that scans its keys in one page.\<close>

fun sample_glob :: "string \<Rightarrow> string \<Rightarrow> bool" where
  "sample_glob [] s = (s = [])"
| "sample_glob (c # p) s =
     (if c = CHR ''*'' then list_ex (\<lambda>n. sample_glob p (drop n s)) [0..<Suc (length s)]
      else if c = CHR 0x5C then
        (case p of [] \<Rightarrow> False | d # q \<Rightarrow> (case s of [] \<Rightarrow> False | e # t \<Rightarrow> e = d \<and> sample_glob q t))
      else (case s of [] \<Rightarrow> False | e # t \<Rightarrow> e = c \<and> sample_glob p t))"

lemma sample_glob_star: "list_ex (\<lambda>n. P (drop n s)) [0..<Suc (length s)] \<longleftrightarrow> (\<exists>a b. s = a @ b \<and> P b)"
proof
  assume "list_ex (\<lambda>n. P (drop n s)) [0..<Suc (length s)]"
  then have "\<exists>n. P (drop n s)" unfolding list_ex_iff by blast
  then obtain n where "P (drop n s)" by blast
  then show "\<exists>a b. s = a @ b \<and> P b" using append_take_drop_id by metis
next
  assume "\<exists>a b. s = a @ b \<and> P b"
  then obtain a b where "s = a @ b" "P b" by blast
  then show "list_ex (\<lambda>n. P (drop n s)) [0..<Suc (length s)]"
    by (auto simp: list_ex_iff intro!: bexI [where x = "length a"])
qed

lemma sample_glob_documented: "glob_documented sample_glob"
  unfolding glob_documented_def
proof (intro conjI allI impI)
  fix p s
  show "sample_glob (CHR ''*'' # p) s = (\<exists>a b. s = a @ b \<and> sample_glob p b)"
    using sample_glob_star [of "sample_glob p" s] by simp
qed (auto simp: glob_special_def split: list.splits)

definition sample_cache_commands :: "(string \<times> string) list cache_commands" where
  "sample_cache_commands =
     \<lparr>cc_get = (\<lambda>k s. (Inr (map_of s k), s)),
      cc_set_ex = (\<lambda>k v n s. (Inr (), (k, v) # s)),
      cc_scan = (\<lambda>c p n s. (Inr (0, filter (sample_glob p) (map fst s)), s)),
      cc_unlink = (\<lambda>ks s. (Inr (length ks), filter (\<lambda>kv. fst kv \<notin> set ks) s)),
      cc_to_string = (\<lambda>j. ''json''), cc_from_slice = (\<lambda>t. Some JNull)\<rparr>"

lemma map_of_filter_keys: "map_of (filter (\<lambda>kv. fst kv \<notin> K) s) = map_of s |` (- K)"
  by (induction s) (auto simp: restrict_map_def fun_eq_iff)

lemma sample_store_documented:
  "redis_store_documented sample_cache_commands sample_glob map_of (\<lambda>_ _. UNIV) (\<lambda>_ _. 0)"
  by (auto simp: redis_store_documented_def sample_cache_commands_def map_of_filter_keys
      dest: map_of_SomeD) (metis map_of_eq_None_iff domI domIff)+

theorem invalidation_drops_every_version_witness:
  "\<exists>r s'. try_invalidate sample_cache_commands (cache_connect 60 ''v1'') ''heroes''
     [(''stats-cache:v2:heroes:k'', ''json'')] = Some (r, s')"
proof -
  have "list_all (\<lambda>c. \<not> glob_special c) (sc_prefix (cache_connect 60 ''v1''))"
    by (simp add: cache_connect_def connect_with_prefix_def KEY_PREFIX_def glob_special_def)
  from invalidation_drops_every_version [OF sample_store_documented sample_glob_documented this]
  show ?thesis by blast
qed

end
