(* ===== verification/Hero_Sea_Orm.thy ===== *)
theory Hero_Sea_Orm
  imports Hero_Memory
begin

text \<open>
  \<open>src/hero/repositories/hero_sea_orm.rs\<close>: the Postgres repository as the
  statements it builds. The columns, values and expressions it hands to sea-query are data;
  executing them is the parameter \<open>engine\<close>, and the locale \<open>sql_engine\<close> states what SQL says
  of it. Under that contract the repository satisfies the same repository contract as the
  in-memory one, and on the filters both can express they select the same rows.
\<close>

section \<open>Statements\<close>

datatype column =
    ColId | ColName | ColPowers | ColPowerLevel | ColOwnerId | ColArchivedAt | ColCreatedAt | ColUpdatedAt

datatype sea_value =
    VString string
  | VInt "int option"
  | VDateTime int
  | VDouble "64 word"
  | VBool bool

datatype sql_op = SEq | SNe | SLt | SLte | SGt | SGte

datatype simple_expr =
    ValEq int int
  | ColCmp sql_op column sea_value
  | ColIn column "sea_value list"
  | ColContains column string
  | LowerLike column string
  | ColIsNull column
  | ColIsNotNull column

datatype 'a active_value = NotSet | Set 'a

record active_model =
  am_id :: "int active_value"
  am_name :: "string option active_value"
  am_powers :: "string list option active_value"
  am_power_level :: "int option active_value"
  am_owner_id :: "string active_value"
  am_archived_at :: "int option active_value"
  am_created_at :: "int active_value"
  am_updated_at :: "int active_value"

definition default_active :: active_model where
  "default_active =
     \<lparr>am_id = NotSet, am_name = NotSet, am_powers = NotSet, am_power_level = NotSet,
      am_owner_id = NotSet, am_archived_at = NotSet, am_created_at = NotSet, am_updated_at = NotSet\<rparr>"

text \<open>A \<open>SELECT\<close>: its conditions, \<open>ORDER BY\<close> (column, descending), offset and limit.\<close>

record select =
  q_where :: "simple_expr list"
  q_order :: "(column \<times> bool) list"
  q_offset :: "nat option"
  q_limit :: "nat option"

definition find_all :: select where
  "find_all = \<lparr>q_where = [], q_order = [], q_offset = None, q_limit = None\<rparr>"

definition filter_where :: "simple_expr \<Rightarrow> select \<Rightarrow> select" where
  "filter_where e query = query\<lparr>q_where := q_where query @ [e]\<rparr>"

definition order_by :: "column \<Rightarrow> bool \<Rightarrow> select \<Rightarrow> select" where
  "order_by col descending query = query\<lparr>q_order := q_order query @ [(col, descending)]\<rparr>"

text \<open>Execution, with the error text of a \<open>DbErr\<close>.\<close>

record 'db engine =
  db_all :: "select \<Rightarrow> 'db \<Rightarrow> string + hero list"
  db_count :: "select \<Rightarrow> 'db \<Rightarrow> string + nat"
  db_one :: "select \<Rightarrow> 'db \<Rightarrow> string + hero option"
  db_insert :: "active_model \<Rightarrow> ('db, string, hero) eff"
  db_update_returning :: "active_model \<Rightarrow> simple_expr list \<Rightarrow> ('db, string, hero list) eff"

section \<open>Building statements\<close>

definition backend_err :: "string \<Rightarrow> repo_error" where
  "backend_err err = Backend err"

definition column_for :: "string \<Rightarrow> column option" where
  "column_for field =
     (if field = ''id'' then Some ColId
      else if field = ''name'' then Some ColName
      else if field = ''power_level'' then Some ColPowerLevel
      else if field = ''owner_id'' then Some ColOwnerId
      else if field = ''archived_at'' then Some ColArchivedAt
      else if field = ''created_at'' then Some ColCreatedAt
      else if field = ''updated_at'' then Some ColUpdatedAt
      else None)"

fun scalar :: "filter_value \<Rightarrow> sea_value" where
  "scalar (FStr v) = VString v"
| "scalar (FInt v) = VInt (Some (as_i32 v))"
| "scalar (FDateTime v) = VDateTime v"
| "scalar (FFloat v) = VDouble v"
| "scalar (FBool v) = VBool v"
| "scalar (FList _) = VInt None"

fun scalar_str :: "filter_value \<Rightarrow> string" where
  "scalar_str (FStr v) = v"
| "scalar_str _ = []"

definition condition_for :: "filter_clause \<Rightarrow> simple_expr" where
  "condition_for clause =
     (case column_for (fc_field clause) of
        None \<Rightarrow> ValEq 1 0
      | Some col \<Rightarrow>
          (case fc_op clause of
             Eq \<Rightarrow> ColCmp SEq col (scalar (fc_value clause))
           | Ne \<Rightarrow> ColCmp SNe col (scalar (fc_value clause))
           | Lt \<Rightarrow> ColCmp SLt col (scalar (fc_value clause))
           | Lte \<Rightarrow> ColCmp SLte col (scalar (fc_value clause))
           | Gt \<Rightarrow> ColCmp SGt col (scalar (fc_value clause))
           | Gte \<Rightarrow> ColCmp SGte col (scalar (fc_value clause))
           | In \<Rightarrow> (case fc_value clause of
                      FList values \<Rightarrow> ColIn col (map scalar values)
                    | other \<Rightarrow> ColIn col [scalar other])
           | Contains \<Rightarrow> ColContains col (scalar_str (fc_value clause))
           | Icontains \<Rightarrow>
               LowerLike col (''%'' @ filter (\<lambda>c. c \<noteq> CHR ''%'' \<and> c \<noteq> CHR ''_'')
                 (to_lowercase (scalar_str (fc_value clause))) @ ''%'')))"

definition archive_scope :: "select \<Rightarrow> bool \<Rightarrow> bool \<Rightarrow> select" where
  "archive_scope query include_archived only_archived =
     (if only_archived then filter_where (ColIsNotNull ColArchivedAt) query
      else if include_archived then query
      else filter_where (ColIsNull ColArchivedAt) query)"

definition apply_filters :: "(simple_expr \<Rightarrow> 'q \<Rightarrow> 'q) \<Rightarrow> 'q \<Rightarrow> filter_clause list \<Rightarrow> 'q" where
  "apply_filters add query filters =
     foldl (\<lambda>query clause. add (condition_for clause) query) query filters"

definition sea_apply_sort :: "select \<Rightarrow> sort_clause list \<Rightarrow> select" where
  "sea_apply_sort query clauses =
     foldl (\<lambda>query clause.
        case column_for (sc_field clause) of
          None \<Rightarrow> query
        | Some col \<Rightarrow> order_by col (sc_descending clause) query) query clauses"

definition update_values_am :: "hero_update \<Rightarrow> int \<Rightarrow> active_model" where
  "update_values_am data now =
     (let active = default_active\<lparr>am_updated_at := Set now\<rparr>;
          active = (case hu_name data of Some name \<Rightarrow> active\<lparr>am_name := Set (Some name)\<rparr>
                    | None \<Rightarrow> active);
          active = (case hu_powers data of Some powers \<Rightarrow> active\<lparr>am_powers := Set (Some powers)\<rparr>
                    | None \<Rightarrow> active)
      in if hu_power_level data \<noteq> None then active\<lparr>am_power_level := Set (hu_power_level data)\<rparr>
         else active)"

definition archive_values :: "int \<Rightarrow> active_model" where
  "archive_values now = default_active\<lparr>am_archived_at := Set (Some now), am_updated_at := Set now\<rparr>"

definition by_id :: "hero list \<Rightarrow> hero list" where
  "by_id rows = sort_by id_cmp rows"

section \<open>The repository\<close>

definition sea_list_query :: "list_options \<Rightarrow> select" where
  "sea_list_query opts =
     (let query = archive_scope find_all (lo_include_archived opts) (lo_only_archived opts);
          query = apply_filters filter_where query (lo_filters opts);
          query = (if lo_sort opts = [] then order_by ColId False query
                   else sea_apply_sort query (lo_sort opts))
      in query\<lparr>q_offset := Some (lo_skip opts), q_limit := Some (lo_limit opts)\<rparr>)"

definition sea_list :: "'db engine \<Rightarrow> list_options \<Rightarrow> 'db \<Rightarrow> repo_error + hero list" where
  "sea_list eng opts self = map_err backend_err (db_all eng (sea_list_query opts) self)"

definition sea_count ::
  "'db engine \<Rightarrow> filter_clause list \<Rightarrow> bool \<Rightarrow> bool \<Rightarrow> 'db \<Rightarrow> repo_error + nat" where
  "sea_count eng filters include_archived only_archived self =
     map_err backend_err (db_count eng
       (apply_filters filter_where (archive_scope find_all include_archived only_archived) filters) self)"

definition sea_get :: "'db engine \<Rightarrow> int \<Rightarrow> bool \<Rightarrow> 'db \<Rightarrow> repo_error + hero option" where
  "sea_get eng i include_archived self =
     (let query = filter_where (ColCmp SEq ColId (VInt (Some i))) find_all;
          query = (if \<not> include_archived then filter_where (ColIsNull ColArchivedAt) query else query)
      in map_err backend_err (db_one eng query self))"

definition db_result :: "(string + 'a) \<times> 'db \<Rightarrow> (repo_error + 'a) \<times> 'db" where
  "db_result r = (map_err backend_err (fst r), snd r)"

definition sea_create :: "'db engine \<Rightarrow> clock \<Rightarrow> string \<Rightarrow> hero_create \<Rightarrow> ('db, hero) repo_op" where
  "sea_create eng clk owner data self =
     (let now = clk 0;
          active = default_active\<lparr>am_name := Set (Some (hc_name data)),
            am_powers := Set (Some (hc_powers data)), am_power_level := Set (hc_power_level data),
            am_owner_id := Set owner, am_archived_at := Set None, am_created_at := Set now,
            am_updated_at := Set now\<rparr>
      in db_result (db_insert eng active self))"

definition sea_update ::
  "'db engine \<Rightarrow> clock \<Rightarrow> int \<Rightarrow> string \<Rightarrow> hero_update \<Rightarrow> ('db, hero option) repo_op" where
  "sea_update eng clk i owner data self =
     (case db_update_returning eng (update_values_am data (clk 0))
             [ColCmp SEq ColId (VInt (Some i)), ColCmp SEq ColOwnerId (VString owner),
              ColIsNull ColArchivedAt] self of
        (Inl err, self') \<Rightarrow> (Inl (backend_err err), self')
      | (Inr rows, self') \<Rightarrow> (Inr (case rows of [] \<Rightarrow> None | row # _ \<Rightarrow> Some row), self'))"

definition sea_update_many ::
  "'db engine \<Rightarrow> clock \<Rightarrow> filter_clause list \<Rightarrow> hero_update \<Rightarrow> ('db, hero list) repo_op" where
  "sea_update_many eng clk filters data self =
     (case db_update_returning eng (update_values_am data (clk 0))
             (apply_filters (\<lambda>e es. es @ [e]) [ColIsNull ColArchivedAt] filters) self of
        (Inl err, self') \<Rightarrow> (Inl (backend_err err), self')
      | (Inr rows, self') \<Rightarrow> (Inr (by_id rows), self'))"

definition sea_delete :: "'db engine \<Rightarrow> clock \<Rightarrow> int \<Rightarrow> string \<Rightarrow> ('db, bool) repo_op" where
  "sea_delete eng clk i owner self =
     (case db_update_returning eng (archive_values (clk 0))
             [ColCmp SEq ColId (VInt (Some i)), ColCmp SEq ColOwnerId (VString owner),
              ColIsNull ColArchivedAt] self of
        (Inl err, self') \<Rightarrow> (Inl (backend_err err), self')
      | (Inr rows, self') \<Rightarrow> (Inr (rows \<noteq> []), self'))"

definition sea_delete_many ::
  "'db engine \<Rightarrow> clock \<Rightarrow> filter_clause list \<Rightarrow> ('db, hero list) repo_op" where
  "sea_delete_many eng clk filters self =
     (case db_update_returning eng (archive_values (clk 0))
             (apply_filters (\<lambda>e es. es @ [e]) [ColIsNull ColArchivedAt] filters) self of
        (Inl err, self') \<Rightarrow> (Inl (backend_err err), self')
      | (Inr rows, self') \<Rightarrow> (Inr (by_id rows), self'))"

definition sea_repository :: "'db engine \<Rightarrow> 'db repository" where
  "sea_repository eng =
     \<lparr>r_create = sea_create eng, r_update = sea_update eng, r_update_many = sea_update_many eng,
      r_delete = sea_delete eng, r_delete_many = sea_delete_many eng\<rparr>"

section \<open>What SQL promises\<close>

text \<open>The effect of a \<open>SET\<close> list or of an \<open>INSERT\<close>'s values on a row.\<close>

definition assign :: "'a active_value \<Rightarrow> 'a \<Rightarrow> 'a" where
  "assign v old = (case v of NotSet \<Rightarrow> old | Set x \<Rightarrow> x)"

definition set_row :: "active_model \<Rightarrow> hero \<Rightarrow> hero" where
  "set_row am h =
     \<lparr>h_id = assign (am_id am) (h_id h), h_name = assign (am_name am) (h_name h),
      h_powers = assign (am_powers am) (h_powers h),
      h_power_level = assign (am_power_level am) (h_power_level h),
      h_owner_id = assign (am_owner_id am) (h_owner_id h),
      h_archived_at = assign (am_archived_at am) (h_archived_at h),
      h_created_at = assign (am_created_at am) (h_created_at h),
      h_updated_at = assign (am_updated_at am) (h_updated_at h)\<rparr>"

text \<open>
  \<open>table db\<close> is the heroes table by primary key, \<open>holds e h\<close> that a condition is true (not
  false and not null) of a row. An \<open>INSERT\<close> gives a fresh key and returns the row it stored;
  an \<open>UPDATE ... RETURNING\<close> changes exactly the rows all its conditions hold of, in one step,
  and returns them in some order; a failed statement changes nothing.
\<close>

locale sql_engine =
  fixes eng :: "'db engine"
    and table :: "'db \<Rightarrow> int \<Rightarrow> hero option"
    and holds :: "simple_expr \<Rightarrow> hero \<Rightarrow> bool"
  assumes table_id: "table d i = Some h \<Longrightarrow> h_id h = i"
    and holds_id: "holds (ColCmp SEq ColId (VInt (Some i))) h \<longleftrightarrow> h_id h = i"
    and holds_owner: "holds (ColCmp SEq ColOwnerId (VString owner)) h \<longleftrightarrow> h_owner_id h = owner"
    and holds_live: "holds (ColIsNull ColArchivedAt) h \<longleftrightarrow> h_archived_at h = None"
    and insert_ok: "am_id am = NotSet \<Longrightarrow> db_insert eng am d = (Inr m, d') \<Longrightarrow>
      table d (h_id m) = None \<and> table d' = (table d)(h_id m \<mapsto> m) \<and> set_row am m = m"
    and insert_err: "db_insert eng am d = (Inl e, d') \<Longrightarrow> table d' = table d"
    and update_ok: "am_id am = NotSet \<Longrightarrow> db_update_returning eng am es d = (Inr rs, d') \<Longrightarrow>
      table d' = (\<lambda>i. map_option (\<lambda>h. if list_all (\<lambda>e. holds e h) es then set_row am h else h) (table d i)) \<and>
      distinct (map h_id rs) \<and>
      set rs = {set_row am h | i h. table d i = Some h \<and> list_all (\<lambda>e. holds e h) es}"
    and update_err: "db_update_returning eng am es d = (Inl e, d') \<Longrightarrow> table d' = table d"

definition sea_selects :: "(simple_expr \<Rightarrow> hero \<Rightarrow> bool) \<Rightarrow> filter_clause list \<Rightarrow> hero \<Rightarrow> bool" where
  "sea_selects holds filters h = list_all (\<lambda>c. holds (condition_for c) h) filters"

lemma apply_filters_list: "apply_filters (\<lambda>e es. es @ [e]) es filters = es @ map condition_for filters"
  unfolding apply_filters_def by (induction filters arbitrary: es) auto

lemma set_row_update:
  "edited data h (set_row (update_values_am data now) h)"
  unfolding edited_def
  by (intro exI [of _ now], cases "hu_name data"; cases "hu_powers data"; cases "hu_power_level data")
    (simp_all add: set_row_def update_values_am_def default_active_def assign_def edit_def Let_def)

lemma set_row_archive: "archived_copy h (set_row (archive_values now) h)"
  unfolding archived_copy_def
  by (intro exI [of _ now]) (simp add: set_row_def archive_values_def default_active_def assign_def)

lemma am_id_NotSet [simp]:
  "am_id (update_values_am data now) = NotSet" "am_id (archive_values now) = NotSet"
  by (simp_all add: update_values_am_def archive_values_def default_active_def Let_def
      split: option.splits)

lemma set_row_id [simp]: "am_id am = NotSet \<Longrightarrow> h_id (set_row am h) = h_id h"
  by (simp add: set_row_def assign_def)

lemma sort_by_id_strict:
  assumes "distinct (map h_id rs)"
  shows "sorted_wrt (<) (map h_id (by_id rs))"
proof -
  have d: "distinct (map h_id (by_id rs))"
    using assms mset_sort_by [of id_cmp rs] unfolding by_id_def
    by (metis mset_eq_imp_distinct_iff mset_map)
  have "sorted_wrt (\<lambda>a b. id_cmp a b \<noteq> Greater) (by_id rs)"
    unfolding by_id_def by (rule sort_by_sorted [OF total_cmp_id])
  then have "sorted_wrt (\<lambda>a b. id_cmp a b = Less) (by_id rs)"
    by (rule sorted_wrt_strict [where f = h_id, OF _ d])
      (simp add: id_cmp_def cmp_def split: if_splits)
  then have "sorted_wrt (\<lambda>a b. h_id a < h_id b) (by_id rs)"
    by (rule sorted_wrt_mono_rel [rotated]) (simp add: id_cmp_def cmp_def split: if_splits)
  then show ?thesis by (simp add: sorted_wrt_map)
qed

lemma distinct_single: "distinct xs \<Longrightarrow> set xs = {x} \<Longrightarrow> xs = [x]"
proof (cases xs)
  case (Cons y ys)
  assume "distinct xs" "set xs = {x}"
  with Cons have "y = x" "ys = []" by (auto, cases ys, auto)
  with Cons show ?thesis by simp
qed simp

context sql_engine
begin

text \<open>The bulk statements, once for both of them.\<close>

lemma bulk_rows:
  assumes "am_id am = NotSet"
    and "db_update_returning eng am ([ColIsNull ColArchivedAt] @ map condition_for filters) d = (Inr rs, d')"
  shows "sorted_wrt (<) (map h_id (by_id rs)) \<and>
     (case table d i of
        Some h \<Rightarrow> if live h \<and> sea_selects holds filters h
          then table d' i = Some (set_row am h) \<and> set_row am h \<in> set (by_id rs)
          else table d' i = Some h \<and> i \<notin> h_id ` set (by_id rs)
      | None \<Rightarrow> table d' i = None \<and> i \<notin> h_id ` set (by_id rs))"
proof -
  have sel: "list_all (\<lambda>e. holds e h) ([ColIsNull ColArchivedAt] @ map condition_for filters) \<longleftrightarrow>
      live h \<and> sea_selects holds filters h" for h
    by (simp add: holds_live live_def sea_selects_def list_all_iff)
  have t: "table d' = (\<lambda>i. map_option (\<lambda>h. if live h \<and> sea_selects holds filters h
        then set_row am h else h) (table d i))"
    and rs: "distinct (map h_id rs)"
      "set rs = {set_row am h | i h. table d i = Some h \<and> live h \<and> sea_selects holds filters h}"
    using update_ok [OF assms] unfolding sel by blast+
  have ids: "j \<in> h_id ` set rs \<longleftrightarrow> (\<exists>h. table d j = Some h \<and> live h \<and> sea_selects holds filters h)" for j
  proof
    assume "j \<in> h_id ` set rs"
    then obtain k h where "table d k = Some h" "live h" "sea_selects holds filters h"
        "j = h_id (set_row am h)" unfolding rs(2) by blast
    then show "\<exists>h. table d j = Some h \<and> live h \<and> sea_selects holds filters h"
      using table_id [of d k h] assms(1) by auto
  next
    assume "\<exists>h. table d j = Some h \<and> live h \<and> sea_selects holds filters h"
    then obtain h where h: "table d j = Some h" "live h" "sea_selects holds filters h" by blast
    then have "set_row am h \<in> set rs" unfolding rs(2) by blast
    moreover have "h_id (set_row am h) = j" using table_id [OF h(1)] assms(1) by simp
    ultimately show "j \<in> h_id ` set rs" by (metis image_eqI)
  qed
  have "set (by_id rs) = set rs" by (simp add: by_id_def)
  then show ?thesis
    using sort_by_id_strict [OF rs(1)] ids [of i] t rs(2) by (cases "table d i") auto
qed

lemma single_rows:
  assumes "am_id am = NotSet"
    and "db_update_returning eng am [ColCmp SEq ColId (VInt (Some i)),
      ColCmp SEq ColOwnerId (VString owner), ColIsNull ColArchivedAt] d = (Inr rs, d')"
  shows "case table d i of
     Some h \<Rightarrow> if h_owner_id h = owner \<and> live h
       then rs = [set_row am h] \<and> table d' = (table d)(i \<mapsto> set_row am h)
       else rs = [] \<and> table d' = table d
   | None \<Rightarrow> rs = [] \<and> table d' = table d"
proof -
  let ?p = "\<lambda>h. h_id h = i \<and> h_owner_id h = owner \<and> live h"
  have sel: "list_all (\<lambda>e. holds e h) [ColCmp SEq ColId (VInt (Some i)),
      ColCmp SEq ColOwnerId (VString owner), ColIsNull ColArchivedAt] \<longleftrightarrow> ?p h" for h
    by (simp add: holds_id holds_owner holds_live live_def)
  have t: "table d' = (\<lambda>j. map_option (\<lambda>h. if ?p h then set_row am h else h) (table d j))"
    and rs: "distinct (map h_id rs)" "set rs = {set_row am h | j h. table d j = Some h \<and> ?p h}"
    using update_ok [OF assms] unfolding sel by blast+
  show ?thesis
  proof (cases "\<exists>h. table d i = Some h \<and> ?p h")
    case True
    then obtain h where h: "table d i = Some h" "h_owner_id h = owner" "live h" "h_id h = i"
      by blast
    have only: "j = i \<and> g = h" if "table d j = Some g" "?p g" for j g
      using table_id [OF that(1)] that h(1) by simp
    have "set rs = {set_row am h}"
      unfolding rs(2) using only h by (intro equalityI subsetI) blast+
    then have "rs = [set_row am h]"
      using rs(1) by (intro distinct_single) (auto simp: distinct_map)
    moreover have "table d' = (table d)(i \<mapsto> set_row am h)"
    proof
      fix j
      show "table d' j = ((table d)(i \<mapsto> set_row am h)) j"
      proof (cases "table d j")
        case None
        then show ?thesis using t h(1) by auto
      next
        case (Some g)
        then show ?thesis using t h only [OF Some] by (cases "?p g") auto
      qed
    qed
    ultimately show ?thesis using h by simp
  next
    case False
    then have no: "\<not> ?p h" if "table d j = Some h" for j h using that table_id by blast
    then have "set rs = {}" unfolding rs(2) by blast
    moreover have "table d' = table d"
    proof
      fix j
      show "table d' j = table d j" using t no [of j] by (cases "table d j") auto
    qed
    moreover have "\<not> (h_owner_id h = owner \<and> live h)" if "table d i = Some h" for h
      using False that table_id by blast
    ultimately show ?thesis by (auto split: option.splits)
  qed
qed

end

lemma db_result_Inl: "db_result r = (Inl e, d') \<Longrightarrow> \<exists>e0. r = (Inl e0, d')"
  by (cases r) (auto simp: db_result_def map_err_def split: sum.splits)

text \<open>The repository over such an engine keeps the repository contract.\<close>

sublocale sql_engine \<subseteq> sea: hero_repository "sea_repository eng" table "\<lambda>_. True" "\<lambda>_. True"
  "sea_selects holds"
proof
  fix d i h
  show "h_id h = i" if "table d i = Some h" using that by (rule table_id)
next
  fix d and clk :: clock and owner and data :: hero_create and m d'
  let ?am = "default_active\<lparr>am_name := Set (Some (hc_name data)),
      am_powers := Set (Some (hc_powers data)), am_power_level := Set (hc_power_level data),
      am_owner_id := Set owner, am_archived_at := Set None, am_created_at := Set (clk 0),
      am_updated_at := Set (clk 0)\<rparr>"
  assume "r_create (sea_repository eng) clk owner data d = (Inr m, d')"
  then have ins: "db_insert eng ?am d = (Inr m, d')"
    by (cases "db_insert eng ?am d")
      (auto simp: sea_repository_def sea_create_def db_result_def Let_def)
  have row: "table d (h_id m) = None \<and> table d' = (table d)(h_id m \<mapsto> m)" "set_row ?am m = m"
    using insert_ok [OF _ ins] by (simp_all add: default_active_def)
  have "h_name m = Some (hc_name data)" "h_powers m = Some (hc_powers data)"
    "h_power_level m = hc_power_level data" "h_owner_id m = owner" "live m"
    "h_created_at m = clk 0" "h_updated_at m = clk 0"
    by (subst row(2) [symmetric], simp add: set_row_def assign_def default_active_def live_def)+
  with row(1) show "table d (h_id m) = None \<and> table d' = (table d)(h_id m \<mapsto> m) \<and>
      h_name m = Some (hc_name data) \<and> h_powers m = Some (hc_powers data) \<and>
      h_power_level m = hc_power_level data \<and> h_owner_id m = owner \<and> live m \<and>
      h_created_at m = clk 0 \<and> h_updated_at m = clk 0" by blast
next
  fix d and clk :: clock and owner data e d'
  show "table d' = table d" if "r_create (sea_repository eng) clk owner data d = (Inl e, d')"
    using that by (auto simp: sea_repository_def sea_create_def Let_def dest!: db_result_Inl insert_err)
next
  fix d and clk :: clock and i owner data
  let ?op = "db_update_returning eng (update_values_am data (clk 0))
      [ColCmp SEq ColId (VInt (Some i)), ColCmp SEq ColOwnerId (VString owner), ColIsNull ColArchivedAt] d"
  show "case table d i of
         Some h \<Rightarrow> if h_owner_id h = owner \<and> live h
           then (\<exists>h'. res = Some h' \<and> edited data h h' \<and> table d' = (table d)(i \<mapsto> h'))
           else res = None \<and> table d' = table d
       | None \<Rightarrow> res = None \<and> table d' = table d"
    if run: "r_update (sea_repository eng) clk i owner data d = (Inr res, d')" for res d'
  proof -
    obtain rs where op: "?op = (Inr rs, d')" "res = (case rs of [] \<Rightarrow> None | row # _ \<Rightarrow> Some row)"
      using run by (auto simp: sea_repository_def sea_update_def split: prod.splits sum.splits)
    show ?thesis
      using single_rows [OF _ op(1)] op(2) set_row_update [of data _ "clk 0"]
      by (auto split: option.splits if_splits)
  qed
  show "table d' = table d"
    if "r_update (sea_repository eng) clk i owner data d = (Inl e, d')" for e d'
    using that update_err by (fastforce simp: sea_repository_def sea_update_def split: prod.splits sum.splits)
next
  fix d and clk :: clock and filters data
  show "sorted_wrt (<) (map h_id ms) \<and>
      (\<forall>i. case table d i of
         Some h \<Rightarrow> if live h \<and> sea_selects holds filters h
           then (\<exists>h'. table d' i = Some h' \<and> edited data h h' \<and> h' \<in> set ms)
           else table d' i = Some h \<and> i \<notin> h_id ` set ms
       | None \<Rightarrow> table d' i = None \<and> i \<notin> h_id ` set ms)"
    if run: "r_update_many (sea_repository eng) clk filters data d = (Inr ms, d')" for ms d'
  proof -
    obtain rs where op: "db_update_returning eng (update_values_am data (clk 0))
        ([ColIsNull ColArchivedAt] @ map condition_for filters) d = (Inr rs, d')" "ms = by_id rs"
      using run by (auto simp: sea_repository_def sea_update_many_def apply_filters_list
          split: prod.splits sum.splits)
    have "case table d i of
         Some h \<Rightarrow> if live h \<and> sea_selects holds filters h
           then (\<exists>h'. table d' i = Some h' \<and> edited data h h' \<and> h' \<in> set ms)
           else table d' i = Some h \<and> i \<notin> h_id ` set ms
       | None \<Rightarrow> table d' i = None \<and> i \<notin> h_id ` set ms" for i
      using bulk_rows [OF _ op(1), of i] op(2) set_row_update [of data _ "clk 0"]
      by (cases "table d i") auto
    then show ?thesis using bulk_rows [OF _ op(1)] op(2) by simp
  qed
  show "table d' = table d"
    if "r_update_many (sea_repository eng) clk filters data d = (Inl e, d')" for e d'
    using that update_err by (fastforce simp: sea_repository_def sea_update_many_def
        split: prod.splits sum.splits)
next
  fix d and clk :: clock and i owner
  let ?op = "db_update_returning eng (archive_values (clk 0))
      [ColCmp SEq ColId (VInt (Some i)), ColCmp SEq ColOwnerId (VString owner), ColIsNull ColArchivedAt] d"
  show "case table d i of
         Some h \<Rightarrow> if h_owner_id h = owner \<and> live h
           then (\<exists>h'. gone \<and> archived_copy h h' \<and> table d' = (table d)(i \<mapsto> h'))
           else \<not> gone \<and> table d' = table d
       | None \<Rightarrow> \<not> gone \<and> table d' = table d"
    if run: "r_delete (sea_repository eng) clk i owner d = (Inr gone, d')" for gone d'
  proof -
    obtain rs where op: "?op = (Inr rs, d')" "gone = (rs \<noteq> [])"
      using run by (auto simp: sea_repository_def sea_delete_def split: prod.splits sum.splits)
    show ?thesis
      using single_rows [OF _ op(1)] op(2) set_row_archive [of _ "clk 0"]
      by (auto split: option.splits if_splits)
  qed
  show "table d' = table d"
    if "r_delete (sea_repository eng) clk i owner d = (Inl e, d')" for e d'
    using that update_err by (fastforce simp: sea_repository_def sea_delete_def split: prod.splits sum.splits)
next
  fix d and clk :: clock and filters
  show "sorted_wrt (<) (map h_id ms) \<and>
      (\<forall>i. case table d i of
         Some h \<Rightarrow> if live h \<and> sea_selects holds filters h
           then (\<exists>h'. table d' i = Some h' \<and> archived_copy h h' \<and> h' \<in> set ms)
           else table d' i = Some h \<and> i \<notin> h_id ` set ms
       | None \<Rightarrow> table d' i = None \<and> i \<notin> h_id ` set ms)"
    if run: "r_delete_many (sea_repository eng) clk filters d = (Inr ms, d')" for ms d'
  proof -
    obtain rs where op: "db_update_returning eng (archive_values (clk 0))
        ([ColIsNull ColArchivedAt] @ map condition_for filters) d = (Inr rs, d')" "ms = by_id rs"
      using run by (auto simp: sea_repository_def sea_delete_many_def apply_filters_list
          split: prod.splits sum.splits)
    have "case table d i of
         Some h \<Rightarrow> if live h \<and> sea_selects holds filters h
           then (\<exists>h'. table d' i = Some h' \<and> archived_copy h h' \<and> h' \<in> set ms)
           else table d' i = Some h \<and> i \<notin> h_id ` set ms
       | None \<Rightarrow> table d' i = None \<and> i \<notin> h_id ` set ms" for i
      using bulk_rows [OF _ op(1), of i] op(2) set_row_archive [of _ "clk 0"]
      by (cases "table d i") auto
    then show ?thesis using bulk_rows [OF _ op(1)] op(2) by simp
  qed
  show "table d' = table d"
    if "r_delete_many (sea_repository eng) clk filters d = (Inl e, d')" for e d'
    using that update_err by (fastforce simp: sea_repository_def sea_delete_many_def
        split: prod.splits sum.splits)
qed simp_all

context sql_engine
begin

lemma sea_exec_row:
  "table d i = Some h \<Longrightarrow>
   table (exec_cmd (sea_repository eng) clk c d) i = Some h \<or>
   (live h \<and> addresses (sea_selects holds) h c \<and>
    (\<exists>h'. table (exec_cmd (sea_repository eng) clk c d) i = Some h' \<and> changes c h h'))"
  by (rule sea.exec_row) simp_all

lemma sea_room: "sea.room_for cs d"
  by (induction cs arbitrary: d) auto

lemma sea_exec_cmds_row:
  "table d i = Some h \<Longrightarrow>
   \<exists>h'. table (exec_cmds (sea_repository eng) cs d) i = Some h' \<and> same_identity h h' \<and>
     (\<not> live h \<longrightarrow> h' = h)"
  by (rule sea.exec_cmds_row) (simp_all add: sea_room)

end

text \<open>
  A \<open>SELECT COUNT\<close> without limit answers how many rows all its conditions hold of; with it the Postgres
  repository is one that counts.
\<close>

locale counting_engine = sql_engine eng table holds
  for eng :: "'db engine" and table holds +
  assumes table_finite: "finite (dom (table d))"
    and count_ok: "q_offset query = None \<Longrightarrow> q_limit query = None \<Longrightarrow> db_count eng query d = Inr n \<Longrightarrow>
      n = card {i. \<exists>h. table d i = Some h \<and> list_all (\<lambda>e. holds e h) (q_where query)}"

sublocale counting_engine \<subseteq> counted: counted_repository "sea_repository eng" table "\<lambda>_. True" "\<lambda>_. True"
  "sea_selects holds" "sea_count eng"
proof unfold_locales
  fix d n
  show "n = card (dom (table d))" if "sea_count eng [] True False d = Inr n"
    using that count_ok [of find_all d n]
    by (auto simp: sea_count_def apply_filters_def archive_scope_def find_all_def map_err_def dom_def split: sum.splits)
  show "n = card {i. \<exists>h. table d i = Some h \<and> live h}" if "sea_count eng [] False False d = Inr n"
    using that count_ok [of "filter_where (ColIsNull ColArchivedAt) find_all" d n]
    by (auto simp: sea_count_def apply_filters_def archive_scope_def find_all_def filter_where_def map_err_def
        holds_live live_def split: sum.splits)
qed (simp add: table_finite)

section \<open>The truth of a condition\<close>

text \<open>
  SQL's reading of the conditions: a comparison with \<open>NULL\<close> is not true, \<open>LIKE\<close> knows
  \<open>%\<close>, \<open>_\<close> and the backslash, and \<open>lower\<close> is the lower case of the text.
\<close>

fun sql_like :: "string \<Rightarrow> string \<Rightarrow> bool" where
  "sql_like s [] = (s = [])"
| "sql_like [] (p # ps) = (p = CHR ''%'' \<and> sql_like [] ps)"
| "sql_like (c # cs) (p # ps) =
     (if p = CHR ''%'' then sql_like (c # cs) ps \<or> sql_like cs (p # ps)
      else if p = CHR ''_'' then sql_like cs ps
      else if p = CHR 0x5C then (case ps of [] \<Rightarrow> False | e # es \<Rightarrow> c = e \<and> sql_like cs es)
      else c = p \<and> sql_like cs ps)"

fun sql_cmp :: "sql_op \<Rightarrow> 'a::linorder \<Rightarrow> 'a \<Rightarrow> bool" where
  "sql_cmp SEq a b = (a = b)"
| "sql_cmp SNe a b = (a \<noteq> b)"
| "sql_cmp SLt a b = (a < b)"
| "sql_cmp SLte a b = (a \<le> b)"
| "sql_cmp SGt a b = (b < a)"
| "sql_cmp SGte a b = (b \<le> a)"

text \<open>The value of a column; the powers array is compared with nothing.\<close>

fun column_value :: "column \<Rightarrow> hero \<Rightarrow> sea_value option" where
  "column_value ColId h = Some (VInt (Some (h_id h)))"
| "column_value ColName h = map_option VString (h_name h)"
| "column_value ColPowers h = None"
| "column_value ColPowerLevel h = map_option (\<lambda>i. VInt (Some i)) (h_power_level h)"
| "column_value ColOwnerId h = Some (VString (h_owner_id h))"
| "column_value ColArchivedAt h = map_option VDateTime (h_archived_at h)"
| "column_value ColCreatedAt h = Some (VDateTime (h_created_at h))"
| "column_value ColUpdatedAt h = Some (VDateTime (h_updated_at h))"

fun is_null :: "column \<Rightarrow> hero \<Rightarrow> bool" where
  "is_null ColPowers h = (h_powers h = None)"
| "is_null c h = (column_value c h = None)"

fun sql_compare :: "sql_op \<Rightarrow> sea_value option \<Rightarrow> sea_value \<Rightarrow> bool" where
  "sql_compare op (Some (VInt (Some a))) (VInt (Some b)) = sql_cmp op a b"
| "sql_compare op (Some (VString a)) (VString b) = sql_cmp op a b"
| "sql_compare op (Some (VDateTime a)) (VDateTime b) = sql_cmp op a b"
| "sql_compare op _ _ = False"

fun sql_holds :: "simple_expr \<Rightarrow> hero \<Rightarrow> bool" where
  "sql_holds (ValEq a b) h = (a = b)"
| "sql_holds (ColCmp op c v) h = sql_compare op (column_value c h) v"
| "sql_holds (ColIn c vs) h = list_ex (\<lambda>v. sql_compare SEq (column_value c h) v) vs"
| "sql_holds (ColContains c t) h =
     (case column_value c h of Some (VString a) \<Rightarrow> sql_like a (''%'' @ t @ ''%'') | _ \<Rightarrow> False)"
| "sql_holds (LowerLike c pat) h =
     (case column_value c h of Some (VString a) \<Rightarrow> sql_like (to_lowercase a) pat | _ \<Rightarrow> False)"
| "sql_holds (ColIsNull c) h = is_null c h"
| "sql_holds (ColIsNotNull c) h = (\<not> is_null c h)"

text \<open>A string without \<open>LIKE\<close> metacharacters.\<close>

definition like_plain :: "string \<Rightarrow> bool" where
  "like_plain t \<longleftrightarrow> list_all (\<lambda>c. c \<noteq> CHR ''%'' \<and> c \<noteq> CHR ''_'' \<and> c \<noteq> CHR 0x5C) t"

lemma sql_like_any: "sql_like s ''%''"
  by (induction s) auto

lemma sql_like_prefix:
  "like_plain t \<Longrightarrow> sql_like s (t @ ''%'') \<longleftrightarrow> starts_with s t"
proof (induction t arbitrary: s)
  case Nil
  then show ?case by (simp add: sql_like_any starts_with_def)
next
  case (Cons p t)
  then show ?case by (cases s) (auto simp: like_plain_def starts_with_def)
qed

lemma sql_like_contains:
  "like_plain t \<Longrightarrow> sql_like s (''%'' @ t @ ''%'') \<longleftrightarrow> str_contains s t"
proof (induction s)
  case Nil
  then show ?case using sql_like_prefix [of t "[]"] by (auto simp: starts_with_def)
next
  case (Cons c s)
  then show ?case using sql_like_prefix [of t "c # s"] by simp
qed

section \<open>Both repositories select the same rows\<close>

text \<open>
  The clauses both implementations read the same way: an integer column against \<open>i32\<close> values,
  a text column for equality or a search without \<open>LIKE\<close> metacharacters, an instant column
  against instants.
\<close>

definition ordered_op :: "filter_op \<Rightarrow> bool" where
  "ordered_op op \<longleftrightarrow> op = Eq \<or> op = Ne \<or> op = Lt \<or> op = Lte \<or> op = Gt \<or> op = Gte"

fun is_i32 :: "filter_value \<Rightarrow> bool" where
  "is_i32 (FInt v) = i32_range v"
| "is_i32 _ = False"

fun is_str :: "filter_value \<Rightarrow> bool" where
  "is_str (FStr v) = True"
| "is_str _ = False"

fun is_datetime :: "filter_value \<Rightarrow> bool" where
  "is_datetime (FDateTime v) = True"
| "is_datetime _ = False"

fun list_of_values :: "(filter_value \<Rightarrow> bool) \<Rightarrow> filter_value \<Rightarrow> bool" where
  "list_of_values p (FList vs) = list_all p vs"
| "list_of_values p _ = False"

definition portable :: "filter_clause \<Rightarrow> bool" where
  "portable c \<longleftrightarrow>
     (let f = fc_field c; op = fc_op c; v = fc_value c in
      (if f = ''id'' \<or> f = ''power_level''
       then (ordered_op op \<and> is_i32 v) \<or> (op = In \<and> list_of_values is_i32 v)
       else if f = ''name'' \<or> f = ''owner_id''
       then ((op = Eq \<or> op = Ne) \<and> is_str v) \<or> (op = In \<and> list_of_values is_str v) \<or>
            (op = Contains \<and> is_str v \<and> like_plain (scalar_str v)) \<or>
            (op = Icontains \<and> is_str v \<and> like_plain (to_lowercase (scalar_str v)))
       else if f = ''created_at'' \<or> f = ''updated_at'' \<or> f = ''archived_at''
       then (ordered_op op \<and> is_datetime v) \<or> (op = In \<and> list_of_values is_datetime v)
       else True))"

lemma int_list_agrees:
  "list_all is_i32 vs \<Longrightarrow>
   list_ex (\<lambda>v. sql_compare SEq (Some (VInt (Some a))) v) (map scalar vs) =
   list_ex (\<lambda>v. case v of FInt target \<Rightarrow> target = a | _ \<Rightarrow> False) vs"
proof (induction vs)
  case (Cons v vs)
  then show ?case by (cases v) (auto simp: as_i32_ident)
qed simp

lemma str_list_agrees:
  "list_all is_str vs \<Longrightarrow>
   list_ex (\<lambda>v. sql_compare SEq (Some (VString a)) v) (map scalar vs) =
   list_ex (\<lambda>v. case v of FStr target \<Rightarrow> target = a | _ \<Rightarrow> False) vs"
proof (induction vs)
  case (Cons v vs)
  then show ?case by (cases v) auto
qed simp

lemma datetime_list_agrees:
  "list_all is_datetime vs \<Longrightarrow>
   list_ex (\<lambda>v. sql_compare SEq (Some (VDateTime a)) v) (map scalar vs) =
   list_ex (\<lambda>v. case v of FDateTime target \<Rightarrow> target = a | _ \<Rightarrow> False) vs"
proof (induction vs)
  case (Cons v vs)
  then show ?case by (cases v) auto
qed simp

lemma null_list: "list_ex (\<lambda>v. sql_compare SEq None v) vs = False"
  by (induction vs) auto

lemma int_agrees:
  assumes "column_for (fc_field c) = Some col" "column_value col h = Some (VInt (Some a))"
    and "(ordered_op (fc_op c) \<and> is_i32 (fc_value c)) \<or> (fc_op c = In \<and> list_of_values is_i32 (fc_value c))"
  shows "sql_holds (condition_for c) h = matches_int a c"
  using assms
  by (cases "fc_value c"; cases "fc_op c")
    (simp_all add: condition_for_def matches_int_def ordered_op_def as_i32_ident int_list_agrees)

lemma str_agrees:
  assumes "column_for (fc_field c) = Some col" "column_value col h = Some (VString a)"
    and "((fc_op c = Eq \<or> fc_op c = Ne) \<and> is_str (fc_value c)) \<or>
       (fc_op c = In \<and> list_of_values is_str (fc_value c)) \<or>
       (fc_op c = Contains \<and> is_str (fc_value c) \<and> like_plain (scalar_str (fc_value c))) \<or>
       (fc_op c = Icontains \<and> is_str (fc_value c) \<and> like_plain (to_lowercase (scalar_str (fc_value c))))"
  shows "sql_holds (condition_for c) h = matches_str a c"
proof -
  have strip: "filter (\<lambda>c. c \<noteq> CHR ''%'' \<and> c \<noteq> CHR ''_'') t = t" if "like_plain t" for t
    using that by (auto simp: filter_id_conv like_plain_def list_all_iff)
  show ?thesis
    using assms sql_like_contains
    by (cases "fc_value c"; cases "fc_op c")
      (auto simp add: condition_for_def matches_str_def str_list_agrees strip)
qed

lemma datetime_agrees:
  assumes "column_for (fc_field c) = Some col" "column_value col h = Some (VDateTime a)"
    and "(ordered_op (fc_op c) \<and> is_datetime (fc_value c)) \<or>
       (fc_op c = In \<and> list_of_values is_datetime (fc_value c))"
  shows "sql_holds (condition_for c) h = matches_datetime a c"
  using assms
  by (cases "fc_value c"; cases "fc_op c")
    (simp_all add: condition_for_def matches_datetime_def ordered_op_def datetime_list_agrees)

lemma null_never:
  assumes "column_for (fc_field c) = Some col" "column_value col h = None"
  shows "\<not> sql_holds (condition_for c) h"
  using assms
  by (cases "fc_op c"; cases "fc_value c") (simp_all add: condition_for_def null_list)

lemma clause_agrees:
  assumes "portable c"
  shows "sql_holds (condition_for c) h = matches_one h c"
proof -
  let ?f = "fc_field c"
  consider (id) "?f = ''id''" | (level) "?f = ''power_level''" | (name) "?f = ''name''"
    | (owner) "?f = ''owner_id''" | (created) "?f = ''created_at''" | (updated) "?f = ''updated_at''"
    | (archived) "?f = ''archived_at''"
    | (other) "?f \<noteq> ''id''" "?f \<noteq> ''power_level''" "?f \<noteq> ''name''" "?f \<noteq> ''owner_id''"
        "?f \<noteq> ''created_at''" "?f \<noteq> ''updated_at''" "?f \<noteq> ''archived_at''" by blast
  then show ?thesis
  proof cases
    case id
    then show ?thesis using assms int_agrees [of c ColId h "h_id h"]
      by (simp add: portable_def column_for_def matches_one_def Let_def)
  next
    case level
    then show ?thesis
      using assms int_agrees [of c ColPowerLevel h] null_never [of c ColPowerLevel h]
      by (cases "h_power_level h") (simp_all add: portable_def column_for_def matches_one_def is_some_and_def Let_def)
  next
    case name
    then show ?thesis
      using assms str_agrees [of c ColName h] null_never [of c ColName h]
      by (cases "h_name h") (simp_all add: portable_def column_for_def matches_one_def is_some_and_def Let_def)
  next
    case owner
    then show ?thesis using assms str_agrees [of c ColOwnerId h "h_owner_id h"]
      by (simp add: portable_def column_for_def matches_one_def Let_def)
  next
    case created
    then show ?thesis using assms datetime_agrees [of c ColCreatedAt h "h_created_at h"]
      by (simp add: portable_def column_for_def matches_one_def Let_def)
  next
    case updated
    then show ?thesis using assms datetime_agrees [of c ColUpdatedAt h "h_updated_at h"]
      by (simp add: portable_def column_for_def matches_one_def Let_def)
  next
    case archived
    then show ?thesis
      using assms datetime_agrees [of c ColArchivedAt h] null_never [of c ColArchivedAt h]
      by (cases "h_archived_at h") (simp_all add: portable_def column_for_def matches_one_def is_some_and_def Let_def)
  next
    case other
    then show ?thesis by (simp add: condition_for_def column_for_def matches_one_def)
  qed
qed

text \<open>
  C21. On the filters both can express, the Postgres repository's \<open>WHERE\<close> clause is true of
  exactly the rows the in-memory repository selects, nulls included; a filter on an unknown
  field selects nothing in either.
\<close>

theorem repository_filters_agree:
  assumes "list_all portable filters"
  shows "sea_selects sql_holds filters h = mem_selects filters h"
  using assms by (induction filters) (simp_all add: sea_selects_def mem_selects_def matches_all_def clause_agrees)

text \<open>
  C38. An integer filter is cast to \<open>i32\<close> before it reaches Postgres: the Postgres repository
  compares an id or a power level with the value wrapped to 32 bits, the in-memory one with the value
  itself, so a value outside the 32-bit range can select a row it does not equal.
\<close>

theorem sea_int_filter_wraps:
  "sql_holds (condition_for \<lparr>fc_field = ''id'', fc_op = Eq, fc_value = FInt v\<rparr>) h =
     (h_id h = (v + 2 ^ 31) mod 2 ^ 32 - 2 ^ 31) \<and>
   matches_one h \<lparr>fc_field = ''id'', fc_op = Eq, fc_value = FInt v\<rparr> = (h_id h = v) \<and>
   sql_holds (condition_for \<lparr>fc_field = ''power_level'', fc_op = Eq, fc_value = FInt v\<rparr>) h =
     (h_power_level h = Some ((v + 2 ^ 31) mod 2 ^ 32 - 2 ^ 31)) \<and>
   matches_one h \<lparr>fc_field = ''power_level'', fc_op = Eq, fc_value = FInt v\<rparr> = (h_power_level h = Some v) \<and>
   sql_holds (condition_for \<lparr>fc_field = ''id'', fc_op = Eq, fc_value = FInt (h_id h + 2 ^ 32)\<rparr>) h =
     i32_range (h_id h)"
proof -
  have "(h_id h + 2 ^ 32 + 2 ^ 31) mod 2 ^ 32 - 2 ^ 31 = (h_id h + 2 ^ 31) mod 2 ^ 32 - 2 ^ 31"
    using mod_add_self2 [of "h_id h + 2 ^ 31" "2 ^ 32"] by (simp add: algebra_simps)
  moreover have "h_id h = as_i32 (h_id h) \<longleftrightarrow> i32_range (h_id h)"
    using as_i32_ident [of "h_id h"] as_i32_range [of "h_id h"] by auto
  ultimately show ?thesis
    by (cases "h_power_level h")
      (auto simp: condition_for_def column_for_def matches_one_def matches_int_def as_i32_def is_some_and_def)
qed

text \<open>
  \<open>Column::contains\<close> does not escape its text, so a substring filter with a \<open>LIKE\<close> metacharacter is
  read as a pattern by Postgres and as text in memory.
\<close>

lemma contains_reads_metacharacters:
  assumes "h_name h = Some ''abc''"
  shows "sql_holds (condition_for \<lparr>fc_field = ''name'', fc_op = Contains, fc_value = FStr ''a_c''\<rparr>) h"
    and "\<not> matches_one h \<lparr>fc_field = ''name'', fc_op = Contains, fc_value = FStr ''a_c''\<rparr>"
  using assms
  by (simp_all add: condition_for_def column_for_def matches_one_def matches_str_def is_some_and_def starts_with_def)

section \<open>A reference engine\<close>

text \<open>A table held as its sorted rows with the next key, running the statements as SQL reads them.\<close>

record ref_db =
  ref_rows :: "(int, hero) btree"
  ref_next :: int

definition where_all :: "simple_expr list \<Rightarrow> hero \<Rightarrow> bool" where
  "where_all es h = list_all (\<lambda>e. sql_holds e h) es"

definition null_first :: "hero" where
  "null_first = \<lparr>h_id = 0, h_name = None, h_powers = None, h_power_level = None, h_owner_id = [],
     h_archived_at = None, h_created_at = 0, h_updated_at = 0\<rparr>"

definition ref_valid :: "ref_db \<Rightarrow> bool" where
  "ref_valid d \<longleftrightarrow> bt_sorted (ref_rows d) \<and> list_all (\<lambda>(k, h). h_id h = k) (ref_rows d)"

definition ref_insert :: "active_model \<Rightarrow> (ref_db, string, hero) eff" where
  "ref_insert am d =
     (let h = set_row am (null_first\<lparr>h_id := ref_next d\<rparr>) in
      if \<not> ref_valid d then (Inl ''corrupt table'', d)
      else if am_id am \<noteq> NotSet then (Inl ''explicit key'', d)
      else if map_of (ref_rows d) (ref_next d) \<noteq> None then (Inl ''duplicate key'', d)
      else (Inr h, \<lparr>ref_rows = bt_insert (ref_next d) h (ref_rows d), ref_next = ref_next d + 1\<rparr>))"

definition ref_update :: "active_model \<Rightarrow> simple_expr list \<Rightarrow> (ref_db, string, hero list) eff" where
  "ref_update am es d =
     (if \<not> ref_valid d then (Inl ''corrupt table'', d)
      else
        (Inr (map (set_row am) (filter (where_all es) (map snd (ref_rows d)))),
         d\<lparr>ref_rows := map (\<lambda>(k, h). (k, if where_all es h then set_row am h else h)) (ref_rows d)\<rparr>))"

definition ref_select :: "select \<Rightarrow> ref_db \<Rightarrow> hero list" where
  "ref_select q d = filter (where_all (q_where q)) (map snd (ref_rows d))"

definition ref_engine :: "ref_db engine" where
  "ref_engine =
     \<lparr>db_all = (\<lambda>q d. Inr (ref_select q d)), db_count = (\<lambda>q d. if ref_valid d then Inr (length (ref_select q d)) else Inl ''corrupt table''),
      db_one = (\<lambda>q d. Inr (case ref_select q d of [] \<Rightarrow> None | h # _ \<Rightarrow> Some h)),
      db_insert = ref_insert, db_update_returning = ref_update\<rparr>"

definition ref_table :: "ref_db \<Rightarrow> int \<Rightarrow> hero option" where
  "ref_table d i = (if ref_valid d then map_of (ref_rows d) i else None)"

lemma ref_valid_update:
  assumes "ref_valid d" "am_id am = NotSet"
  shows "ref_valid (d\<lparr>ref_rows := map (\<lambda>(k, h). (k, if where_all es h then set_row am h else h)) (ref_rows d)\<rparr>)"
  using assms bt_sorted_map_values [of "\<lambda>k h. if where_all es h then set_row am h else h" "ref_rows d"]
  by (auto simp: ref_valid_def list_all_iff)

lemma map_of_rows:
  "bt_sorted m \<Longrightarrow> (k, h) \<in> set m \<longleftrightarrow> map_of m k = Some h"
  using bt_sorted_distinct [of m] by (auto simp: map_of_eq_Some_iff)

lemma set_row_idem: "set_row am (set_row am h) = set_row am h"
  by (simp add: set_row_def assign_def split: active_value.splits)

interpretation ref: sql_engine ref_engine ref_table sql_holds
proof
  fix d i h
  show "h_id h = i" if "ref_table d i = Some h"
    using that map_of_SomeD [of "ref_rows d" i h]
    by (auto simp: ref_table_def ref_valid_def list_all_iff split: if_splits)
next
  fix am d m d'
  assume am: "am_id am = NotSet" and op: "db_insert ref_engine am d = (Inr m, d')"
  then have d: "ref_valid d" "map_of (ref_rows d) (ref_next d) = None"
    and m: "m = set_row am (null_first\<lparr>h_id := ref_next d\<rparr>)"
    and d': "d' = \<lparr>ref_rows = bt_insert (ref_next d) m (ref_rows d), ref_next = ref_next d + 1\<rparr>"
    by (auto simp: ref_engine_def ref_insert_def Let_def split: if_splits)
  have i: "h_id m = ref_next d" using am by (simp add: m)
  then have "ref_valid d'" using d by (simp add: d' ref_valid_def bt_sorted_insert bt_insert_ids)
  moreover have "map_of (ref_rows d') = (map_of (ref_rows d))(h_id m \<mapsto> m)"
    using d i by (simp add: d' ref_valid_def map_of_bt_insert)
  moreover have "set_row am m = m" by (simp add: m set_row_idem)
  ultimately show "ref_table d (h_id m) = None \<and> ref_table d' = (ref_table d)(h_id m \<mapsto> m) \<and> set_row am m = m"
    using d i by (simp add: ref_table_def fun_eq_iff)
next
  fix am d e d'
  show "ref_table d' = ref_table d" if "db_insert ref_engine am d = (Inl e, d')"
    using that by (auto simp: ref_engine_def ref_insert_def Let_def split: if_splits)
next
  fix am es d rs d'
  assume am: "am_id am = NotSet" and op: "db_update_returning ref_engine am es d = (Inr rs, d')"
  then have valid: "ref_valid d" by (auto simp: ref_engine_def ref_update_def split: if_splits)
  then have rs: "rs = map (set_row am) (filter (where_all es) (map snd (ref_rows d)))"
    and d': "d' = d\<lparr>ref_rows := map (\<lambda>(k, h). (k, if where_all es h then set_row am h else h)) (ref_rows d)\<rparr>"
    using op by (auto simp: ref_engine_def ref_update_def)
  have "ref_table d' = (\<lambda>i. map_option (\<lambda>h. if where_all es h then set_row am h else h) (ref_table d i))"
    using ref_valid_update [OF valid am, of es] valid
    by (auto simp: d' ref_table_def fun_eq_iff map_of_map_values)
  moreover have "map h_id (map snd (ref_rows d)) = map fst (ref_rows d)"
    using valid by (intro mem_inv_ids) (simp add: ref_valid_def)
  then have "distinct (map h_id (map snd (ref_rows d)))"
    using valid bt_sorted_distinct unfolding ref_valid_def by metis
  then have "distinct (map h_id (filter (where_all es) (map snd (ref_rows d))))"
    by (rule distinct_map_filter)
  then have "distinct (map h_id rs)" using am by (simp add: rs comp_def)
  moreover have "set rs = {set_row am h | i h. ref_table d i = Some h \<and> where_all es h}"
    using valid map_of_rows [of "ref_rows d"]
    by (force simp: rs ref_table_def ref_valid_def)
  ultimately show "ref_table d' = (\<lambda>i. map_option (\<lambda>h. if list_all (\<lambda>e. sql_holds e h) es
        then set_row am h else h) (ref_table d i)) \<and>
      distinct (map h_id rs) \<and>
      set rs = {set_row am h | i h. ref_table d i = Some h \<and> list_all (\<lambda>e. sql_holds e h) es}"
    by (simp add: where_all_def)
next
  fix am es d e d'
  show "ref_table d' = ref_table d" if "db_update_returning ref_engine am es d = (Inl e, d')"
    using that by (auto simp: ref_engine_def ref_update_def split: if_splits)
qed simp_all

lemma ref_count_rows:
  assumes "ref_valid d"
  shows "length (ref_select query d) = card {i. \<exists>h. ref_table d i = Some h \<and> where_all (q_where query) h}"
  using assms count_map_of [of "ref_rows d" "where_all (q_where query)"]
  by (simp add: ref_select_def ref_table_def ref_valid_def bt_sorted_distinct del: filter_map)

interpretation ref_counts: counting_engine ref_engine ref_table sql_holds
proof unfold_locales
  fix d
  show "finite (dom (ref_table d))"
    using finite_dom_map_of [of "ref_rows d"] by (cases "ref_valid d") (simp_all add: ref_table_def dom_def)
next
  fix query d n
  show "n = card {i. \<exists>h. ref_table d i = Some h \<and> list_all (\<lambda>e. sql_holds e h) (q_where query)}"
    if "db_count ref_engine query d = Inr n"
    using that ref_count_rows [of d query] by (auto simp: ref_engine_def where_all_def split: if_splits)
qed

section \<open>Properties of the Postgres repository\<close>

text \<open>
  C6. One command on the Postgres repository, over an engine that runs its statements as SQL
  says, leaves every row as it is, unless the row is live and the command addresses it; then
  the row becomes exactly the edit or the soft delete the command asks for. This is the same
  contract the in-memory repository keeps.
\<close>

theorem sea_command_effect:
  assumes "sql_engine eng table holds" and "table d i = Some h"
  shows "table (exec_cmd (sea_repository eng) clk c d) i = Some h \<or>
     (live h \<and> addresses (sea_selects holds) h c \<and>
      (\<exists>h'. table (exec_cmd (sea_repository eng) clk c d) i = Some h' \<and> changes c h h'))"
  using sql_engine.sea_exec_row [OF assms] .

text \<open>
  Over any sequence of commands on the Postgres repository a record never disappears and
  keeps its id, owner and creation time, and a soft-deleted record stays exactly as it was.
\<close>

theorem sea_rows_persist:
  assumes "sql_engine eng table holds" and "table d i = Some h"
  shows "\<exists>h'. table (exec_cmds (sea_repository eng) cs d) i = Some h' \<and> same_identity h h' \<and>
     (if live h then True else h' = h)"
  using sql_engine.sea_exec_cmds_row [OF assms] by auto

definition sample_db :: ref_db where
  "sample_db = \<lparr>ref_rows = records sample_repo, ref_next = 3\<rparr>"

lemma sample_db_rows:
  "ref_table sample_db 1 = Some (sample_hero 1 ''Spectra'' ''alice'' None)"
  "ref_table sample_db 2 = Some (sample_hero 2 ''Vapor'' ''bob'' (Some 20))"
  by (simp_all add: ref_table_def ref_valid_def sample_db_def sample_repo_def sample_hero_def bt_sorted_def)

lemma sample_db_delete:
  "sea_delete ref_engine (\<lambda>n. t) 1 ''alice'' sample_db =
     (Inr True, sample_db\<lparr>ref_rows := [(1, (sample_hero 1 ''Spectra'' ''alice'' None)
        \<lparr>h_archived_at := Some t, h_updated_at := t\<rparr>), (2, sample_hero 2 ''Vapor'' ''bob'' (Some 20))]\<rparr>)"
  by (simp add: sea_delete_def ref_engine_def ref_update_def ref_valid_def sample_db_def sample_repo_def
      sample_hero_def bt_sorted_def where_all_def archive_values_def set_row_def assign_def default_active_def)

theorem sea_command_effect_witness:
  "ref_table (exec_cmd (sea_repository ref_engine) (\<lambda>n. 30) (CmdDelete 1 ''bob'') sample_db) 1 =
   Some (sample_hero 1 ''Spectra'' ''alice'' None)"
  using sea_command_effect [OF ref.sql_engine_axioms sample_db_rows(1), of "\<lambda>n. 30" "CmdDelete 1 ''bob''"]
  by (simp add: sample_hero_def)

theorem sea_rows_persist_witness:
  "ref_table (exec_cmds (sea_repository ref_engine) sample_cmds sample_db) 2 =
   Some (sample_hero 2 ''Vapor'' ''bob'' (Some 20))"
  using sea_rows_persist [OF ref.sql_engine_axioms sample_db_rows(2), of sample_cmds]
  by (simp add: live_def sample_hero_def)

definition sample_filters :: "filter_clause list" where
  "sample_filters =
     [\<lparr>fc_field = ''power_level'', fc_op = Gte, fc_value = FInt 5\<rparr>,
      \<lparr>fc_field = ''name'', fc_op = Icontains, fc_value = FStr ''pectra''\<rparr>]"

theorem repository_filters_agree_witness:
  "sea_selects sql_holds sample_filters (sample_hero 1 ''Spectra'' ''alice'' None)"
proof -
  have "list_all portable sample_filters"
    by (simp add: sample_filters_def portable_def ordered_op_def i32_range_def like_plain_def
        to_lowercase_def char_lower_def code_def Let_def)
  moreover have "mem_selects sample_filters (sample_hero 1 ''Spectra'' ''alice'' None)"
    by (simp add: mem_selects_def matches_all_def sample_filters_def matches_one_def is_some_and_def
        matches_int_def matches_str_def sample_hero_def to_lowercase_def char_lower_def code_def
        starts_with_def Let_def)
  ultimately show ?thesis using repository_filters_agree by blast
qed

end
