(* ===== verification/Hero_Stats.thy ===== *)
theory Hero_Stats
  imports Heroes_Siblings Stats_Cache Hero_Sea_Orm
begin

text \<open>
  \<open>/stats\<close>, \<open>/predict\<close> and \<open>/events\<close> of \<open>src/hero/controllers/heroes.rs\<close>. \<open>f64\<close> is a parameter
  with the operations the code uses (\<open>'f\<close>); so are the crate's bucketing, parsing and forecast, and
  \<open>CachedStats::get_or_build\<close>, whose documented behaviour is \<open>cached_stats_documented\<close>. The state of
  a stats request is the cache server's and the repository's (\<open>'c \<times> 'r\<close>). Between two awaits of the
  build other requests run: \<open>others n\<close> is what they do to the repository before the \<open>n\<close>-th.
\<close>

section \<open>Numbers\<close>

record 'f f64_api =
  f_from :: "int \<Rightarrow> 'f"
  f_add :: "'f \<Rightarrow> 'f \<Rightarrow> 'f"
  f_min :: "'f \<Rightarrow> 'f \<Rightarrow> 'f"
  f_max :: "'f \<Rightarrow> 'f \<Rightarrow> 'f"
  f_div :: "'f \<Rightarrow> 'f \<Rightarrow> 'f"
  f_zero :: 'f
  f_infinity :: 'f
  f_neg_infinity :: 'f

record 'f numeric_field_stat =
  nf_field :: string
  nf_count :: nat
  nf_minimum :: "'f option"
  nf_maximum :: "'f option"
  nf_average :: "'f option"
  nf_total :: "'f option"

definition numeric_stat :: "'f f64_api \<Rightarrow> string \<Rightarrow> 'f list \<Rightarrow> 'f numeric_field_stat" where
  "numeric_stat fl field values =
     (if values = [] then
        \<lparr>nf_field = field, nf_count = 0, nf_minimum = None, nf_maximum = None, nf_average = None,
         nf_total = None\<rparr>
      else
        let count = length values;
            total = foldl (f_add fl) (f_zero fl) values;
            minimum = foldl (f_min fl) (f_infinity fl) values;
            maximum = foldl (f_max fl) (f_neg_infinity fl) values
        in \<lparr>nf_field = field, nf_count = count, nf_minimum = Some minimum, nf_maximum = Some maximum,
            nf_average = Some (f_div fl total (f_from fl (int count))), nf_total = Some total\<rparr>)"

definition numeric_value :: "'f f64_api \<Rightarrow> hero \<Rightarrow> string \<Rightarrow> 'f option" where
  "numeric_value fl hero field =
     (if field = ''id'' then Some (f_from fl (h_id hero))
      else if field = ''power_level'' then map_option (f_from fl) (h_power_level hero)
      else None)"

definition boolean_value :: "hero \<Rightarrow> string \<Rightarrow> bool option" where
  "boolean_value hero field = None"

text \<open>A \<open>BTreeMap\<close> from bucket start to a count, or to a sum, filled record by record.\<close>

definition time_series :: "(int \<Rightarrow> int) \<Rightarrow> hero list \<Rightarrow> (int \<times> nat) list" where
  "time_series bucket_start recs =
     foldl (\<lambda>counts record.
       let start = bucket_start (h_created_at record) in
       bt_insert start ((case map_of counts start of None \<Rightarrow> 0 | Some n \<Rightarrow> n) + 1) counts) [] recs"

definition sum_series ::
  "'f f64_api \<Rightarrow> (int \<Rightarrow> int) \<Rightarrow> string \<Rightarrow> hero list \<Rightarrow> (int \<times> 'f) list" where
  "sum_series fl bucket_start field_name recs =
     foldl (\<lambda>sums record.
       case numeric_value fl record field_name of
         None \<Rightarrow> sums
       | Some hv \<Rightarrow>
           (let start = bucket_start (h_created_at record) in
            bt_insert start (f_add fl (case map_of sums start of None \<Rightarrow> f_zero fl | Some v \<Rightarrow> v) hv) sums))
       [] recs"

section \<open>The crate and the cache\<close>

datatype cached_read_error = AppFailure app_error | CacheFailure cache_error

datatype cache_state = Hit | Missed | Bypass

record ('f, 'cat) resource_stats =
  su_total :: nat
  su_numeric :: "'f numeric_field_stat list"
  su_categorical :: 'cat
  su_time_series :: "(int \<times> nat) list option"
  su_archived :: nat

record 'f prediction =
  pr_field :: "string option"
  pr_bucket :: string
  pr_method :: string
  pr_last_known :: "int \<times> 'f"
  pr_predictions :: "(int \<times> 'f) list"

record ('r, 'c, 'b, 'f, 'cat) stats_api =
  st_f64 :: "'f f64_api"
  st_count :: "filter_clause list \<Rightarrow> bool \<Rightarrow> bool \<Rightarrow> bool \<Rightarrow> ('r, repo_error, nat) eff"
  st_parse_bucket :: "string option \<Rightarrow> crud_error + 'b option"
  st_parse_predict_field :: "field_spec list \<Rightarrow> string option \<Rightarrow> crud_error + string option"
  st_parse_periods :: "string option \<Rightarrow> crud_error + nat"
  st_bucket_str :: "'b \<Rightarrow> string"
  st_day :: 'b
  st_bucket_start :: "'b \<Rightarrow> int \<Rightarrow> int"
  st_numeric_fields :: "field_spec list \<Rightarrow> string list"
  st_categorical_fields :: "field_spec list \<Rightarrow> string list"
  st_categorical_counts :: "hero list \<Rightarrow> string list \<Rightarrow> (hero \<Rightarrow> string \<Rightarrow> bool option) \<Rightarrow> 'cat"
  st_forecast :: "(int \<times> 'f) list \<Rightarrow> nat \<Rightarrow> 'b \<Rightarrow> nat + (int \<times> 'f) list"
  st_max_history :: nat
  st_cache_key :: "string \<Rightarrow> string \<Rightarrow> (string \<Rightarrow> json option) \<Rightarrow> string"
  st_stats_value :: "('f, 'cat) resource_stats \<Rightarrow> string + json"
  st_prediction_value :: "'f prediction \<Rightarrow> string + json"
  st_cache_error :: "cache_error \<Rightarrow> crud_error"
  st_state_str :: "cache_state \<Rightarrow> string"
  st_get_or_build :: "string \<Rightarrow> ('c \<times> 'r, cached_read_error, json) eff \<Rightarrow>
    ('c \<times> 'r, cached_read_error, json \<times> cache_state) eff"

fun from_cached_read_error :: "(cache_error \<Rightarrow> crud_error) \<Rightarrow> cached_read_error \<Rightarrow> app_error" where
  "from_cached_read_error ce (AppFailure err) = err"
| "from_cached_read_error ce (CacheFailure err) = from_crud_error (ce err)"

type_synonym ('r, 'c, 'a) stats_handler = "('c \<times> 'r, app_error, 'a) eff"

definition STATS_CACHE_HEADER :: string where
  "STATS_CACHE_HEADER = ''x-stats-cache''"

definition cached_json :: "('r, 'c, 'b, 'f, 'cat) stats_api \<Rightarrow> string \<Rightarrow> string \<Rightarrow> (string \<Rightarrow> json option) \<Rightarrow>
    ('c \<times> 'r, cached_read_error, json) eff \<Rightarrow> ('r, 'c, response) stats_handler" where
  "cached_json st kind schema params build =
     (let key = st_cache_key st kind schema params in
      and_then (or_return (from_cached_read_error (st_cache_error st)) (st_get_or_build st key build)) (\<lambda>(body, cache_state).
      (let response = json_response 200 body in
       ok (if cache_state \<noteq> Bypass then set_header STATS_CACHE_HEADER (st_state_str st cache_state) response
           else response))))"

definition to_value :: "('a \<Rightarrow> string + json) \<Rightarrow> 'a \<Rightarrow> cached_read_error + json" where
  "to_value serialize body = map_err (\<lambda>err. AppFailure (Internal err)) (serialize body)"

text \<open>An awaited repository call, after what other requests did meanwhile; \<open>?\<close> on its \<open>RepoError\<close>.\<close>

definition awaited :: "(repo_error \<Rightarrow> string) \<Rightarrow> ('r \<Rightarrow> 'r) \<Rightarrow> ('r, repo_error, 'a) eff \<Rightarrow>
    ('c \<times> 'r, cached_read_error, 'a) eff" where
  "awaited display others m = (\<lambda>(c, r). case m (others r) of
     (x, r') \<Rightarrow> (map_err (\<lambda>err. AppFailure (from_repo_error display err)) x, (c, r')))"

section \<open>Handlers\<close>

text \<open>The build closure of \<open>get_stats\<close>; \<open>u64\<close> subtraction wraps in a release build.\<close>

definition stats_summary :: "('r, 'sc) crud_api \<Rightarrow> ('r, 'c, 'b, 'f, 'cat) stats_api \<Rightarrow> (nat \<Rightarrow> 'r \<Rightarrow> 'r) \<Rightarrow>
    bool \<Rightarrow> 'b option \<Rightarrow> ('c \<times> 'r, cached_read_error, ('f, 'cat) resource_stats) eff" where
  "stats_summary crud st others include_archived bucket =
     (let display = ca_repo_error_display crud in
      and_then (awaited display (others 0) (st_count st [] False False True)) (\<lambda>total_visible.
      and_then (awaited display (others 1) (st_count st [] True False True)) (\<lambda>total_all.
      let total = (if include_archived then total_all else total_visible) in
      and_then (awaited display (others 2) (ca_list crud 0 (st_max_history st) include_archived False [] [])) (\<lambda>recs.
      let numeric = map (\<lambda>field.
            let values = filter_map (\<lambda>r. numeric_value (st_f64 st) r field) recs
            in numeric_stat (st_f64 st) field values) (st_numeric_fields st HERO_FIELD_SPECS);
          categorical = st_categorical_counts st recs (st_categorical_fields st HERO_FIELD_SPECS) boolean_value
      in ok \<lparr>su_total = total, su_numeric = numeric, su_categorical = categorical,
             su_time_series = map_option (\<lambda>bucket. time_series (st_bucket_start st bucket) recs) bucket,
             su_archived = (total_all + 2 ^ 64 - total_visible) mod 2 ^ 64\<rparr>))))"

definition get_stats :: "('r, 'l, 'sc) app_state \<Rightarrow> ('r, 'c, 'b, 'f, 'cat) stats_api \<Rightarrow> (nat \<Rightarrow> 'r \<Rightarrow> 'r) \<Rightarrow> claims \<Rightarrow>
    string option \<Rightarrow> raw_params \<Rightarrow> ('r, 'c, response) stats_handler" where
  "get_stats state st others claims query_bucket raw_params =
     (let crud = as_crud state in
      and_then (lift (require_any_role claims (oidc_client_id (as_settings state)) HERO_READ_ROLES)) (\<lambda>_.
      and_then (lift (map_err UnprocessableEntity (ca_reject_only_archived crud raw_params))) (\<lambda>_.
      and_then (lift (map_err UnprocessableEntity (ca_parse_include_archived crud raw_params))) (\<lambda>include_archived.
      and_then (lift (map_err from_crud_error (st_parse_bucket st query_bucket))) (\<lambda>bucket.
      let params = [''include_archived'' \<mapsto> JBool include_archived,
                    ''bucket'' \<mapsto> json_opt (\<lambda>b. JStr (st_bucket_str st b)) bucket] in
      cached_json st ''stats'' ''ResourceStats'' params
        (and_then (stats_summary crud st others include_archived bucket)
          (\<lambda>stats. lift (to_value (st_stats_value st) stats))))))))"

definition predict_series :: "('r, 'c, 'b, 'f, 'cat) stats_api \<Rightarrow> string option \<Rightarrow> 'b \<Rightarrow> hero list \<Rightarrow>
    (int \<times> 'f) list" where
  "predict_series st field bucket recs =
     (case field of
        None \<Rightarrow> map (\<lambda>(start, count). (start, f_from (st_f64 st) (int count)))
          (time_series (st_bucket_start st bucket) recs)
      | Some field_name \<Rightarrow> sum_series (st_f64 st) (st_bucket_start st bucket) field_name recs)"

text \<open>\<open>expect("forecast() already rejects fewer than 2 buckets")\<close> is \<open>last\<close> of a list that is not empty then.\<close>

definition predict_body :: "('r, 'sc) crud_api \<Rightarrow> ('r, 'c, 'b, 'f, 'cat) stats_api \<Rightarrow> (nat \<Rightarrow> 'r \<Rightarrow> 'r) \<Rightarrow>
    string option \<Rightarrow> nat \<Rightarrow> 'b \<Rightarrow> ('c \<times> 'r, cached_read_error, json) eff" where
  "predict_body crud st others field periods bucket =
     and_then (awaited (ca_repo_error_display crud) (others 0)
       (ca_list crud 0 (st_max_history st) False False [] [])) (\<lambda>recs.
     let series = predict_series st field bucket recs in
     and_then (lift (map_err (\<lambda>have. AppFailure (UnprocessableEntity [FieldError ''periods''
         (''need at least 2 time buckets of history to forecast a trend, got '' @ show_nat have)]))
       (st_forecast st series periods bucket))) (\<lambda>predictions.
     lift (to_value (st_prediction_value st)
       \<lparr>pr_field = field, pr_bucket = st_bucket_str st bucket, pr_method = ''linear_regression'',
        pr_last_known = last series, pr_predictions = predictions\<rparr>)))"

definition get_prediction :: "('r, 'l, 'sc) app_state \<Rightarrow> ('r, 'c, 'b, 'f, 'cat) stats_api \<Rightarrow> (nat \<Rightarrow> 'r \<Rightarrow> 'r) \<Rightarrow>
    claims \<Rightarrow> string option \<Rightarrow> string option \<Rightarrow> string option \<Rightarrow> ('r, 'c, response) stats_handler" where
  "get_prediction state st others claims query_field query_periods query_bucket =
     and_then (lift (require_any_role claims (oidc_client_id (as_settings state)) HERO_READ_ROLES)) (\<lambda>_.
     and_then (lift (map_err from_crud_error (st_parse_bucket st query_bucket))) (\<lambda>parsed.
     let bucket = (case parsed of None \<Rightarrow> st_day st | Some b \<Rightarrow> b) in
     and_then (lift (map_err from_crud_error (st_parse_predict_field st HERO_FIELD_SPECS query_field))) (\<lambda>field.
     and_then (lift (map_err from_crud_error (st_parse_periods st query_periods))) (\<lambda>periods.
     let params = [''bucket'' \<mapsto> JStr (st_bucket_str st bucket), ''field'' \<mapsto> json_opt JStr field,
                   ''periods'' \<mapsto> JInt (int periods)] in
     cached_json st ''predict'' ''Prediction'' params
       (predict_body (as_crud state) st others field periods bucket)))))"

text \<open>\<open>events\<close>: the role check in front of the crate's event stream.\<close>

definition events :: "('r, 'l, 'sc) app_state \<Rightarrow> (string \<Rightarrow> string option \<Rightarrow> request_headers \<Rightarrow> crud_error + 'sse) \<Rightarrow>
    claims \<Rightarrow> string option \<Rightarrow> request_headers \<Rightarrow> app_error + 'sse" where
  "events state event_stream_until claims subscriber_id headers =
     and_then_r (require_any_role claims (oidc_client_id (as_settings state)) HERO_READ_ROLES) (\<lambda>_.
     map_err from_crud_error (event_stream_until HERO_EVENT_RESOURCE subscriber_id headers))"
section \<open>The histogram\<close>

lemma sum_bt_insert_count:
  "bt_sorted m \<Longrightarrow>
   sum_list (map snd (bt_insert k (Suc (case map_of m k of None \<Rightarrow> 0 | Some n \<Rightarrow> n)) m)) =
   Suc (sum_list (map snd m))"
proof (induction m)
  case (Cons kv m)
  obtain k' v' where kv: "kv = (k', v')" by (cases kv)
  have "k < k' \<Longrightarrow> map_of m k = None"
    using Cons.prems kv by (auto simp: bt_sorted_Cons map_of_eq_None_iff dest!: bspec)
  with Cons kv show ?case by (auto simp: bt_sorted_Cons)
qed simp

lemma time_series_snoc:
  "time_series bs (hs @ [h]) = (let m = time_series bs hs; k = bs (h_created_at h) in
     bt_insert k ((case map_of m k of None \<Rightarrow> 0 | Some n \<Rightarrow> n) + 1) m)"
  by (simp add: time_series_def Let_def)

lemma time_series_invariant:
  "bt_sorted (time_series bs hs) \<and> sum_list (map snd (time_series bs hs)) = length hs \<and>
   (\<forall>b. map_of (time_series bs hs) b = (case length (filter (\<lambda>h. bs (h_created_at h) = b) hs) of
      0 \<Rightarrow> None | n \<Rightarrow> Some n))"
proof (induction hs rule: rev_induct)
  case Nil
  then show ?case by (simp add: time_series_def)
next
  case (snoc h hs)
  then have s: "bt_sorted (time_series bs hs)" and n: "sum_list (map snd (time_series bs hs)) = length hs"
    and m: "\<And>b. map_of (time_series bs hs) b = (case length (filter (\<lambda>h. bs (h_created_at h) = b) hs) of
      0 \<Rightarrow> None | n \<Rightarrow> Some n)" by blast+
  have "bt_sorted (time_series bs (hs @ [h]))"
    by (simp add: time_series_snoc Let_def bt_sorted_insert s)
  moreover have "sum_list (map snd (time_series bs (hs @ [h]))) = length (hs @ [h])"
    by (simp add: time_series_snoc Let_def sum_bt_insert_count s n)
  moreover have "map_of (time_series bs (hs @ [h])) b =
      (case length (filter (\<lambda>h. bs (h_created_at h) = b) (hs @ [h])) of 0 \<Rightarrow> None | n \<Rightarrow> Some n)" for b
    by (auto simp: time_series_snoc Let_def map_of_bt_insert s m split: nat.splits)
  ultimately show ?case by blast
qed

text \<open>
  The time series of \<open>/stats\<close> and \<open>/predict\<close> is the histogram of the records: bucket starts
  strictly ascend, a bucket is listed exactly when a record falls into it, with the number of
  those records, and the counts add up to the number of records.
\<close>

theorem time_series_histogram:
  "sorted_wrt (<) (map fst (time_series bs hs)) \<and> sum_list (map snd (time_series bs hs)) = length hs \<and>
   map_of (time_series bs hs) b = (case length (filter (\<lambda>h. bs (h_created_at h) = b) hs) of
      0 \<Rightarrow> None | Suc n \<Rightarrow> Some (Suc n))"
  using time_series_invariant [of bs hs] by (auto simp: bt_sorted_def split: nat.splits)

section \<open>Exact numbers\<close>

text \<open>IEEE 754 binary64 on integers up to 2^53, where it is exact, and on the infinities.\<close>

definition f64_exact :: "'f f64_api \<Rightarrow> bool" where
  "f64_exact fl \<longleftrightarrow>
     f_zero fl = f_from fl 0 \<and>
     (\<forall>a b. abs a \<le> 2 ^ 53 \<longrightarrow> abs b \<le> 2 ^ 53 \<longrightarrow>
        (abs (a + b) \<le> 2 ^ 53 \<longrightarrow> f_add fl (f_from fl a) (f_from fl b) = f_from fl (a + b)) \<and>
        f_min fl (f_from fl a) (f_from fl b) = f_from fl (min a b) \<and>
        f_max fl (f_from fl a) (f_from fl b) = f_from fl (max a b)) \<and>
     (\<forall>a. abs a \<le> 2 ^ 53 \<longrightarrow> f_min fl (f_infinity fl) (f_from fl a) = f_from fl a \<and>
        f_max fl (f_neg_infinity fl) (f_from fl a) = f_from fl a)"

lemma f64_exactD:
  assumes "f64_exact fl" "abs a \<le> 2 ^ 53"
  shows "f_zero fl = f_from fl 0"
    and "abs b \<le> 2 ^ 53 \<Longrightarrow> abs (a + b) \<le> 2 ^ 53 \<Longrightarrow> f_add fl (f_from fl a) (f_from fl b) = f_from fl (a + b)"
    and "abs b \<le> 2 ^ 53 \<Longrightarrow> f_min fl (f_from fl a) (f_from fl b) = f_from fl (min a b)"
    and "abs b \<le> 2 ^ 53 \<Longrightarrow> f_max fl (f_from fl a) (f_from fl b) = f_from fl (max a b)"
    and "f_min fl (f_infinity fl) (f_from fl a) = f_from fl a"
    and "f_max fl (f_neg_infinity fl) (f_from fl a) = f_from fl a"
  using assms unfolding f64_exact_def by simp_all

definition i32_list :: "int list \<Rightarrow> bool" where
  "i32_list vs = list_all (\<lambda>v. abs v \<le> 2 ^ 31) vs"

lemma foldl_f_add:
  assumes "f64_exact fl"
  shows "i32_list vs \<Longrightarrow> abs a + int (length vs) * 2 ^ 31 \<le> 2 ^ 53 \<Longrightarrow>
    foldl (f_add fl) (f_from fl a) (map (f_from fl) vs) = f_from fl (a + sum_list vs)"
proof (induction vs arbitrary: a)
  case (Cons v vs)
  have v: "abs v \<le> 2 ^ 31" "i32_list vs" using Cons.prems(1) by (simp_all add: i32_list_def)
  have len: "abs a + 2 ^ 31 + int (length vs) * 2 ^ 31 \<le> (2 :: int) ^ 53"
    using Cons.prems(2) by (simp add: distrib_right)
  have nn: "0 \<le> int (length vs) * 2 ^ 31" by simp
  have "f_add fl (f_from fl a) (f_from fl v) = f_from fl (a + v)"
    using v(1) len nn by (intro f64_exactD(2) [OF assms]) simp_all
  moreover have "abs (a + v) + int (length vs) * 2 ^ 31 \<le> 2 ^ 53" using v(1) len by linarith
  ultimately show ?case using Cons.IH [OF v(2)] by (simp add: add.assoc)
qed simp

lemma foldl_f_min_max:
  assumes "f64_exact fl" "abs a \<le> 2 ^ 31" "i32_list vs"
  shows "foldl (f_min fl) (f_from fl a) (map (f_from fl) vs) = f_from fl (Min (set (a # vs)))"
    and "foldl (f_max fl) (f_from fl a) (map (f_from fl) vs) = f_from fl (Max (set (a # vs)))"
  using assms(2,3)
proof (induction vs arbitrary: a)
  case (Cons v vs)
  {
    case 1
    then have v: "abs v \<le> 2 ^ 31" "i32_list vs" by (simp_all add: i32_list_def)
    have "f_min fl (f_from fl a) (f_from fl v) = f_from fl (min a v)"
      using v(1) 1(1) by (intro f64_exactD(3) [OF assms(1)]) simp_all
    moreover have "abs (min a v) \<le> 2 ^ 31" using v(1) 1(1) by (simp add: min_def)
    ultimately show ?case using Cons.IH(1) [of "min a v"] v(2)
      by (cases "vs = []") (simp_all add: min.assoc)
  next
    case 2
    then have v: "abs v \<le> 2 ^ 31" "i32_list vs" by (simp_all add: i32_list_def)
    have "f_max fl (f_from fl a) (f_from fl v) = f_from fl (max a v)"
      using v(1) 2(1) by (intro f64_exactD(4) [OF assms(1)]) simp_all
    moreover have "abs (max a v) \<le> 2 ^ 31" using v(1) 2(1) by (simp add: max_def)
    ultimately show ?case using Cons.IH(2) [of "max a v"] v(2)
      by (cases "vs = []") (simp_all add: max.assoc)
  }
qed simp_all

text \<open>
  C40. On \<open>i32\<close> values, at most 2^22 of them, the floating-point statistics of a field are exact:
  count, least, greatest and total are those of the integers, and the average is one division of
  the exact total.
\<close>

theorem numeric_stat_exact:
  assumes "f64_exact fl" and "i32_list vs" and "length vs \<le> 2 ^ 22"
  shows "numeric_stat fl field (map (f_from fl) vs) =
    (if vs = [] then \<lparr>nf_field = field, nf_count = 0, nf_minimum = None, nf_maximum = None,
       nf_average = None, nf_total = None\<rparr>
     else \<lparr>nf_field = field, nf_count = length vs, nf_minimum = Some (f_from fl (Min (set vs))),
       nf_maximum = Some (f_from fl (Max (set vs))),
       nf_average = Some (f_div fl (f_from fl (sum_list vs)) (f_from fl (int (length vs)))),
       nf_total = Some (f_from fl (sum_list vs))\<rparr>)"
proof (cases vs)
  case Nil
  then show ?thesis by (simp add: numeric_stat_def)
next
  case (Cons v ws)
  have "int (length vs) * 2 ^ 31 \<le> 2 ^ 22 * 2 ^ 31" using assms(3) by (intro mult_right_mono) simp_all
  then have total: "foldl (f_add fl) (f_zero fl) (map (f_from fl) vs) = f_from fl (sum_list vs)"
    using foldl_f_add [OF assms(1,2), of 0] f64_exactD(1) [OF assms(1), of 0] by simp
  have v: "abs v \<le> 2 ^ 31" "i32_list ws" using assms(2) Cons by (simp_all add: i32_list_def)
  have "f_min fl (f_infinity fl) (f_from fl v) = f_from fl v" "f_max fl (f_neg_infinity fl) (f_from fl v) = f_from fl v"
    using v(1) by (auto intro!: f64_exactD(5,6) [OF assms(1)])
  then show ?thesis
    using total foldl_f_min_max [OF assms(1) v] Cons by (simp add: numeric_stat_def Let_def)
qed

section \<open>Totals under concurrent requests\<close>

text \<open>The service passes counts on to the repository.\<close>

definition stats_over :: "('r, 'c, 'b, 'f, 'cat) stats_api \<Rightarrow>
    (filter_clause list \<Rightarrow> bool \<Rightarrow> bool \<Rightarrow> 'r \<Rightarrow> repo_error + nat) \<Rightarrow> bool" where
  "stats_over st count_rows \<longleftrightarrow>
     (\<forall>filters ia oa iu r. st_count st filters ia oa iu r = (count_rows filters ia oa r, r))"

lemma u64_sub: "(b :: nat) \<le> a \<Longrightarrow> a < 2 ^ 64 \<Longrightarrow> (a + 2 ^ 64 - b) mod 2 ^ 64 = a - b"
  by (simp add: mod_if)

lemma summary_counts:
  assumes "stats_over st count_rows"
    and "stats_summary crud st others include_archived bucket (c, r0) = (Inr s, w)"
  obtains lives alls where "count_rows [] False False (others 0 r0) = Inr lives"
    and "count_rows [] True False (others 1 (others 0 r0)) = Inr alls"
    and "su_total s = (if include_archived then alls else lives)"
    and "su_archived s = (alls + 2 ^ 64 - lives) mod 2 ^ 64"
  using assms
  by (auto simp: stats_summary_def awaited_def run_simps Let_def stats_over_def split: sum.splits prod.splits)

text \<open>The live and the archived records of a repository's rows.\<close>

definition live_ids :: "(int \<Rightarrow> hero option) \<Rightarrow> int set" where
  "live_ids rows = {i. \<exists>h. rows i = Some h \<and> live h}"

definition archived_ids :: "(int \<Rightarrow> hero option) \<Rightarrow> int set" where
  "archived_ids rows = {i. \<exists>h. rows i = Some h \<and> \<not> live h}"

lemma card_live_archived:
  assumes "finite (dom rows)"
  shows "card (dom rows) = card (live_ids rows) + card (archived_ids rows)"
proof -
  have "dom rows = live_ids rows \<union> archived_ids rows" and "live_ids rows \<inter> archived_ids rows = {}"
    by (auto simp: live_ids_def archived_ids_def)
  then show ?thesis using assms by (metis card_Un_disjoint finite_Un)
qed

text \<open>
  What a summary's totals are over a repository that counts, when \<open>meanwhile\<close> runs between its two
  counts: \<open>before\<close> and \<open>after\<close> are the rows each of them saw.
\<close>

definition totals_right :: "bool \<Rightarrow> (int \<Rightarrow> hero option) \<Rightarrow> (int \<Rightarrow> hero option) \<Rightarrow> ('f, 'cat) resource_stats \<Rightarrow> bool" where
  "totals_right include_archived before after s \<longleftrightarrow>
     su_archived s + card (live_ids before) = card (dom after) \<and>
     card (archived_ids before) \<le> su_archived s \<and>
     (before = after \<longrightarrow> su_archived s = card (archived_ids before)) \<and>
     su_total s = (if include_archived then card (dom after) else card (live_ids before))"

context counted_repository
begin

lemma summary_totals:
  assumes "stats_over st count_rows"
    and "stats_summary crud st others include_archived bucket (c, r0) = (Inr s, w)"
    and "others 0 r0 = r" "others 1 r = exec_cmds rp meanwhile r"
    and "inv r" "room_for meanwhile r"
    and "card (dom (rows (exec_cmds rp meanwhile r))) < 2 ^ 64"
  shows "totals_right include_archived (rows r) (rows (exec_cmds rp meanwhile r)) s"
proof -
  let ?r = "exec_cmds rp meanwhile r"
  have inv: "inv ?r" using assms(5) by (rule exec_cmds_inv)
  obtain lives alls where c: "count_rows [] False False r = Inr lives" "count_rows [] True False ?r = Inr alls"
      "su_total s = (if include_archived then alls else lives)" "su_archived s = (alls + 2 ^ 64 - lives) mod 2 ^ 64"
    using summary_counts [OF assms(1,2)] assms(3,4) by metis
  then have n: "lives = card (live_ids (rows r))" "alls = card (dom (rows ?r))"
    using count_live [OF assms(5)] count_all [OF inv] by (simp_all add: live_ids_def)
  have le: "lives \<le> alls"
    unfolding n using live_le_later [OF assms(5,6)] by (simp add: live_ids_def)
  have archived: "su_archived s = alls - lives"
    using c(4) u64_sub [OF le] assms(7) n(2) by simp
  have "dom (rows r) \<subseteq> dom (rows ?r)"
    using exec_cmds_row [OF assms(5,6)] by (auto simp: dom_def)
  then have "card (dom (rows r)) \<le> alls"
    unfolding n by (rule card_mono [OF rows_finite [OF inv]])
  then show ?thesis
    using c(3) archived le n card_live_archived [OF rows_finite [OF assms(5)]]
    by (auto simp: totals_right_def)
qed

end

text \<open>Over the in-memory repository, for as long as it has ids for the creations in between.\<close>

lemma memory_stats_totals:
  assumes "stats_over st mem_count" and "mem_ok (creations meanwhile) r"
    and "stats_summary crud st others include_archived bucket (c, r0) = (Inr s, w)"
    and "others 0 r0 = r" "others 1 r = exec_cmds memory_repository meanwhile r"
    and "card (dom (mem_rows (exec_cmds memory_repository meanwhile r))) < 2 ^ 64"
  shows "totals_right include_archived (mem_rows r) (mem_rows (exec_cmds memory_repository meanwhile r)) s"
  using mem_counts.summary_totals [OF assms(1,3-5) _ mem_room_for [OF assms(2)] assms(6)] assms(2)
  by (simp add: mem_ok_def)

context counting_engine
begin

lemma sea_totals:
  assumes "stats_over st (sea_count eng)"
    and "stats_summary crud st others include_archived bucket (c, d0) = (Inr s, w)"
    and "others 0 d0 = d" "others 1 d = exec_cmds (sea_repository eng) meanwhile d"
    and "card (dom (table (exec_cmds (sea_repository eng) meanwhile d))) < 2 ^ 64"
  shows "totals_right include_archived (table d) (table (exec_cmds (sea_repository eng) meanwhile d)) s"
  by (rule counted.summary_totals [OF assms(1-4) _ sea_room assms(5)]) simp

end

text \<open>
  C34. While \<open>/stats\<close> awaits its counts other requests run, so its two counts are of different states of
  the database. On Postgres, over an engine that runs the statements as SQL says, let any repository
  commands run between the two. Because records never disappear, the later count of all records is at
  least the earlier count of live ones: the \<open>u64\<close> subtraction behind \<open>archived\<close> never underflows. Its
  answer is what both counts say, at least the number of records that were archived at the first, and
  exactly that number when nothing changed in between.
\<close>

theorem stats_archived_no_underflow:
  assumes "counting_engine eng table holds" and "stats_over st (sea_count eng)"
    and "stats_summary crud st others include_archived bucket (c, d0) = (Inr s, w)"
    and "others 0 d0 = d" "others 1 d = exec_cmds (sea_repository eng) meanwhile d"
    and "card (dom (table (exec_cmds (sea_repository eng) meanwhile d))) < 2 ^ 64"
  shows "su_archived s + card (live_ids (table d)) = card (dom (table (exec_cmds (sea_repository eng) meanwhile d))) \<and>
    card (archived_ids (table d)) \<le> su_archived s \<and>
    (table d = table (exec_cmds (sea_repository eng) meanwhile d) \<longrightarrow> su_archived s = card (archived_ids (table d))) \<and>
    su_total s = (if include_archived then card (dom (table (exec_cmds (sea_repository eng) meanwhile d)))
                  else card (live_ids (table d)))"
  using counting_engine.sea_totals [OF assms] by (simp add: totals_right_def)

section \<open>The cache\<close>

text \<open>What the crate documents of \<open>CachedStats::get_or_build\<close> over a cache: look up, else build and store.\<close>

definition cached_stats_documented :: "('r, 'c, 'b, 'f, 'cat) stats_api \<Rightarrow> 'c cache_commands \<Rightarrow>
    redis_stats_cache \<Rightarrow> string \<Rightarrow> bool" where
  "cached_stats_documented st cc self resource \<longleftrightarrow>
     (\<forall>key build c r. st_get_or_build st key build (c, r) =
        (case stats_cache_get cc self resource key c of
           (Inl err, c1) \<Rightarrow> (Inl (CacheFailure err), (c1, r))
         | (Inr (Some hv), c1) \<Rightarrow> (Inr (hv, Hit), (c1, r))
         | (Inr None, c1) \<Rightarrow>
             (case build (c1, r) of
                (Inl err, w) \<Rightarrow> (Inl err, w)
              | (Inr hv, (c2, r2)) \<Rightarrow>
                  (case stats_cache_set cc self resource key hv c2 of
                     (Inl err, c3) \<Rightarrow> (Inl (CacheFailure err), (c3, r2))
                   | (Inr _, c3) \<Rightarrow> (Inr (hv, Missed), (c3, r2))))))"

lemma get_or_build_miss:
  assumes "cached_stats_documented st cc self resource"
    and "fst (stats_cache_get cc self resource key c) = Inr None"
    and "st_get_or_build st key build (c, r) = (Inr (hv, cache_state), w)"
  shows "cache_state = Missed \<and> (\<exists>c1 w1. build (c1, r) = (Inr hv, w1))"
  using assms
  by (cases "stats_cache_get cc self resource key c")
    (auto simp: cached_stats_documented_def split: prod.splits sum.splits option.splits)

lemma get_or_build_builds:
  assumes "cached_stats_documented st cc self resource"
    and "stats_cache_get cc self resource key c = (Inr None, c1)" and "build (c1, r) = (Inr hv, (c2, r2))"
  shows "\<exists>c3. st_get_or_build st key build (c, r) = (Inr (hv, Missed), (c3, r2))"
proof -
  obtain c3 where "stats_cache_set cc self resource key hv c2 = (Inr (), c3)"
    using cache_never_fails(2) [of cc self resource key hv c2] by blast
  with assms show ?thesis by (simp add: cached_stats_documented_def)
qed

lemma cached_json_Inr:
  assumes "cached_json st kind schema params build w = (Inr resp, w')"
  obtains body cache_state where
    "st_get_or_build st (st_cache_key st kind schema params) build w = (Inr (body, cache_state), w')"
    "r_body resp = JsonBody body"
    "cache_state \<noteq> Bypass \<Longrightarrow> header_of resp STATS_CACHE_HEADER = Some (st_state_str st cache_state)"
  using assms
  by (cases "st_get_or_build st (st_cache_key st kind schema params) build w")
    (auto simp: cached_json_def run_simps Let_def json_response_def split: sum.splits if_splits prod.splits)

text \<open>
  C35. Once a process of any version has invalidated \<open>heroes\<close>, the next \<open>/stats\<close> of this one is
  not served from the cache: the answer says so, and its body is the summary of the repository
  as that request found it.
\<close>

theorem stats_fresh_after_invalidation:
  assumes "redis_store_documented cc gm store due todo" and "glob_documented gm"
    and "list_all (\<lambda>c. \<not> glob_special c) (sc_prefix self)"
    and "cached_stats_documented st cc self HERO_EVENT_RESOURCE"
    and "try_invalidate cc (self\<lparr>sc_version := other\<rparr>) HERO_EVENT_RESOURCE s0 = Some (Inr (), s)"
    and "get_stats state st others claims query_bucket params (s, r) = (Inr resp, w)"
  shows "header_of resp STATS_CACHE_HEADER = Some (st_state_str st Missed) \<and>
    (\<exists>include_archived bucket c1 w1 stats body.
       stats_summary (as_crud state) st others include_archived bucket (c1, r) = (Inr stats, w1) \<and>
       st_stats_value st stats = Inr body \<and> r_body resp = JsonBody body)"
proof -
  have miss: "fst (stats_cache_get cc self HERO_EVENT_RESOURCE key s) = Inr None" for key
    using invalidated_get_misses [OF assms(1,2) _ assms(5), where version = "sc_version self"] assms(3) by simp
  obtain include_archived bucket ps where run: "cached_json st ''stats'' ''ResourceStats'' ps
      (and_then (stats_summary (as_crud state) st others include_archived bucket)
        (\<lambda>stats. lift (to_value (st_stats_value st) stats))) (s, r) = (Inr resp, w)"
    using assms(6) by (auto simp: get_stats_def run_simps Let_def split: sum.splits)
  obtain body cache_state where b: "st_get_or_build st (st_cache_key st ''stats'' ''ResourceStats'' ps)
        (and_then (stats_summary (as_crud state) st others include_archived bucket)
          (\<lambda>stats. lift (to_value (st_stats_value st) stats))) (s, r) = (Inr (body, cache_state), w)"
      "r_body resp = JsonBody body"
      "cache_state \<noteq> Bypass \<Longrightarrow> header_of resp STATS_CACHE_HEADER = Some (st_state_str st cache_state)"
    using cached_json_Inr [OF run] by blast
  from get_or_build_miss [OF assms(4) miss b(1)] obtain c1 w1 where m: "cache_state = Missed"
      "and_then (stats_summary (as_crud state) st others include_archived bucket)
        (\<lambda>stats. lift (to_value (st_stats_value st) stats)) (c1, r) = (Inr body, w1)" by blast
  obtain stats where "stats_summary (as_crud state) st others include_archived bucket (c1, r) = (Inr stats, w1)"
      "st_stats_value st stats = Inr body"
    using m(2) by (auto simp: run_simps to_value_def split: sum.splits prod.splits)
  then show ?thesis using b m(1) by (intro conjI exI) (assumption | simp)+
qed

section \<open>Witnesses\<close>

text \<open>\<open>f64\<close> on integers, far from its limits.\<close>

definition sample_f64 :: "int f64_api" where
  "sample_f64 = \<lparr>f_from = (\<lambda>i. i), f_add = (+), f_min = min, f_max = max, f_div = (div), f_zero = 0,
     f_infinity = 2 ^ 60, f_neg_infinity = - (2 ^ 60)\<rparr>"

lemma sample_f64_exact: "f64_exact sample_f64"
  by (auto simp: f64_exact_def sample_f64_def)

definition sample_stats_of :: "(filter_clause list \<Rightarrow> bool \<Rightarrow> bool \<Rightarrow> 'r \<Rightarrow> repo_error + nat) \<Rightarrow>
    ('r, (string \<times> string) list, unit, int, unit) stats_api" where
  "sample_stats_of count_rows =
     \<lparr>st_f64 = sample_f64, st_count = (\<lambda>fs ia oa iu r. (count_rows fs ia oa r, r)),
      st_parse_bucket = (\<lambda>b. Inr (map_option (\<lambda>_. ()) b)),
      st_parse_predict_field = (\<lambda>specs f. Inr f), st_parse_periods = (\<lambda>p. Inr 1),
      st_bucket_str = (\<lambda>_. ''day''), st_day = (), st_bucket_start = (\<lambda>_ t. t div 86400),
      st_numeric_fields = (\<lambda>specs. [''id'', ''power_level'']), st_categorical_fields = (\<lambda>specs. []),
      st_categorical_counts = (\<lambda>hs fs f. ()),
      st_forecast = (\<lambda>series periods b. if length series < 2 then Inl (length series) else Inr series),
      st_max_history = 10000, st_cache_key = (\<lambda>kind schema params. kind),
      st_stats_value = (\<lambda>s. Inr (JInt (int (su_total s)))), st_prediction_value = (\<lambda>p. Inr JNull),
      st_cache_error = CrudInternal, st_state_str = (\<lambda>s. case s of Hit \<Rightarrow> ''hit'' | Missed \<Rightarrow> ''miss'' | Bypass \<Rightarrow> ''bypass''),
      st_get_or_build = (\<lambda>key build (c, r).
        case stats_cache_get sample_cache_commands (cache_connect 60 ''v1'') HERO_EVENT_RESOURCE key c of
          (Inl err, c1) \<Rightarrow> (Inl (CacheFailure err), (c1, r))
        | (Inr (Some hv), c1) \<Rightarrow> (Inr (hv, Hit), (c1, r))
        | (Inr None, c1) \<Rightarrow>
            (case build (c1, r) of
               (Inl err, w) \<Rightarrow> (Inl err, w)
             | (Inr hv, (c2, r2)) \<Rightarrow>
                 (case stats_cache_set sample_cache_commands (cache_connect 60 ''v1'') HERO_EVENT_RESOURCE key hv c2 of
                    (Inl err, c3) \<Rightarrow> (Inl (CacheFailure err), (c3, r2))
                  | (Inr _, c3) \<Rightarrow> (Inr (hv, Missed), (c3, r2)))))\<rparr>"

abbreviation sample_stats :: "(hero_memory, (string \<times> string) list, unit, int, unit) stats_api" where
  "sample_stats \<equiv> sample_stats_of mem_count"

lemma sample_stats_documented:
  "cached_stats_documented sample_stats sample_cache_commands (cache_connect 60 ''v1'') HERO_EVENT_RESOURCE"
  by (simp add: cached_stats_documented_def sample_stats_of_def)

lemma sample_stats_over: "stats_over (sample_stats_of count_rows) count_rows"
  by (simp add: stats_over_def sample_stats_of_def)

theorem numeric_stat_exact_witness:
  "numeric_stat sample_f64 ''power_level'' [7, -3, 5] =
     \<lparr>nf_field = ''power_level'', nf_count = 3, nf_minimum = Some (-3), nf_maximum = Some 7,
      nf_average = Some 3, nf_total = Some 9\<rparr>"
proof -
  have "i32_list [7, -3, 5]" by (simp add: i32_list_def)
  from numeric_stat_exact [OF sample_f64_exact this, of "''power_level''"] show ?thesis
    by (simp add: sample_f64_def)
qed

definition sample_meanwhile :: "(clock \<times> repo_cmd) list" where
  "sample_meanwhile = [(\<lambda>n. 40, CmdDelete 1 ''alice'')]"

lemma sample_meanwhile_run:
  "exec_cmds (sea_repository ref_engine) sample_meanwhile sample_db =
     sample_db\<lparr>ref_rows := [(1, (sample_hero 1 ''Spectra'' ''alice'' None)
        \<lparr>h_archived_at := Some 40, h_updated_at := 40\<rparr>), (2, sample_hero 2 ''Vapor'' ''bob'' (Some 20))]\<rparr>"
  by (simp add: sample_meanwhile_def sea_repository_def sample_db_delete)

lemma sample_valid:
  "ref_valid sample_db" "ref_valid (exec_cmds (sea_repository ref_engine) sample_meanwhile sample_db)"
  by (simp_all add: sample_meanwhile_run ref_valid_def bt_sorted_def)
    (simp_all add: sample_db_def sample_repo_def sample_hero_def bt_sorted_def)

lemma sample_meanwhile_rows:
  "dom (ref_table (exec_cmds (sea_repository ref_engine) sample_meanwhile sample_db)) = {1, 2}"
  "live_ids (ref_table sample_db) = {1}"
proof -
  show "dom (ref_table (exec_cmds (sea_repository ref_engine) sample_meanwhile sample_db)) = {1, 2}"
    using sample_valid(2) unfolding sample_meanwhile_run by (auto simp: dom_def ref_table_def split: if_splits)
  show "live_ids (ref_table sample_db) = {1}"
    using sample_valid(1)
    by (auto simp: live_ids_def live_def ref_table_def sample_db_def sample_repo_def sample_hero_def split: if_splits)
qed

lemma ref_engine_reads:
  "db_count ref_engine query d = (if ref_valid d then Inr (length (ref_select query d)) else Inl ''corrupt table'')"
  "db_all ref_engine query d = Inr (ref_select query d)"
  by (simp_all add: ref_engine_def)

lemma sample_db_summary:
  "\<exists>s w. stats_summary (crud_over (sea_repository ref_engine) (sea_get ref_engine) (sea_list ref_engine))
     (sample_stats_of (sea_count ref_engine)) (\<lambda>n. if n = 1 then exec_cmds (sea_repository ref_engine) sample_meanwhile
       else (\<lambda>d. d)) True None ([], sample_db) = (Inr s, w)"
  by (simp add: stats_summary_def awaited_def run_simps Let_def sample_stats_of_def crud_over_def sea_count_def
      sea_list_def ref_engine_reads map_err_def sample_valid)

theorem stats_archived_no_underflow_witness:
  "\<exists>s w. stats_summary (crud_over (sea_repository ref_engine) (sea_get ref_engine) (sea_list ref_engine))
     (sample_stats_of (sea_count ref_engine)) (\<lambda>n. if n = 1 then exec_cmds (sea_repository ref_engine) sample_meanwhile
       else (\<lambda>d. d)) True None ([], sample_db) = (Inr s, w) \<and> su_total s = 2 \<and> su_archived s = 1"
proof -
  let ?others = "\<lambda>n :: nat. if n = 1 then exec_cmds (sea_repository ref_engine) sample_meanwhile else (\<lambda>d. d)"
  obtain s w where run: "stats_summary (crud_over (sea_repository ref_engine) (sea_get ref_engine) (sea_list ref_engine))
      (sample_stats_of (sea_count ref_engine)) ?others True None ([], sample_db) = (Inr s, w)"
    using sample_db_summary by blast
  from stats_archived_no_underflow [OF ref_counts.counting_engine_axioms sample_stats_over run,
      of sample_db sample_meanwhile] run
  show ?thesis by (auto simp: sample_meanwhile_rows)
qed

lemma sample_summary:
  "\<exists>s w. stats_summary sample_crud sample_stats others ia bucket (c, r) = (Inr s, w)"
  by (auto simp: stats_summary_def awaited_def run_simps Let_def sample_stats_of_def sample_crud_eq
      mem_count_def mem_list_def)

lemma sample_invalidates: "\<exists>s. try_invalidate sample_cache_commands self resource s0 = Some (Inr (), s)"
  unfolding try_invalidate_def
  by (subst scan_loop.simps) (simp add: sample_cache_commands_def)

lemma sample_get_stats:
  assumes "stats_cache_get sample_cache_commands (cache_connect 60 ''v1'') HERO_EVENT_RESOURCE ''stats'' s =
    (Inr None, c1)"
  shows "\<exists>resp w. get_stats sample_state sample_stats (\<lambda>n r. r) (sample_claims ''alice'' ''viewer'') None []
    (s, sample_repo) = (Inr resp, w)"
proof -
  let ?build = "and_then (stats_summary sample_crud sample_stats (\<lambda>n r. r) False None)
    (\<lambda>stats. lift (to_value (st_stats_value sample_stats) stats))"
  obtain st c2 r2 where "stats_summary sample_crud sample_stats (\<lambda>n r. r) False None (c1, sample_repo) =
      (Inr st, (c2, r2))"
    using sample_summary by (metis surj_pair)
  then have "?build (c1, sample_repo) = (Inr (JInt (int (su_total st))), (c2, r2))"
    by (simp add: run_simps to_value_def) (simp add: sample_stats_of_def)
  note got = get_or_build_builds [OF sample_stats_documented assms, where build = ?build, OF this]
  have parse: "st_parse_bucket sample_stats None = Inr None"
    "\<And>k sc ps. st_cache_key sample_stats k sc ps = k"
    "ca_reject_only_archived sample_crud [] = Inr ()" "ca_parse_include_archived sample_crud [] = Inr False"
    by (simp_all add: sample_stats_of_def sample_crud_eq param_flag_def)
  have role: "require_any_role (sample_claims ''alice'' ''viewer'') ''api'' HERO_READ_ROLES = Inr ()"
    by (simp add: require_any_role_iff sample_claims_roles HERO_READ_ROLES_def)
  show ?thesis using got by (auto simp: get_stats_def run_simps Let_def role cached_json_def parse)
qed

theorem stats_fresh_after_invalidation_witness:
  "\<exists>s resp w. try_invalidate sample_cache_commands (cache_connect 60 ''v2'') HERO_EVENT_RESOURCE
       [(''stats-cache:v1:heroes:stats'', ''json'')] = Some (Inr (), s) \<and>
     get_stats sample_state sample_stats (\<lambda>n r. r) (sample_claims ''alice'' ''viewer'') None [] (s, sample_repo) =
       (Inr resp, w) \<and>
     header_of resp STATS_CACHE_HEADER = Some ''miss''"
proof -
  let ?other = "(cache_connect 60 ''v1'')\<lparr>sc_version := ''v2''\<rparr>"
  have lit: "list_all (\<lambda>c. \<not> glob_special c) (sc_prefix (cache_connect 60 ''v1''))"
    by (simp add: cache_connect_def connect_with_prefix_def KEY_PREFIX_def glob_special_def)
  obtain s where inv: "try_invalidate sample_cache_commands ?other HERO_EVENT_RESOURCE
      [(''stats-cache:v1:heroes:stats'', ''json'')] = Some (Inr (), s)"
    using sample_invalidates by blast
  have miss: "fst (stats_cache_get sample_cache_commands ((cache_connect 60 ''v1'')\<lparr>sc_version := ''v1''\<rparr>)
      HERO_EVENT_RESOURCE key s) = Inr None" for key
    using invalidated_get_misses [OF sample_store_documented sample_glob_documented _ inv] lit by simp
  have "(cache_connect 60 ''v1'')\<lparr>sc_version := ''v1''\<rparr> = cache_connect 60 ''v1''"
    by (simp add: cache_connect_def connect_with_prefix_def)
  then have m: "\<exists>c1. stats_cache_get sample_cache_commands (cache_connect 60 ''v1'') HERO_EVENT_RESOURCE key s = (Inr None, c1)"
    for key using miss [of key] by (metis eq_fst_iff)
  obtain c1 where "stats_cache_get sample_cache_commands (cache_connect 60 ''v1'') HERO_EVENT_RESOURCE ''stats'' s =
      (Inr None, c1)" using m by blast
  then obtain resp w where get: "get_stats sample_state sample_stats (\<lambda>n r. r) (sample_claims ''alice'' ''viewer'')
      None [] (s, sample_repo) = (Inr resp, w)"
    using sample_get_stats by blast
  have "cache_connect 60 ''v2'' = ?other" by (simp add: cache_connect_def connect_with_prefix_def)
  then show ?thesis
    using stats_fresh_after_invalidation [OF sample_store_documented sample_glob_documented lit
        sample_stats_documented inv get] inv get
    by (auto simp: sample_stats_of_def)
qed

end
