(* ===== verification/Db.thy ===== *)
theory Db
  imports Config
begin

text \<open>
  \<open>src/db.rs\<close>: the Postgres pool options built from the settings. \<open>connect_opts\<close> holds what the
  source sets on sea-orm's \<open>ConnectOptions\<close>; a field left \<^const>\<open>None\<close> keeps the library's own
  default. \<open>pg_options\<close> is the part of sqlx's \<open>PgConnectOptions\<close> the source writes.
\<close>

datatype pg_ssl_mode = PgDisable | PgAllow | PgPrefer | PgRequire | PgVerifyCa | PgVerifyFull

fun sqlx_ssl_mode :: "ssl_mode \<Rightarrow> pg_ssl_mode" where
  "sqlx_ssl_mode Disable = PgDisable"
| "sqlx_ssl_mode Allow = PgAllow"
| "sqlx_ssl_mode Prefer = PgPrefer"
| "sqlx_ssl_mode Require = PgRequire"
| "sqlx_ssl_mode VerifyCa = PgVerifyCa"
| "sqlx_ssl_mode VerifyFull = PgVerifyFull"

record pg_options =
  pg_ssl :: pg_ssl_mode

definition apply_pg_options :: "pg_options \<Rightarrow> ssl_mode option \<Rightarrow> pg_options" where
  "apply_pg_options options mode_opt =
     (case mode_opt of Some mode \<Rightarrow> options\<lparr>pg_ssl := sqlx_ssl_mode mode\<rparr> | None \<Rightarrow> options)"

record connect_opts =
  co_url :: string
  co_max_connections :: "nat option"
  co_min_connections :: "nat option"
  co_max_lifetime :: "nat option"
  co_idle_timeout :: "nat option"
  co_connect_timeout :: "nat option"
  co_sqlx_logging :: bool
  co_pg_opts :: "pg_options \<Rightarrow> pg_options"

text \<open>\<open>ConnectOptions::new\<close>: nothing set, statement logging on.\<close>

definition connect_options_new :: "string \<Rightarrow> connect_opts" where
  "connect_options_new url =
     \<lparr>co_url = url, co_max_connections = None, co_min_connections = None, co_max_lifetime = None,
      co_idle_timeout = None, co_connect_timeout = None, co_sqlx_logging = True,
      co_pg_opts = (\<lambda>pg. pg)\<rparr>"

definition if_some :: "'a option \<Rightarrow> ('a \<Rightarrow> 's \<Rightarrow> 's) \<Rightarrow> 's \<Rightarrow> 's" where
  "if_some v f s = (case v of Some x \<Rightarrow> f x s | None \<Rightarrow> s)"

definition connect_options :: "env \<Rightarrow> settings \<Rightarrow> connect_opts" where
  "connect_options env settings =
     (let dbs = db settings;
          options = connect_options_new (database_url env settings);
          options = if_some (pool_size dbs) (\<lambda>size o1. o1\<lparr>co_max_connections := Some size\<rparr>) options;
          options = if_some (pool_min_size dbs) (\<lambda>size o1. o1\<lparr>co_min_connections := Some size\<rparr>) options;
          options = if_some (pool_recycle dbs) (\<lambda>recycle o1. o1\<lparr>co_max_lifetime := Some recycle\<rparr>) options;
          options = if_some (pool_idle_timeout dbs) (\<lambda>idle o1. o1\<lparr>co_idle_timeout := Some idle\<rparr>) options;
          options = if_some (connect_timeout dbs) (\<lambda>acquire o1. o1\<lparr>co_connect_timeout := Some acquire\<rparr>) options;
          options = options\<lparr>co_sqlx_logging := False\<rparr>;
          ssl = sslmode dbs
      in options\<lparr>co_pg_opts := (\<lambda>pg. apply_pg_options pg ssl)\<rparr>)"

lemma connect_options_sel:
  "connect_options env s =
     \<lparr>co_url = database_url env s, co_max_connections = pool_size (db s),
      co_min_connections = pool_min_size (db s), co_max_lifetime = pool_recycle (db s),
      co_idle_timeout = pool_idle_timeout (db s), co_connect_timeout = connect_timeout (db s),
      co_sqlx_logging = False, co_pg_opts = (\<lambda>pg. apply_pg_options pg (sslmode (db s)))\<rparr>"
  by (cases "pool_size (db s)"; cases "pool_min_size (db s)"; cases "pool_recycle (db s)";
      cases "pool_idle_timeout (db s)"; cases "connect_timeout (db s)")
    (simp_all add: connect_options_def Let_def if_some_def connect_options_new_def)

lemma env_positive_Some:
  "env_positive env key = Inr (Some n) \<Longrightarrow> 1 \<le> n \<and> n \<le> 2 ^ 32 - 1"
  by (auto simp: env_positive_def Let_def parse_u32_def dest: parse_unsigned_bound
      split: option.splits if_splits)

lemma env_seconds_positive: "env_seconds env key = env_positive env key"
  by (simp add: env_seconds_def and_then_r_def option.map_ident split: sum.splits)

lemma db_from_env_Inr:
  assumes "db_from_env env = Inr d"
  shows "env_positive env ''DB_POOL_SIZE'' = Inr (pool_size d)"
    and "env_positive env ''DB_POOL_MIN_SIZE'' = Inr (pool_min_size d)"
    and "env_positive env ''DB_CONNECT_TIMEOUT'' = Inr (connect_timeout d)"
    and "pool_min_size d = Some lo \<Longrightarrow> pool_size d = Some hi \<Longrightarrow> lo \<le> hi"
  using assms
  by (auto simp: db_from_env_def and_then_r_Inr env_seconds_positive split: if_splits)

text \<open>
  The pool a started process opens has at least one and at most \<open>u32::MAX\<close> connections when
  sized at all, never a minimum above its maximum, a positive acquire timeout, no per-statement
  log, and an explicit \<open>POSTGRES_SSLMODE\<close> wins over whatever the URL says.
\<close>

theorem pool_options_consistent:
  assumes "settings_from_env crates env now = Inr s"
  shows "(case co_max_connections (connect_options env s) of
            Some hi \<Rightarrow> 1 \<le> hi \<and> hi \<le> 2 ^ 32 - 1 \<and>
              (case co_min_connections (connect_options env s) of Some lo \<Rightarrow> 1 \<le> lo \<and> lo \<le> hi | None \<Rightarrow> True)
          | None \<Rightarrow> True) \<and>
     (case co_connect_timeout (connect_options env s) of Some t \<Rightarrow> 1 \<le> t | None \<Rightarrow> True) \<and>
     \<not> co_sqlx_logging (connect_options env s) \<and>
     (case sslmode (db s) of
        Some m \<Rightarrow> pg_ssl (co_pg_opts (connect_options env s) pg) = sqlx_ssl_mode m
      | None \<Rightarrow> co_pg_opts (connect_options env s) pg = pg)"
proof -
  obtain d where d: "db_from_env env = Inr d" "db s = d"
    using assms by (auto simp: settings_from_env_Inr)
  note db = db_from_env_Inr [OF d(1)]
  show ?thesis
    using db env_positive_Some [of env "''DB_POOL_SIZE''"] env_positive_Some [of env "''DB_POOL_MIN_SIZE''"]
      env_positive_Some [of env "''DB_CONNECT_TIMEOUT''"]
    by (auto simp: connect_options_sel d(2) apply_pg_options_def split: option.splits)
qed

theorem pool_options_consistent_witness:
  "\<exists>s. settings_from_env sample_config_crates sample_production_env 0 = Inr s \<and>
     \<not> co_sqlx_logging (connect_options sample_production_env s)"
  using starts_inD [OF starts_in_production] pool_options_consistent by blast

end
