(* ===== verification/Wiring.thy ===== *)
theory Wiring
  imports Generic_Controllers Heroes_Web Hero_Stats Db Hero_Sea_Orm "HOL-Library.Sublist"
begin

text \<open>
  \<open>src/lib.rs\<close> and the order of \<open>src/main.rs\<close>: which infrastructure a mode gets, what a start checks
  and where it may still panic, the routers and layers of the application, and how a process leaves:
  the race of the server with the shutdown timeout and the awaits after it. Connecting, listening
  and exporting are I/O: what is modelled of them is which are made, with what, and what the code does
  with their outcome. A panic is a branch of the result (\<open>Panic\<close>), \<open>exit(1)\<close> another.
\<close>

section \<open>Infrastructure by mode\<close>

datatype health_check =
    MockHealthCheck string
  | DatabaseHealthCheck
  | RedisHealthCheck string
  | S3HealthCheck string string string
  | HttpHealthCheck string string

datatype 'a started = Running 'a | Panic string | Exit1 string

definition started_bind :: "'a started \<Rightarrow> ('a \<Rightarrow> 'b started) \<Rightarrow> 'b started" where
  "started_bind m f = (case m of Running x \<Rightarrow> f x | Panic e \<Rightarrow> Panic e | Exit1 e \<Rightarrow> Exit1 e)"

fun or_panic :: "string + 'a \<Rightarrow> 'a started" where
  "or_panic (Inr x) = Running x"
| "or_panic (Inl err) = Panic (''invalid configuration: '' @ err)"

fun or_exit :: "string + 'a \<Rightarrow> 'a started" where
  "or_exit (Inr x) = Running x"
| "or_exit (Inl err) = Exit1 (''invalid configuration: '' @ err)"

definition resource_server_of :: "config_crates \<Rightarrow> env \<Rightarrow> int \<Rightarrow> settings \<Rightarrow> resource_server started" where
  "resource_server_of crates env now settings = or_panic (resource_server_from_env crates env settings now)"

text \<open>
  What the start asks of code outside the repository, as \<open>Result\<close>s: installing the telemetry
  subscriber (\<open>None\<close> is success) and, after a failed exporter, the subscriber without export; opening a
  connection, which is a function of what it connects to; migrating; binding the port and reading the
  bound address.
\<close>

datatype telemetry_error = ExporterBuild string | OtherTelemetryError string

record connections =
  cn_telemetry :: "telemetry_error option"
  cn_telemetry_without_export :: bool
  cn_postgres :: "settings \<Rightarrow> bool"
  cn_migrate :: bool
  cn_redis :: "string \<Rightarrow> bool"
  cn_bind :: "string \<Rightarrow> bool"
  cn_local_addr :: bool

text \<open>The panic's message without the error that \<open>expect\<close> appends.\<close>

fun expect :: "string \<Rightarrow> bool \<Rightarrow> unit started" where
  "expect message True = Running ()"
| "expect message False = Panic message"

fun init_logging :: "telemetry_error option \<Rightarrow> bool \<Rightarrow> unit started" where
  "init_logging None without_export = Running ()"
| "init_logging (Some (ExporterBuild reason)) without_export =
     expect ''no subscriber is installed after a failed exporter build'' without_export"
| "init_logging (Some (OtherTelemetryError err)) without_export = Panic (''failed to install logging: '' @ err)"

text \<open>\<open>pool\<close> is whether a pool is passed.\<close>

definition build_health_registry :: "config_crates \<Rightarrow> env \<Rightarrow> int \<Rightarrow> settings \<Rightarrow> bool \<Rightarrow> health_check list started" where
  "build_health_registry crates env now settings pool =
     (if mode_of settings = MockMode
      then Running (map MockHealthCheck [''database'', ''redis'', ''s3'', ''oidc''])
      else
        started_bind (expect ''a real database connection is required outside Mode::Mock'' pool) (\<lambda>_.
        started_bind (resource_server_of crates env now settings) (\<lambda>resource.
        Running [DatabaseHealthCheck, RedisHealthCheck (redis_url settings),
          S3HealthCheck (s3_endpoint_url settings) (s3_access_key settings) (s3_secret_key settings),
          HttpHealthCheck ''oidc'' (rs_discovery_url resource)])))"

datatype event_bus = MockBus | MqttBus string nat

definition build_event_bus :: "settings \<Rightarrow> string option \<Rightarrow> event_bus \<times> string option" where
  "build_event_bus settings secret =
     (if mode_of settings = MockMode then MockBus else MqttBus (mqtt_host settings) (mqtt_port settings),
      secret)"

text \<open>Whether a pool is opened, and whether it is migrated first.\<close>

definition run_migrations :: "connections \<Rightarrow> unit started" where
  "run_migrations cn = expect ''failed to apply pending migrations'' (cn_migrate cn)"

definition connect_database :: "connections \<Rightarrow> settings \<Rightarrow> bool started" where
  "connect_database cn settings =
     (if mode_of settings = MockMode then Running False
      else
        started_bind (expect ''failed to connect to Postgres'' (cn_postgres cn settings)) (\<lambda>_.
        started_bind (if run_migrations_on_startup (db settings) then run_migrations cn else Running ()) (\<lambda>_.
        Running True)))"

datatype repository_kind = MemoryRepository | SeaOrmRepository
datatype limiter_kind = MockLimiter | RedisLimiter string

record app_wiring =
  aw_repository :: repository_kind
  aw_health :: "health_check list"
  aw_limiter :: limiter_kind
  aw_stats :: "stats_cache_kind option"
  aw_events :: "event_bus \<times> string option"
  aw_oidc :: oidc_verifier

text \<open>
  The clock is read where \<open>security.txt\<close> is: by the health registry at \<open>t1\<close> and for the verifier
  at \<open>t2\<close>.
\<close>

definition build_state_with_db :: "config_crates \<Rightarrow> env \<Rightarrow> connections \<Rightarrow> int \<Rightarrow> int \<Rightarrow> settings \<Rightarrow> bool \<Rightarrow> app_wiring started" where
  "build_state_with_db crates env cn t1 t2 settings pool =
     started_bind (expect ''a database handle is required exactly outside Mode::Mock''
       (pool = (mode_of settings \<noteq> MockMode))) (\<lambda>_.
     let hero_repository = (if pool then SeaOrmRepository else MemoryRepository) in
     started_bind (build_health_registry crates env t1 settings pool) (\<lambda>health_registry.
     started_bind (if mode_of settings = MockMode then Running MockLimiter
       else started_bind (expect ''failed to connect to Redis for rate limiting'' (cn_redis cn (redis_url settings)))
         (\<lambda>_. Running (RedisLimiter (redis_url settings)))) (\<lambda>rate_limiter.
     started_bind (or_panic (stats_cache_ttl env)) (\<lambda>stats_ttl.
     let hero_stats = build_stats_cache env (mode_of settings) stats_ttl in
     started_bind (case hero_stats of
         Some (RedisCache _) \<Rightarrow> expect ''failed to connect to Redis for the stats cache'' (cn_redis cn (redis_url settings))
       | _ \<Rightarrow> Running ()) (\<lambda>_.
     started_bind (or_panic (subscriber_secret env (mode_of settings))) (\<lambda>secret.
     started_bind (resource_server_of crates env t2 settings) (\<lambda>resource.
     Running \<lparr>aw_repository = hero_repository, aw_health = health_registry, aw_limiter = rate_limiter,
       aw_stats = hero_stats, aw_events = build_event_bus settings secret,
       aw_oidc = with_resource_server settings resource\<rparr>)))))))"

section \<open>Start\<close>

text \<open>
  \<open>main\<close> until it serves: logging, the checks that exit 1, the pool, the state, whether the
  invalidation task runs (\<open>spawn_stats_cache_invalidation\<close>), and the port. It starts at \<open>now\<close>; the
  state is built later, after the pool was opened and migrated.
\<close>

record process =
  ps_settings :: settings
  ps_wiring :: app_wiring
  ps_shutdown_timeout :: "nat option"
  ps_invalidation :: bool
  ps_pool :: bool

definition spawn_stats_cache_invalidation :: "bool \<Rightarrow> unit option" where
  "spawn_stats_cache_invalidation enabled = (if enabled then Some () else None)"

definition main :: "config_crates \<Rightarrow> env \<Rightarrow> connections \<Rightarrow> int \<Rightarrow> int \<Rightarrow> int \<Rightarrow> process started" where
  "main crates env cn now t1 t2 =
     started_bind (init_logging (cn_telemetry cn) (cn_telemetry_without_export cn)) (\<lambda>_.
     started_bind (or_exit (settings_from_env crates env now)) (\<lambda>settings.
     started_bind (or_exit (graceful_shutdown_timeout env)) (\<lambda>shutdown_timeout.
     started_bind (or_exit (subscriber_secret env (mode_of settings))) (\<lambda>_.
     started_bind (or_exit (stats_cache_ttl env)) (\<lambda>stats_ttl.
     let stats_cache_enabled = (stats_ttl \<noteq> None) in
     started_bind (connect_database cn settings) (\<lambda>pool.
     started_bind (build_state_with_db crates env cn t1 t2 settings pool) (\<lambda>state.
     let invalidation = spawn_stats_cache_invalidation stats_cache_enabled in
     started_bind (expect ''failed to bind 0.0.0.0:8000'' (cn_bind cn ''0.0.0.0:8000'')) (\<lambda>_.
     started_bind (expect ''called `Result::unwrap()` on an `Err` value'' (cn_local_addr cn)) (\<lambda>_.
     Running \<lparr>ps_settings = settings, ps_wiring = state, ps_shutdown_timeout = shutdown_timeout,
       ps_invalidation = (invalidation \<noteq> None), ps_pool = pool\<rparr>)))))))))"

section \<open>Shutdown\<close>

text \<open>
  A future is when it completes and with what, or \<open>None\<close> when it never does. \<open>select\<close> is \<open>select!\<close> over
  two of them: the earlier one decides, and of two that are ready at once \<open>tokio\<close> picks one, which the
  flag stands for.
\<close>

type_synonym 'a future = "(nat \<times> 'a) option"

fun select :: "bool \<Rightarrow> 'a future \<Rightarrow> 'a future \<Rightarrow> 'a future" where
  "select first None right = right"
| "select first left None = left"
| "select first (Some (t, x)) (Some (u, y)) =
     (if t < u \<or> (t = u \<and> first) then Some (t, x) else Some (u, y))"

text \<open>Ctrl-C or \<open>SIGTERM\<close>, whichever comes first; that their handlers could be installed is taken as given.\<close>

definition shutdown_signal :: "bool \<Rightarrow> unit future \<Rightarrow> unit future \<Rightarrow> unit future" where
  "shutdown_signal first ctrl_c terminate = select first ctrl_c terminate"

text \<open>
  The \<open>select!\<close> around the server. \<open>server\<close> is the server's future given when the token that makes it
  drain is cancelled, \<open>signal\<close> the signal's. The branch beside it waits for the signal, cancels the
  token and sleeps the timeout, or is pending when none is set.
\<close>

definition timeout_branch :: "unit future \<Rightarrow> nat option \<Rightarrow> bool future" where
  "timeout_branch signal shutdown_timeout =
     (case signal of
        None \<Rightarrow> None
      | Some (at, _) \<Rightarrow> map_option (\<lambda>limit. (at + limit, True)) shutdown_timeout)"

definition serve_until_shutdown :: "bool \<Rightarrow> (nat option \<Rightarrow> bool future) \<Rightarrow> unit future \<Rightarrow> nat option \<Rightarrow> bool future" where
  "serve_until_shutdown first server signal shutdown_timeout =
     select first (server (map_option fst signal)) (timeout_branch signal shutdown_timeout)"

definition ANALYTICS_FLUSH_LIMIT :: nat where
  "ANALYTICS_FLUSH_LIMIT = 5"

datatype flush_outcome = Flushed | TimedOut | Failed

text \<open>
  \<open>timeout\<close> over the blocking flush, which takes the given time and may panic (\<open>False\<close>), or never ends:
  how long the flush is waited for and how that ended. A flush that is ready at the limit wins.
\<close>

definition flush_analytics :: "nat \<Rightarrow> bool future \<Rightarrow> flush_outcome future" where
  "flush_analytics limit flush =
     select True (map_option (\<lambda>(after, ok). (after, if ok then Flushed else Failed)) flush) (Some (limit, TimedOut))"

text \<open>
  What \<open>main\<close> awaits once the server is left, each by how long it takes from when it is reached: the
  invalidation task, the pool's \<open>close\<close> with its result, the analytics flush and the telemetry shutdown.
\<close>

record closing_world =
  cw_task :: "unit future"
  cw_pool :: "bool future"
  cw_flush :: "bool future"
  cw_telemetry :: "bool future"

datatype closing_event =
  Cancelled | TaskEnded unit | PoolClosed bool | AnalyticsDone flush_outcome | TelemetryDone bool

text \<open>Awaiting one after the other: what completed and when, and when all did, if they did.\<close>

fun await_all :: "nat \<Rightarrow> closing_event future list \<Rightarrow> (nat \<times> closing_event) list \<times> nat option" where
  "await_all t [] = ([], Some t)"
| "await_all t (None # rest) = ([], None)"
| "await_all t (Some (takes, ev) # rest) =
     (let (log, over) = await_all (t + takes) rest in ((t + takes, ev) # log, over))"

definition event_of :: "('a \<Rightarrow> closing_event) \<Rightarrow> 'a future \<Rightarrow> closing_event future" where
  "event_of label = map_option (map_prod id label)"

definition close_down :: "process \<Rightarrow> closing_world \<Rightarrow> nat \<Rightarrow> (nat \<times> closing_event) list \<times> nat option" where
  "close_down p world left =
     await_all left
       ([Some (0, Cancelled)] @
        (if ps_invalidation p then [event_of TaskEnded (cw_task world)] else []) @
        (if ps_pool p then [event_of PoolClosed (cw_pool world)] else []) @
        [event_of AnalyticsDone (flush_analytics ANALYTICS_FLUSH_LIMIT (cw_flush world)),
         event_of TelemetryDone (cw_telemetry world)])"

text \<open>
  \<open>main\<close> from the served \<open>select!\<close> on: what completed while it closed, and when it returns, panicking on
  a server error, if it does.
\<close>

definition serve_and_close ::
    "bool \<Rightarrow> process \<Rightarrow> (nat option \<Rightarrow> bool future) \<Rightarrow> unit future \<Rightarrow> unit future \<Rightarrow> closing_world \<Rightarrow>
     (nat \<times> closing_event) list \<times> unit started future" where
  "serve_and_close first p server ctrl_c terminate world =
     (case serve_until_shutdown first server (shutdown_signal first ctrl_c terminate) (ps_shutdown_timeout p) of
        None \<Rightarrow> ([], None)
      | Some (left, served) \<Rightarrow>
          (let (log, over) = close_down p world left in
           (log, map_option (\<lambda>t. (t, expect ''server error'' served)) over)))"

section \<open>Routes and layers\<close>

datatype mount =
    HealthRoutes | AuditRoutes | JsonV2Routes | XmlV2Routes | JsonV1Routes | XmlV1Routes | WebRoutes
  | MockRoutes | DiscoveryRoutes | WellKnownRoutes

definition build_router :: "mode \<Rightarrow> (string \<times> mount) list" where
  "build_router mode =
     [(''/health'', HealthRoutes), (''/audit'', AuditRoutes),
      (''/crud/v1/heroes/v2/json'', JsonV2Routes), (''/crud/v1/heroes/v2/xml'', XmlV2Routes),
      (''/crud/v1/heroes/v1/json'', JsonV1Routes), (''/crud/v1/heroes/v1/xml'', XmlV1Routes),
      (''/heroes'', WebRoutes)] @
     (if mode = MockMode then [(''/mock'', MockRoutes)] else []) @
     [([], DiscoveryRoutes), ([], WellKnownRoutes)]"

text \<open>The response layers of the application, innermost first; the tracing ones do not touch it.\<close>

definition response_layers :: "resource_server \<Rightarrow> response \<Rightarrow> response" where
  "response_layers resource response =
     security_headers (add_resource_metadata (resource_metadata_url resource) response)"

section \<open>A start that passed its checks\<close>

lemma started_bind_simps [simp]:
  "started_bind (Running x) f = f x" "started_bind (Panic e) f = Panic e" "started_bind (Exit1 e) f = Exit1 e"
  by (simp_all add: started_bind_def)

lemma started_bind_Running: "started_bind m f = Running y \<longleftrightarrow> (\<exists>x. m = Running x \<and> f x = Running y)"
  by (cases m) simp_all

lemma started_bind_Panic:
  "started_bind m f = Panic e \<longleftrightarrow> m = Panic e \<or> (\<exists>x. m = Running x \<and> f x = Panic e)"
  by (cases m) simp_all

lemma or_panic_Running: "or_panic r = Running x \<longleftrightarrow> r = Inr x"
  by (cases r) simp_all

lemma or_exit_Running: "or_exit r = Running x \<longleftrightarrow> r = Inr x"
  by (cases r) simp_all

lemma or_exit_no_panic [simp]: "or_exit r \<noteq> Panic e"
  by (cases r) simp_all

lemma or_panic_Inr: "r = Inr x \<Longrightarrow> or_panic r \<noteq> Panic e"
  by simp

lemma expect_Panic: "expect m b = Panic e \<longleftrightarrow> \<not> b \<and> e = m"
  by (cases b) auto

lemma expect_Running: "expect m b = Running u \<longleftrightarrow> b"
  by (cases b) auto

lemmas started_Running = started_bind_Running or_panic_Running or_exit_Running expect_Running

lemma if_Inl_Inr:
  "(if b then Inl x else Inr y) = Inr z \<longleftrightarrow> \<not> b \<and> y = z"
  "(if b then Inr y else Inl x) = Inl w \<longleftrightarrow> \<not> b \<and> x = w"
  by simp_all

lemma security_txt_later:
  assumes "security_txt_from_lookup crates get now = Inr file" and "now \<le> later"
    and "case file of None \<Rightarrow> True | Some f \<Rightarrow> later < st_expires f"
  shows "security_txt_from_lookup crates get later = Inr file"
proof (cases "get ''SECURITY_TXT_CONTACT''")
  case None
  then show ?thesis using assms(1) by (simp add: security_txt_from_lookup_def)
next
  case contact: (Some contact)
  obtain f where f: "file = Some f"
    using assms(1) contact by (auto simp: security_txt_from_lookup_def Let_def split: option.splits if_splits)
  obtain raw where raw: "get ''SECURITY_TXT_EXPIRES'' = Some raw"
    using assms(1) contact by (cases "get ''SECURITY_TXT_EXPIRES''") (auto simp: security_txt_from_lookup_def Let_def)
  obtain at where at: "parse_from_rfc3339 crates raw = Some at"
    using assms(1) contact raw by (cases "parse_from_rfc3339 crates raw") (auto simp: security_txt_from_lookup_def Let_def)
  have "st_expires f = at" "now < at" "at \<le> now + days SECURITY_TXT_MAX_AHEAD_DAYS"
    using assms(1) f contact raw at by (auto simp: security_txt_from_lookup_def Let_def split: if_splits)
  then show ?thesis
    using assms f contact raw at by (simp add: security_txt_from_lookup_def Let_def split: if_splits)
qed

lemma security_txt_problems:
  "security_txt_from_lookup crates get now = Inl found \<Longrightarrow> found \<noteq> []"
  by (cases "get ''SECURITY_TXT_CONTACT''"; cases "get ''SECURITY_TXT_EXPIRES''";
      cases "parse_from_rfc3339 crates (the (get ''SECURITY_TXT_EXPIRES''))")
    (auto simp: security_txt_from_lookup_def Let_def if_Inl_Inr simp del: append_is_Nil_conv split del: if_split)

lemma resource_server_security_txt:
  assumes "resource_server_from_lookup crates s get now = Inr rs"
  shows "security_txt_from_lookup crates get now = Inr (rs_security_txt rs)"
  using assms security_txt_problems [of crates get now]
  by (cases "get ''OIDC_SCOPES_SUPPORTED''";
      cases "json_string_list crates (the (get ''OIDC_SCOPES_SUPPORTED''))";
      cases "security_txt_from_lookup crates get now")
    (auto simp: resource_server_from_lookup_def Let_def if_Inl_Inr split del: if_split)

text \<open>The clock matters to the resource server only through \<open>security.txt\<close>.\<close>

lemma resource_server_later:
  assumes "resource_server_from_env crates env s now = Inr rs" and "now \<le> later"
    and "case rs_security_txt rs of None \<Rightarrow> True | Some f \<Rightarrow> later < st_expires f"
  shows "resource_server_from_env crates env s later = Inr rs"
proof -
  have same: "security_txt_from_lookup crates (\<lambda>key. var_ok (env key)) now = Inr (rs_security_txt rs)"
    using assms(1) unfolding resource_server_from_env_def by (rule resource_server_security_txt)
  have "security_txt_from_lookup crates (\<lambda>key. var_ok (env key)) later = Inr (rs_security_txt rs)"
    by (rule security_txt_later [OF same assms(2,3)])
  then show ?thesis
    using assms(1) same unfolding resource_server_from_env_def resource_server_from_lookup_def by simp
qed

text \<open>An origin is header-safe, so the challenge of a running process is always a header value.\<close>

lemma printable_header_safe: "\<not> is_control c \<Longrightarrow> header_safe_char c"
  by (auto simp: header_safe_char_def is_control_def Let_def)

lemma origin_host_header_safe: "origin_host host \<Longrightarrow> list_all header_safe_char host"
  unfolding origin_host_def list_all_iff using printable_header_safe by blast

lemma public_base_url_header_safe:
  assumes "resource_server_from_lookup crates s get now = Inr rs"
  shows "list_all header_safe_char (rs_public_base_url rs)"
proof -
  define origin where "origin = (case get ''PUBLIC_BASE_URL'' of Some url \<Rightarrow> url | None \<Rightarrow> DEFAULT_PUBLIC_BASE_URL)"
  have url: "rs_public_base_url rs = trim_end_matches (CHR ''/'') origin"
    using assms
    by (cases "get ''OIDC_SCOPES_SUPPORTED''";
        cases "json_string_list crates (the (get ''OIDC_SCOPES_SUPPORTED''))";
        cases "security_txt_from_lookup crates get now")
      (auto simp: resource_server_from_lookup_def Let_def if_Inl_Inr origin_def split del: if_split)
  have checked: "is_origin u" if "get ''PUBLIC_BASE_URL'' = Some u" for u
  proof (rule ccontr)
    assume "\<not> is_origin u"
    with assms that show False
      by (cases "get ''OIDC_SCOPES_SUPPORTED''";
          cases "json_string_list crates (the (get ''OIDC_SCOPES_SUPPORTED''))";
          cases "security_txt_from_lookup crates get now")
        (simp_all add: resource_server_from_lookup_def Let_def if_Inl_Inr split del: if_split)
  qed
  show ?thesis
  proof (cases "get ''PUBLIC_BASE_URL''")
    case None
    then show ?thesis
      by (simp add: url origin_def DEFAULT_PUBLIC_BASE_URL_def trim_end_matches_def header_safe_char_def code_def)
  next
    case (Some u)
    then obtain scheme host where u: "scheme = ''https://'' \<or> scheme = ''http://''" "origin_host host"
        "u = scheme @ host \<or> u = scheme @ host @ ''/''"
      using checked is_origin_iff by blast
    have "rs_public_base_url rs = scheme @ host"
      using u(3) Some trim_slash_host [OF u(2), of scheme] by (auto simp: url origin_def)
    moreover have "list_all header_safe_char scheme"
      using u(1) by (auto simp: header_safe_char_def code_def)
    ultimately show ?thesis using origin_host_header_safe [OF u(2)] by simp
  qed
qed

lemma metadata_url_header_safe:
  assumes "resource_server_from_env crates env s now = Inr rs"
  shows "list_all header_safe_char (resource_metadata_url rs)"
  using public_base_url_header_safe [OF assms [unfolded resource_server_from_env_def]]
  by (simp add: resource_metadata_url_def header_safe_char_def code_def)

section \<open>What a running process is made of\<close>

lemma build_health_registry_Running:
  assumes "build_health_registry crates env t s pool = Running checks"
  shows "if mode_of s = MockMode then checks = map MockHealthCheck [''database'', ''redis'', ''s3'', ''oidc'']
     else \<exists>rs. checks = [DatabaseHealthCheck, RedisHealthCheck (redis_url s),
       S3HealthCheck (s3_endpoint_url s) (s3_access_key s) (s3_secret_key s),
       HttpHealthCheck ''oidc'' (rs_discovery_url rs)] \<and> resource_server_from_env crates env s t = Inr rs"
  using assms by (auto simp: build_health_registry_def resource_server_of_def started_Running split: if_splits)

lemma mock_mode_named:
  assumes "settings_from_env crates env now = Inr s"
  shows "(mode_of s = MockMode) = (env ''MODE'' = Present ''mock'')"
proof -
  have "parse_mode (env_or env ''MODE'' ''dev'') = Inr (mode_of s)"
    using assms by (auto simp: settings_from_env_Inr)
  then show ?thesis
    by (cases "env ''MODE''") (auto simp: parse_mode_def env_or_def split: if_splits)
qed

lemma main_Running:
  assumes "main crates env cn now t1 t2 = Running p"
  shows "settings_from_env crates env now = Inr (ps_settings p)" (is ?settings)
    and "graceful_shutdown_timeout env = Inr (ps_shutdown_timeout p)" (is ?timeout)
    and "\<exists>ttl secret rs. stats_cache_ttl env = Inr ttl \<and> ps_invalidation p = (ttl \<noteq> None) \<and>
       aw_stats (ps_wiring p) = build_stats_cache env (mode_of (ps_settings p)) ttl \<and>
       subscriber_secret env (mode_of (ps_settings p)) = Inr secret \<and>
       aw_events (ps_wiring p) = build_event_bus (ps_settings p) secret \<and>
       resource_server_from_env crates env (ps_settings p) t2 = Inr rs \<and>
       aw_oidc (ps_wiring p) = with_resource_server (ps_settings p) rs" (is ?rest)
    and "aw_repository (ps_wiring p) =
       (if mode_of (ps_settings p) = MockMode then MemoryRepository else SeaOrmRepository) \<and>
       ps_pool p = (mode_of (ps_settings p) \<noteq> MockMode)" (is ?repository)
    and "aw_limiter (ps_wiring p) =
       (if mode_of (ps_settings p) = MockMode then MockLimiter else RedisLimiter (redis_url (ps_settings p)))" (is ?limiter)
    and "build_health_registry crates env t1 (ps_settings p) (mode_of (ps_settings p) \<noteq> MockMode) =
       Running (aw_health (ps_wiring p))" (is ?health)
proof -
  obtain settings timeout ttl pool state where m: "settings_from_env crates env now = Inr settings"
      "graceful_shutdown_timeout env = Inr timeout" "stats_cache_ttl env = Inr ttl"
      "build_state_with_db crates env cn t1 t2 settings pool = Running state"
      "p = \<lparr>ps_settings = settings, ps_wiring = state, ps_shutdown_timeout = timeout,
        ps_invalidation = (spawn_stats_cache_invalidation (ttl \<noteq> None) \<noteq> None), ps_pool = pool\<rparr>"
    using assms by (auto simp: main_def started_Running Let_def)
  have pool: "pool = (mode_of settings \<noteq> MockMode)"
    using m(4) by (simp add: build_state_with_db_def started_Running)
  show ?settings ?timeout ?rest ?repository ?limiter ?health
    using m pool
    by (auto simp: build_state_with_db_def started_Running Let_def resource_server_of_def
        spawn_stats_cache_invalidation_def split: if_splits)
qed

text \<open>
  C24. A process that runs outside mock mode stores heroes in Postgres, counts requests in the
  configured Redis and publishes to the configured broker; in mock mode it opens no connection and
  every dependency is a fake. In production, moreover, the event bus signs subscriber ids with a
  secret of at least 32 characters, and Redis is reached over TLS. The invalidation task runs
  exactly when there is a stats cache.
\<close>

theorem infrastructure_by_mode:
  assumes "main crates env cn now t1 t2 = Running p"
  defines "w \<equiv> ps_wiring p" and "s \<equiv> ps_settings p"
  shows "ps_invalidation p = (aw_stats w \<noteq> None) \<and>
    (if mode_of s = MockMode
     then aw_repository w = MemoryRepository \<and> aw_limiter w = MockLimiter \<and> fst (aw_events w) = MockBus \<and>
       (\<forall>check \<in> set (aw_health w). \<exists>name. check = MockHealthCheck name) \<and>
       (\<forall>cache. aw_stats w \<noteq> Some (RedisCache cache))
     else aw_repository w = SeaOrmRepository \<and> aw_limiter w = RedisLimiter (redis_url s) \<and>
       fst (aw_events w) = MqttBus (mqtt_host s) (mqtt_port s) \<and>
       {DatabaseHealthCheck, RedisHealthCheck (redis_url s)} \<subseteq> set (aw_health w) \<and>
       (\<forall>ttl. aw_stats w \<noteq> Some (MemoryCache ttl))) \<and>
    (mode_of s = Production \<longrightarrow> starts_with (redis_url s) ''rediss://'' \<and>
       (\<exists>secret. snd (aw_events w) = Some secret \<and> MIN_SUBSCRIBER_SECRET_CHARS \<le> length secret))"
proof -
  note m = main_Running [OF assms(1), folded w_def s_def]
  have "starts_with (redis_url s) ''rediss://''" if "mode_of s = Production"
    using m(1) that validate_production [of env s] by (auto simp: settings_from_env_Inr)
  moreover have "\<exists>secret. snd (aw_events w) = Some secret \<and> MIN_SUBSCRIBER_SECRET_CHARS \<le> length secret"
    if "mode_of s = Production"
    using m(3) that by (auto simp: subscriber_secret_def build_event_bus_def split: env_var.splits if_splits)
  ultimately show ?thesis
    using m(3,4,5) build_health_registry_Running [OF m(6)]
    by (auto simp: build_stats_cache_def build_event_bus_def split: option.splits)
qed

section \<open>Panics of a start\<close>

text \<open>
  What a connection's failure looks like: the message of the panic and that it did fail, with the
  settings the start read.
\<close>

definition connection_failed :: "connections \<Rightarrow> env \<Rightarrow> settings \<Rightarrow> string \<Rightarrow> bool" where
  "connection_failed cn env s e =
     ((e = ''failed to connect to Postgres'' \<and> \<not> cn_postgres cn s) \<or>
      (e = ''failed to apply pending migrations'' \<and> run_migrations_on_startup (db s) \<and> \<not> cn_migrate cn) \<or>
      (e = ''failed to connect to Redis for rate limiting'' \<and> \<not> cn_redis cn (redis_url s)) \<or>
      (e = ''failed to connect to Redis for the stats cache'' \<and> stats_cache_ttl env \<noteq> Inr None \<and>
        \<not> cn_redis cn (redis_url s)))"

definition port_failed :: "connections \<Rightarrow> string \<Rightarrow> bool" where
  "port_failed cn e =
     ((e = ''failed to bind 0.0.0.0:8000'' \<and> \<not> cn_bind cn ''0.0.0.0:8000'') \<or>
      (e = ''called `Result::unwrap()` on an `Err` value'' \<and> \<not> cn_local_addr cn))"

lemma build_state_panics:
  assumes "build_state_with_db crates env cn t1 t2 s (mode_of s \<noteq> MockMode) = Panic e"
    and "subscriber_secret env (mode_of s) = Inr secret" "stats_cache_ttl env = Inr ttl"
    and "resource_server_of crates env t1 s = Running rs" "resource_server_of crates env t2 s = Running rs"
  shows "mode_of s \<noteq> MockMode \<and> connection_failed cn env s e"
  using assms
  by (auto simp: started_bind_Panic expect_Panic started_Running connection_failed_def
      build_state_with_db_def build_health_registry_def build_stats_cache_def Let_def
      split: if_splits option.splits)

text \<open>
  C23. What \<open>main\<close> checked cannot fail again when the state is built from the same environment. A
  process panics before it serves only because something outside it failed, and the message says
  which: the telemetry subscriber could not be installed; outside mock mode, one of the connections or
  the migration it needs failed; the port could not be bound, or its address not read. The one exception
  is a \<open>security.txt\<close> that expires between the check and the end of the start.
\<close>

theorem start_panics_only_on_outside_failures:
  assumes "main crates env cn now t1 t2 = Panic e" and "now \<le> t1" "t1 \<le> t2"
    and "\<And>s rs f. settings_from_env crates env now = Inr s \<Longrightarrow>
       resource_server_from_env crates env s now = Inr rs \<Longrightarrow> rs_security_txt rs = Some f \<Longrightarrow> t2 < st_expires f"
  shows "init_logging (cn_telemetry cn) (cn_telemetry_without_export cn) = Panic e \<or>
    (env ''MODE'' \<noteq> Present ''mock'' \<and>
      (\<exists>s. settings_from_env crates env now = Inr s \<and> connection_failed cn env s e)) \<or>
    port_failed cn e"
proof (cases "init_logging (cn_telemetry cn) (cn_telemetry_without_export cn) = Panic e \<or> port_failed cn e")
  case False
  obtain s timeout secret ttl where m: "settings_from_env crates env now = Inr s"
      "subscriber_secret env (mode_of s) = Inr secret" "stats_cache_ttl env = Inr ttl" and
      rest: "started_bind (connect_database cn s) (build_state_with_db crates env cn t1 t2 s) = Panic e"
    using assms(1) False
    by (auto simp: main_def started_bind_Panic started_Running expect_Panic port_failed_def Let_def)
  obtain rs where rs: "resource_server_from_env crates env s now = Inr rs"
    using m(1) by (auto simp: settings_from_env_Inr)
  have valid: "case rs_security_txt rs of None \<Rightarrow> True | Some f \<Rightarrow> t2 < st_expires f"
    using assms(4) [OF m(1) rs] by (auto split: option.splits)
  then have "case rs_security_txt rs of None \<Rightarrow> True | Some f \<Rightarrow> t1 < st_expires f"
    using assms(3) by (auto split: option.splits)
  then have at: "resource_server_of crates env t1 s = Running rs" "resource_server_of crates env t2 s = Running rs"
    using resource_server_later [OF rs] assms(2,3) valid by (auto simp: resource_server_of_def)
  have "mode_of s \<noteq> MockMode \<and> connection_failed cn env s e"
  proof (cases "connect_database cn s = Panic e")
    case True
    then show ?thesis
      by (auto simp: connect_database_def run_migrations_def started_bind_Panic expect_Panic connection_failed_def
          split: if_splits)
  next
    case False
    then obtain pool where "connect_database cn s = Running pool"
        "build_state_with_db crates env cn t1 t2 s pool = Panic e"
      using rest by (auto simp: started_bind_Panic)
    then show ?thesis
      using build_state_panics [OF _ m(2,3) at]
      by (auto simp: connect_database_def started_Running split: if_splits)
  qed
  then show ?thesis using mock_mode_named [OF m(1)] m(1) by blast
qed blast

section \<open>Leaving\<close>

lemma flush_within_limit: "\<exists>waited outcome. flush_analytics limit flush = Some (waited, outcome) \<and> waited \<le> limit"
  by (cases flush) (auto simp: flush_analytics_def)

lemma served_within_limit:
  "\<exists>left served. serve_until_shutdown first server (Some (at, u)) (Some limit) = Some (left, served) \<and>
     left \<le> at + limit \<and> (served \<or> server (Some at) = Some (left, False))"
  by (cases "server (Some at)") (auto simp: serve_until_shutdown_def timeout_branch_def)

text \<open>What closing needs to get through, and how long it then takes at most.\<close>

definition closing_waits :: "process \<Rightarrow> closing_world \<Rightarrow> nat option" where
  "closing_waits p world =
     (case (if ps_invalidation p then map_option fst (cw_task world) else Some 0,
            if ps_pool p then map_option fst (cw_pool world) else Some 0) of
        (Some task, Some pool) \<Rightarrow> Some (task + pool)
      | _ \<Rightarrow> None)"

text \<open>What closing waits for without a bound, if that ends.\<close>

lemma close_down_cases:
  assumes "close_down p world left = (log, over)"
  obtains waited outcome where "waited \<le> ANALYTICS_FLUSH_LIMIT"
    and "await_all left
       ([Some (0, Cancelled)] @
        (if ps_invalidation p then [map_option (\<lambda>(t, x). (t, TaskEnded x)) (cw_task world)] else []) @
        (if ps_pool p then [map_option (\<lambda>(t, x). (t, PoolClosed x)) (cw_pool world)] else []) @
        [Some (waited, AnalyticsDone outcome), map_option (\<lambda>(t, x). (t, TelemetryDone x)) (cw_telemetry world)])
       = (log, over)"
proof -
  obtain waited outcome where f: "flush_analytics ANALYTICS_FLUSH_LIMIT (cw_flush world) = Some (waited, outcome)"
      "waited \<le> ANALYTICS_FLUSH_LIMIT"
    using flush_within_limit by blast
  have label: "map_prod id l = (\<lambda>(t, x). (t, l x))" for l :: "'a \<Rightarrow> closing_event"
    by (auto simp: fun_eq_iff)
  show ?thesis
    by (rule that [OF f(2)]) (use assms in \<open>simp add: close_down_def event_of_def f(1) label cong: if_cong\<close>)
qed

lemma close_down_log:
  assumes "close_down p world left = (log, over)"
  shows "log \<noteq> [] \<and> hd log = (left, Cancelled) \<and>
    (\<exists>closed outcome exported. prefix (map snd log)
      ([Cancelled] @ (if ps_invalidation p then [TaskEnded ()] else []) @
       (if ps_pool p then [PoolClosed closed] else []) @ [AnalyticsDone outcome, TelemetryDone exported])) \<and>
    (\<exists>t outcome. (t, AnalyticsDone outcome) \<in> set log) = (closing_waits p world \<noteq> None) \<and>
    (\<forall>t outcome. (t, AnalyticsDone outcome) \<in> set log \<longrightarrow>
      t \<le> left + the (closing_waits p world) + ANALYTICS_FLUSH_LIMIT)"
  using assms
  by (rule close_down_cases;
      cases "ps_invalidation p"; cases "ps_pool p"; cases "cw_task world"; cases "cw_pool world";
      cases "cw_telemetry world")
    (auto simp: closing_waits_def)

lemma close_down_end:
  assumes "close_down p world left = (log, over)"
  shows "(over \<noteq> None) = (closing_waits p world \<noteq> None \<and> cw_telemetry world \<noteq> None) \<and>
    (\<forall>t. over = Some t \<longrightarrow>
      t \<le> left + the (closing_waits p world) + ANALYTICS_FLUSH_LIMIT + fst (the (cw_telemetry world)))"
  using assms
  by (rule close_down_cases;
      cases "ps_invalidation p"; cases "ps_pool p"; cases "cw_task world"; cases "cw_pool world";
      cases "cw_telemetry world")
    (auto simp: closing_waits_def)

text \<open>
  C36. A signalled process with a shutdown timeout leaves its server within that timeout, whatever the
  server does. It then awaits the invalidation task, if it started one, closes the pool, if it opened one,
  flushes analytics and shuts telemetry down, in this order and each once the one before is over. Of these
  only the flush has a bound of its own: a stuck flush is given up after five seconds, while a task, a
  pool or a telemetry shutdown that hangs keeps \<open>main\<close> from returning; when none hangs \<open>main\<close> does
  return, within the sum of the bounds and of what they took, and panics only when the server itself had
  failed. (A flush that was given up still runs on its thread, which the runtime joins afterwards.)
\<close>

theorem shutdown_is_bounded:
  assumes "main crates env cn now t1 t2 = Running p" and "ps_shutdown_timeout p = Some limit"
    and "shutdown_signal first ctrl_c terminate = Some (at, ())"
    and "serve_and_close first p server ctrl_c terminate world = (log, over)"
  defines "task \<equiv> if aw_stats (ps_wiring p) \<noteq> None then map_option fst (cw_task world) else Some 0"
    and "pool \<equiv> if env ''MODE'' \<noteq> Present ''mock'' then map_option fst (cw_pool world) else Some 0"
  shows "log \<noteq> [] \<and> (\<exists>left. hd log = (left, Cancelled) \<and> left \<le> at + limit) \<and>
    (\<exists>closed outcome exported. prefix (map snd log)
      ([Cancelled] @ (if aw_stats (ps_wiring p) \<noteq> None then [TaskEnded ()] else []) @
       (if env ''MODE'' \<noteq> Present ''mock'' then [PoolClosed closed] else []) @
       [AnalyticsDone outcome, TelemetryDone exported])) \<and>
    (\<exists>t outcome. (t, AnalyticsDone outcome) \<in> set log) = (task \<noteq> None \<and> pool \<noteq> None) \<and>
    (\<forall>t outcome. (t, AnalyticsDone outcome) \<in> set log \<longrightarrow> t \<le> at + limit + the task + the pool + 5) \<and>
    (over \<noteq> None) = (task \<noteq> None \<and> pool \<noteq> None \<and> cw_telemetry world \<noteq> None) \<and>
    (\<forall>t result. over = Some (t, result) \<longrightarrow>
      t \<le> at + limit + the task + the pool + 5 + fst (the (cw_telemetry world)) \<and>
      (result = Running () \<or>
       (result = Panic ''server error'' \<and> (\<exists>end_at \<le> at + limit. server (Some at) = Some (end_at, False)))))"
proof -
  have "(mode_of (ps_settings p) = MockMode) = (env ''MODE'' = Present ''mock'')"
    using main_Running(1) [OF assms(1)] by (rule mock_mode_named)
  then have pool: "ps_pool p = (env ''MODE'' \<noteq> Present ''mock'')"
    using main_Running(4) [OF assms(1)] by simp
  have invalidation: "ps_invalidation p = (aw_stats (ps_wiring p) \<noteq> None)"
    using main_Running(3) [OF assms(1)] by (auto simp: build_stats_cache_def split: option.splits if_splits)
  obtain left served where l: "serve_until_shutdown first server (Some (at, ())) (Some limit) = Some (left, served)"
      "left \<le> at + limit" "served \<or> server (Some at) = Some (left, False)"
    using served_within_limit by blast
  obtain ended where c: "close_down p world left = (log, ended)"
      "over = map_option (\<lambda>t. (t, expect ''server error'' served)) ended"
    using assms(2-4) l(1) by (auto simp: serve_and_close_def Let_def split: prod.splits)
  have waits: "closing_waits p world = (case (task, pool) of (Some x, Some y) \<Rightarrow> Some (x + y) | _ \<Rightarrow> None)"
    by (simp only: closing_waits_def task_def pool_def pool invalidation)
  then have some: "(closing_waits p world \<noteq> None) = (task \<noteq> None \<and> pool \<noteq> None)"
      "closing_waits p world \<noteq> None \<Longrightarrow> the (closing_waits p world) = the task + the pool"
    by (auto split: option.splits)
  note log = close_down_log [OF c(1), unfolded pool invalidation]
    and over = close_down_end [OF c(1)]
  show ?thesis
  proof (intro conjI)
    show "log \<noteq> []" "\<exists>left. hd log = (left, Cancelled) \<and> left \<le> at + limit"
      using log l(2) by blast+
    show "\<forall>t outcome. (t, AnalyticsDone outcome) \<in> set log \<longrightarrow> t \<le> at + limit + the task + the pool + 5"
    proof (intro allI impI)
      fix t outcome
      assume t: "(t, AnalyticsDone outcome) \<in> set log"
      then have "closing_waits p world \<noteq> None" and "t \<le> left + the (closing_waits p world) + 5"
        using log by (auto simp: ANALYTICS_FLUSH_LIMIT_def)
      then show "t \<le> at + limit + the task + the pool + 5" using l(2) some(2) by linarith
    qed
    show "\<forall>t result. over = Some (t, result) \<longrightarrow>
      t \<le> at + limit + the task + the pool + 5 + fst (the (cw_telemetry world)) \<and>
      (result = Running () \<or>
       (result = Panic ''server error'' \<and> (\<exists>end_at \<le> at + limit. server (Some at) = Some (end_at, False))))"
    proof (intro allI impI)
      fix t result
      assume "over = Some (t, result)"
      then have t: "ended = Some t" and r: "result = expect ''server error'' served"
        using c(2) by auto
      have "t \<le> left + the (closing_waits p world) + 5 + fst (the (cw_telemetry world))" "closing_waits p world \<noteq> None"
        using over t by (auto simp: ANALYTICS_FLUSH_LIMIT_def)
      then have "t \<le> at + limit + the task + the pool + 5 + fst (the (cw_telemetry world))"
        using l(2) some(2) by linarith
      moreover have "result = Running () \<or>
         (result = Panic ''server error'' \<and> (\<exists>end_at \<le> at + limit. server (Some at) = Some (end_at, False)))"
        using r l by (cases served) auto
      ultimately show "t \<le> at + limit + the task + the pool + 5 + fst (the (cw_telemetry world)) \<and>
        (result = Running () \<or>
         (result = Panic ''server error'' \<and> (\<exists>end_at \<le> at + limit. server (Some at) = Some (end_at, False))))"
        by blast
    qed
  qed (use log over some(1) c(2) in auto)
qed

section \<open>Every response\<close>

lemma layers_harden:
  assumes "main crates env cn now t1 t2 = Running p"
  defines "rs \<equiv> ov_resource (aw_oidc (ps_wiring p))"
  shows "list_all (\<lambda>(name, hv). header_of (response_layers rs r) name = Some hv) SECURITY_HEADERS \<and>
    header_of (response_layers rs r) www_authenticate =
      (if r_status r = 401
       then Some (''Bearer resource_metadata='' @ [CHR 0x22] @ rs_public_base_url rs @
         ''/.well-known/oauth-protected-resource'' @ [CHR 0x22] @
         (if r_rejected r then '', error='' @ [CHR 0x22] @ ''invalid_token'' @ [CHR 0x22] else []))
       else header_of r www_authenticate) \<and>
    r_status (response_layers rs r) = r_status r"
proof -
  obtain rs' where "resource_server_from_env crates env (ps_settings p) t2 = Inr rs'" "rs = rs'"
    using main_Running(3) [OF assms(1)] by (auto simp: with_resource_server_def rs_def)
  then have safe: "list_all header_safe_char (resource_metadata_url rs)"
    using metadata_url_header_safe by blast
  have free: "map_of SECURITY_HEADERS www_authenticate = None"
    by (simp add: SECURITY_HEADERS_def www_authenticate_def)
  have "list_all (\<lambda>(name, hv). header_of (response_layers rs r) name = Some hv) SECURITY_HEADERS"
    by (simp add: response_layers_def security_headers_lookup) (simp add: SECURITY_HEADERS_def)
  moreover have "header_of (response_layers rs r) www_authenticate =
      (if r_status r = 401
       then Some (''Bearer resource_metadata='' @ [CHR 0x22] @ resource_metadata_url rs @ [CHR 0x22] @
         (if r_rejected r then '', error='' @ [CHR 0x22] @ ''invalid_token'' @ [CHR 0x22] else []))
       else header_of r www_authenticate)"
    by (simp add: response_layers_def security_headers_lookup free add_resource_metadata_def
        bearer_challenge_safe [OF safe])
  moreover have "r_status (response_layers rs r) = r_status r"
    by (simp add: response_layers_def add_resource_metadata_def bearer_challenge_safe [OF safe])
  ultimately show ?thesis by (simp add: resource_metadata_url_def)
qed

text \<open>
  C30. Behind the layers of a running process every response, whatever a handler set, carries the six
  security headers with their fixed values; every 401 carries a challenge that names the process's
  own metadata document, and no other response gains or loses one.
\<close>

theorem every_response_hardened:
  assumes "main crates env cn now t1 t2 = Running p"
  defines "rs \<equiv> ov_resource (aw_oidc (ps_wiring p))"
  shows "list_all (\<lambda>(name, hv). header_of (response_layers rs r) name = Some hv) SECURITY_HEADERS \<and>
    header_of (response_layers rs r) www_authenticate =
      (if r_status r = 401
       then Some (''Bearer resource_metadata='' @ [CHR 0x22] @ rs_public_base_url rs @
         ''/.well-known/oauth-protected-resource'' @ [CHR 0x22] @
         (if r_rejected r then '', error='' @ [CHR 0x22] @ ''invalid_token'' @ [CHR 0x22] else []))
       else header_of r www_authenticate) \<and>
    r_status (response_layers rs r) = r_status r"
  unfolding rs_def using layers_harden [OF assms(1)] .

section \<open>Concrete starts\<close>

definition sample_running_env :: env where
  "sample_running_env key =
     (if key = ''SUBSCRIBER_SECRET'' then Present (replicate 32 (CHR ''s''))
      else if key = ''STATS_CACHE_TTL_SECONDS'' then Present ''60''
      else if key = ''GRACEFUL_SHUTDOWN_TIMEOUT_SECONDS'' then Present ''30'' else sample_production_env key)"

definition sample_connections :: "bool \<Rightarrow> connections" where
  "sample_connections up = \<lparr>cn_telemetry = Some (ExporterBuild ''no endpoint''), cn_telemetry_without_export = True,
     cn_postgres = \<lambda>_. up, cn_migrate = True, cn_redis = \<lambda>_. True, cn_bind = \<lambda>_. True, cn_local_addr = True\<rparr>"

lemma sample_settings_read:
  "\<exists>s rs. settings_from_env sample_config_crates sample_running_env 0 = Inr s \<and> mode_of s = Production \<and>
     (\<forall>t. resource_server_from_env sample_config_crates sample_running_env s t = Inr rs) \<and>
     rs_security_txt rs = None"
  by (simp add: config_eval sample_running_env_def sample_production_env_def Let_def)

lemma sample_rest_read:
  "stats_cache_ttl sample_running_env = Inr (Some 60)"
  "graceful_shutdown_timeout sample_running_env = Inr (Some 30)"
  "subscriber_secret sample_running_env Production = Inr (Some (replicate 32 (CHR ''s'')))"
  by (simp_all add: stats_cache_ttl_def graceful_shutdown_timeout_def subscriber_secret_def env_seconds_def
      env_positive_def config_eval MIN_SUBSCRIBER_SECRET_CHARS_def sample_running_env_def sample_production_env_def)

lemma sample_start:
  "\<exists>p. main sample_config_crates sample_running_env (sample_connections True) 0 1 2 = Running p \<and>
     mode_of (ps_settings p) = Production \<and> ps_shutdown_timeout p = Some 30"
  "main sample_config_crates sample_running_env (sample_connections False) 0 1 2 =
     Panic ''failed to connect to Postgres''"
  using sample_settings_read sample_rest_read
  by (auto simp: main_def build_state_with_db_def connect_database_def run_migrations_def sample_connections_def
      build_health_registry_def resource_server_of_def build_stats_cache_def Let_def)

theorem infrastructure_by_mode_witness:
  "\<exists>p secret. main sample_config_crates sample_running_env (sample_connections True) 0 1 2 = Running p \<and>
     aw_repository (ps_wiring p) = SeaOrmRepository \<and> ps_invalidation p = (aw_stats (ps_wiring p) \<noteq> None) \<and>
     snd (aw_events (ps_wiring p)) = Some secret \<and> 32 \<le> length secret"
proof -
  obtain p where p: "main sample_config_crates sample_running_env (sample_connections True) 0 1 2 = Running p"
      "mode_of (ps_settings p) = Production"
    using sample_start(1) by blast
  then show ?thesis
    using infrastructure_by_mode [OF p(1)] by (auto simp: MIN_SUBSCRIBER_SECRET_CHARS_def)
qed

theorem start_panics_only_on_outside_failures_witness:
  "\<exists>s. settings_from_env sample_config_crates sample_running_env 0 = Inr s \<and>
     connection_failed (sample_connections False) sample_running_env s ''failed to connect to Postgres''"
proof -
  have "2 < st_expires f" if "settings_from_env sample_config_crates sample_running_env 0 = Inr s'"
      "resource_server_from_env sample_config_crates sample_running_env s' 0 = Inr rs'"
      "rs_security_txt rs' = Some f" for s' rs' f
    using that sample_settings_read by auto
  from start_panics_only_on_outside_failures [OF sample_start(2) _ _ this]
  show ?thesis by (simp add: sample_connections_def port_failed_def)
qed

theorem every_response_hardened_witness:
  "\<exists>p. main sample_config_crates sample_running_env (sample_connections True) 0 1 2 = Running p \<and>
     header_of (response_layers (ov_resource (aw_oidc (ps_wiring p))) (json_response 200 JNull)) www_authenticate = None \<and>
     header_of (response_layers (ov_resource (aw_oidc (ps_wiring p))) (json_response 200 JNull)) ''x-frame-options'' =
       Some ''DENY''"
proof -
  obtain p where p: "main sample_config_crates sample_running_env (sample_connections True) 0 1 2 = Running p"
    using sample_start(1) by blast
  then show ?thesis
    using every_response_hardened [OF p, of "json_response 200 JNull"]
    by (auto simp: json_response_def header_of_def www_authenticate_def content_type_def SECURITY_HEADERS_def)
qed

definition sample_closing :: "bool \<Rightarrow> closing_world" where
  "sample_closing pool_closes = \<lparr>cw_task = Some (1, ()), cw_pool = if pool_closes then Some (2, True) else None,
     cw_flush = None, cw_telemetry = Some (3, True)\<rparr>"

theorem shutdown_is_bounded_witness:
  "\<exists>p t result. main sample_config_crates sample_running_env (sample_connections True) 0 1 2 = Running p \<and>
     snd (serve_and_close True p (\<lambda>_. None) (Some (100, ())) None (sample_closing True)) = Some (t, result) \<and>
     t \<le> 141 \<and> result = Running () \<and>
     snd (serve_and_close True p (\<lambda>_. None) (Some (100, ())) None (sample_closing False)) = None"
proof -
  obtain p where p: "main sample_config_crates sample_running_env (sample_connections True) 0 1 2 = Running p"
      "ps_shutdown_timeout p = Some 30"
    using sample_start(1) by blast
  have mode: "sample_running_env ''MODE'' \<noteq> Present ''mock''"
    by (simp add: sample_running_env_def sample_production_env_def sample_env_def)
  have "shutdown_signal True (Some (100, ())) None = Some (100, ())" by (simp add: shutdown_signal_def)
  note leave = shutdown_is_bounded [OF p this, of "\<lambda>_. None"]
  have task: "cw_task (sample_closing b) = Some (1, ())" "cw_telemetry (sample_closing b) = Some (3, True)"
      "cw_pool (sample_closing b) = (if b then Some (2, True) else None)" for b
    by (simp_all add: sample_closing_def)
  obtain log over where w: "serve_and_close True p (\<lambda>_. None) (Some (100, ())) None (sample_closing True) = (log, over)"
    by fastforce
  obtain log' over' where w': "serve_and_close True p (\<lambda>_. None) (Some (100, ())) None (sample_closing False) = (log', over')"
    by fastforce
  have "over' = None"
    using leave [OF w'] mode by (cases over') (auto simp: task)
  moreover obtain t result where "over = Some (t, result)"
    using leave [OF w] mode by (cases over) (auto simp: task split: if_splits)
  moreover from this have "t \<le> 141" "result = Running ()"
    using leave [OF w] mode by (auto simp: task split: if_splits)
  ultimately show ?thesis using p(1) w w' by auto
qed

end
