(* ===== verification/Application.thy ===== *)
theory Application
  imports Wiring
begin

text \<open>
  The parts of one request put together, the way \<open>build_router\<close> composes them: the extractor that
  authenticates, the handler of the route with its limiter and role gates, the rendering of errors,
  and the response layers. What holds of a running process end to end is stated here; the
  components' lemmas do the work.
\<close>

section \<open>One request\<close>

datatype app_request =
    ApiWrite hero_write_request
  | ApiRead hero_api
  | FormGet
  | FormPost web_post

definition render_error :: "('r, 'l, 'sc) app_state \<Rightarrow> app_error + response \<Rightarrow> response" where
  "render_error state r = (case r of Inr resp \<Rightarrow> resp | Inl err \<Rightarrow> app_error_response state err)"

definition either_response :: "response + response \<Rightarrow> response" where
  "either_response r = (case r of Inr resp \<Rightarrow> resp | Inl resp \<Rightarrow> resp)"

text \<open>Behind the extractor: the handler of a route for a caller's claims and, on the pages, token.\<close>

fun dispatch :: "(string \<Rightarrow> response) \<Rightarrow> app_request \<Rightarrow> ('r, 'l, 'sc) app_state \<Rightarrow> call \<Rightarrow> claims \<Rightarrow> string \<Rightarrow>
    ('r, 'l) world \<Rightarrow> response \<times> ('r, 'l) world" where
  "dispatch redirect (ApiWrite rq) state c claims token w =
     (case serve_write rq state c claims w of (res, w') \<Rightarrow> (render_error state res, w'))"
| "dispatch redirect (ApiRead rd) state c claims token w =
     (case serve_read rd state c claims w of (res, w') \<Rightarrow> (render_error state res, w'))"
| "dispatch redirect FormGet state c claims token w =
     (case form_page state (Inr \<lparr>wa_claims = claims, wa_token = token\<rparr>) w of
        (res, w') \<Rightarrow> (either_response res, w'))"
| "dispatch redirect (FormPost post) state c claims token w =
     (case serve_web (redirect, token, post) state c claims w of (res, w') \<Rightarrow> (either_response res, w'))"

text \<open>The extractor of the route: \<open>AuthClaims\<close> of the API, \<open>WebAuthClaims\<close> of the pages.\<close>

fun is_page :: "app_request \<Rightarrow> bool" where
  "is_page FormGet = True"
| "is_page (FormPost post) = True"
| "is_page _ = False"

definition authenticate :: "('ks, 'k, 'd) oidc_crates \<Rightarrow> oidc_verifier \<Rightarrow> ('r, 'l, 'sc) app_state \<Rightarrow> nat \<Rightarrow> app_request \<Rightarrow>
    call \<Rightarrow> ('ks jwks_state, response, claims \<times> string) eff" where
  "authenticate crates verifier state done_at rq c =
     (if is_page rq
      then and_then (web_from_request_parts crates verifier (c_now c) done_at (c_headers c) (c_params c))
        (\<lambda>auth. ok (wa_claims auth, wa_token auth))
      else and_then (or_return (app_error_response state)
          (from_request_parts crates verifier (c_now c) done_at (c_headers c)))
        (\<lambda>claims. ok (claims, [])))"

definition handle :: "('ks, 'k, 'd) oidc_crates \<Rightarrow> oidc_verifier \<Rightarrow> (string \<Rightarrow> response) \<Rightarrow> ('r, 'l, 'sc) app_state \<Rightarrow> nat \<Rightarrow>
    app_request \<Rightarrow> call \<Rightarrow> 'ks jwks_state \<Rightarrow> ('r, 'l) world \<Rightarrow> response \<times> 'ks jwks_state \<times> ('r, 'l) world" where
  "handle crates verifier redirect state done_at rq c cache w =
     (case authenticate crates verifier state done_at rq c cache of
        (Inl refusal, cache') \<Rightarrow> (response_layers (ov_resource verifier) refusal, cache', w)
      | (Inr (claims, token), cache') \<Rightarrow>
          (case dispatch redirect rq state c claims token w of
             (response, w') \<Rightarrow> (response_layers (ov_resource verifier) response, cache', w')))"

text \<open>
  A process serves its requests in some order, each with the key cache and the world the one
  before left; a request comes with the time its authentication is done.
\<close>

fun handle_all :: "('ks, 'k, 'd) oidc_crates \<Rightarrow> oidc_verifier \<Rightarrow> (string \<Rightarrow> response) \<Rightarrow> ('r, 'l, 'sc) app_state \<Rightarrow>
    (nat \<times> app_request \<times> call) list \<Rightarrow> 'ks jwks_state \<Rightarrow> ('r, 'l) world \<Rightarrow> response list \<times> 'ks jwks_state \<times> ('r, 'l) world" where
  "handle_all crates verifier redirect state [] cache w = ([], cache, w)"
| "handle_all crates verifier redirect state ((done_at, rq, c) # rqs) cache w =
     (case handle crates verifier redirect state done_at rq c cache w of
        (response, cache1, w1) \<Rightarrow>
          (case handle_all crates verifier redirect state rqs cache1 w1 of
             (responses, cache', w') \<Rightarrow> (response # responses, cache', w')))"

section \<open>The caller of a request\<close>

text \<open>
  The token a request presents where its extractor looks for one, and what it means that the
  claims are the verified contents of a token: at \<open>now\<close>, with a key the cache holds.
\<close>

definition request_token :: "app_request \<Rightarrow> call \<Rightarrow> string option" where
  "request_token rq c =
     presented_token (c_headers c) (if is_page rq then c_params c else [])"

definition verified_claims :: "('ks, 'k, 'd) oidc_crates \<Rightarrow> oidc_verifier \<Rightarrow> nat \<Rightarrow> string \<Rightarrow> 'ks jwks_state \<Rightarrow> claims \<Rightarrow> bool" where
  "verified_claims crates self now token cache claims \<longleftrightarrow>
     (\<exists>kid c t key d. decode_header crates token = Some (Some kid) \<and>
        cache = Some c \<and> t \<le> fetched_at c \<and> served_keys crates self t (cached_keys c) \<and>
        now < fetched_at c + JWKS_CACHE_TTL \<and>
        jwks_find crates (cached_keys c) kid = Some key \<and> from_jwk crates key = Some d \<and>
        jwt_decode crates token d (token_validation (ov_resource self)) = Some claims) \<and>
     json_get claims ''iss'' = Some (JStr (rs_issuer (ov_resource self))) \<and>
     (json_get claims ''aud'' = Some (JStr (rs_audience (ov_resource self))) \<or>
      (\<exists>as. json_get claims ''aud'' = Some (JArr as) \<and> JStr (rs_audience (ov_resource self)) \<in> set as)) \<and>
     json_get claims ''exp'' \<noteq> None"

lemma query_token_none [simp]: "query_token [] = None"
  by (simp add: query_token_def)

lemma authenticate_token:
  "authenticate crates self state done_at rq c cache =
     (case request_token rq c of
        None \<Rightarrow> (Inl (if is_page rq then html_response (bootstrap_page None)
            else app_error_response state unauthorized), cache)
      | Some token \<Rightarrow>
          (case decode_bearer_token crates self (c_now c) done_at token cache of
             (Inr claims, cache') \<Rightarrow> (Inr (claims, if is_page rq then token else []), cache')
           | (Inl err, cache') \<Rightarrow>
               (Inl (if is_page rq then rejected_page else app_error_response state err), cache')))"
proof (cases "is_page rq")
  case True
  then show ?thesis
    by (simp add: authenticate_def request_token_def web_from_request_parts_def presented_token_def Let_def
        run_simps split: option.splits prod.splits sum.splits)
next
  case False
  then show ?thesis
    by (cases "header_str (c_headers c) AUTHORIZATION"; cases "strip_prefix (the (header_str (c_headers c) AUTHORIZATION)) ''Bearer ''";
        cases "decode_bearer_token crates self (c_now c) done_at
          (the (strip_prefix (the (header_str (c_headers c) AUTHORIZATION)) ''Bearer '')) cache")
      (auto simp: authenticate_def request_token_def from_request_parts_def presented_token_def
        run_simps or_return_def split: sum.splits)
qed

lemma jwks_cache_ok:
  assumes "jwks crates self now done_at cache = (res, cache')" "cache_ok crates self cache" "now \<le> done_at"
  shows "cache_ok crates self cache'"
  using assms jwks_Inr [of crates self now done_at cache _ cache'] jwks_Inl [of crates self now done_at cache _ cache']
  by (cases res) auto

lemma decode_cache_ok:
  assumes "decode_bearer_token crates self now done_at token cache = (res, cache')"
    and "cache_ok crates self cache" "now \<le> done_at"
  shows "cache_ok crates self cache'"
  using assms jwks_cache_ok [OF _ assms(2,3)]
  by (auto simp: decode_bearer_token_def run_simps split: if_splits prod.splits sum.splits)

lemma decode_verified:
  assumes "mode_of (ov_settings self) \<noteq> MockMode" "jwt_documented crates" "cache_ok crates self cache" "now \<le> done_at"
    and "decode_bearer_token crates self now done_at token cache = (Inr claims, cache')"
  shows "verified_claims crates self now token cache' claims"
  using verified_token [OF assms(1-4), of "bearer_headers token"] assms(5)
  by (auto simp: verified_claims_def from_request_parts_token bearer_headers_str JWKS_CACHE_TTL_def)

section \<open>Who may change a row\<close>

text \<open>A page write issues one command of its caller too.\<close>

lemma web_perform_issues:
  assumes so: "service_over rp (as_crud state)" and cmd: "web_cmd rq = Inr cmd"
    and run: "web_perform rq state c owner cmd w = (res, w')"
  shows "w_repo w' = w_repo w \<or>
    (\<exists>rc. issues (path_id rq) owner cmd rc \<and> w_repo w' = exec_cmd rp (c_clock c) rc (w_repo w))"
proof -
  have shape: "(\<exists>d. cmd = WriteCreate d) \<or> (\<exists>i. path_id rq = Some i)"
    using cmd by (cases rq) (auto simp: and_then_r_Inr)
  obtain res' w1' where p: "perform state (json_call rq c) owner cmd w = (res', w1')" by force
  have same: "(case cmd of WriteDelete fs iu \<Rightarrow> WriteDelete fs (case cmd of WriteDelete _ b \<Rightarrow> b | _ \<Rightarrow> False) | _ \<Rightarrow> cmd) = cmd"
    by (cases cmd) simp_all
  have "w' = w1'"
    using web_perform_alike [OF so shape run, where res' = res' and w1' = w1' and
        iu' = "case cmd of WriteDelete _ b \<Rightarrow> b | _ \<Rightarrow> False"] p
    unfolding same by simp
  then show ?thesis using perform_issues [OF so p] by simp
qed

lemma serve_web_repo:
  assumes so: "service_over rp (as_crud state)" and run: "serve_web (redirect, token, rq) state c claims w = (res, w')"
    and changed: "w_repo w' \<noteq> w_repo w"
  shows "has_role state claims (web_roles rq) \<and> (\<exists>owner cmd rc. subject claims = Inr owner \<and>
     issues (path_id rq) owner cmd rc \<and> w_repo w' = exec_cmd rp (c_clock c) rc (w_repo w))"
  using service_overD(1) [OF so] run
proof (cases rule: web.runs)
  case (refused err)
  then show ?thesis using limiter_only_quiet changed by blast
next
  case (failed err owner p w1)
  have "w_repo w1 = w_repo w" using failed(2) limiter_only_quiet by blast
  moreover have "web_cmd rq = Inr p" using failed(4) by (cases "web_cmd rq") simp_all
  ultimately show ?thesis
    using failed(3,5,8) changed web_perform_issues [OF so, of rq p c owner w1 "Inl err" w']
    by (auto simp: role_gate_iff split: if_splits)
next
  case (wrote owner p out w1 w2)
  have "w_repo w1 = w_repo w" "w_repo w' = w_repo w2" using wrote(1,10) limiter_only_quiet by auto
  moreover have "web_cmd rq = Inr p" using wrote(3) by (cases "web_cmd rq") simp_all
  ultimately show ?thesis
    using wrote(2,4,7) changed web_perform_issues [OF so, of rq p c owner w1 "Inr out" w2]
    by (auto simp: role_gate_iff split: if_splits)
qed

text \<open>A read changes nothing, whichever router serves it.\<close>

lemma read_keeps_world:
  assumes "reads_keep (as_crud state)"
  shows "serve_read rd state c claims w = (res, w') \<Longrightarrow> w' = w"
    and "form_page state auth w = (res', w') \<Longrightarrow> w' = w"
proof -
  show "w' = w" if run: "serve_read rd state c claims w = (res, w')"
  proof -
    have "snd (read_lookup state c archived filters sorting (w_repo w)) = w_repo w" for archived filters sorting
      using assms by (simp add: reads_keep_def read_lookup_def)
    with run [unfolded serve_read_implements] show ?thesis
      by (cases rule: endpoint_read_runs) (metis snd_conv world.surjective world.update_convs(1))+
  qed
  show "w' = w" if "form_page state auth w = (res', w')"
  proof -
    have "snd (ca_list (as_crud state) 0 100 False False [] [] (w_repo w)) = w_repo w"
      using assms by (simp add: reads_keep_def)
    then show ?thesis
      using that by (auto simp: form_page_def Let_def run_simps on_repo_def split: sum.splits prod.splits)
  qed
qed

fun roles_of :: "app_request \<Rightarrow> string list" where
  "roles_of (ApiWrite rq) = required_roles rq"
| "roles_of (FormPost post) = web_roles post"
| "roles_of _ = HERO_READ_ROLES"

lemma dispatch_repo:
  assumes so: "service_over rp (as_crud state)" and run: "dispatch redirect rq state c claims token w = (resp, w')"
    and changed: "w_repo w' \<noteq> w_repo w"
  shows "has_role state claims (roles_of rq) \<and> (\<exists>qid owner cmd rc. subject claims = Inr owner \<and>
     issues qid owner cmd rc \<and> w_repo w' = exec_cmd rp (c_clock c) rc (w_repo w))"
proof (cases rq)
  case (ApiWrite q)
  then obtain res where "serve_write q state c claims w = (res, w')" using run by (auto split: prod.splits)
  with serve_write_repo [OF so this] serve_write_role [OF service_overD(1) [OF so] this changed] changed ApiWrite
  show ?thesis by auto
next
  case (FormPost post)
  then obtain res where "serve_web (redirect, token, post) state c claims w = (res, w')"
    using run by (auto split: prod.splits)
  with serve_web_repo [OF so this changed] FormPost show ?thesis by auto
qed (use run changed in \<open>auto split: prod.splits dest!: read_keeps_world [OF service_overD(1) [OF so]]\<close>)

context sql_engine
begin

lemma issued_rows:
  assumes "issues qid owner cmd rc"
  shows "within_owner owner (table d) (table (exec_cmd (sea_repository eng) clk rc d)) i"
proof -
  have "selects_owner (sea_selects holds)"
    using holds_owner by (auto simp: selects_owner_def sea_selects_def list_all_iff owner_clause_def condition_for_def
        column_for_def)
  then show ?thesis using sea.issued_within_owner [OF _ _ _ assms] by simp
qed

end

text \<open>One request that changed a row: whose it was.\<close>

definition rightful_change :: "('ks, 'k, 'd) oidc_crates \<Rightarrow> oidc_verifier \<Rightarrow> ('r, 'l, 'sc) app_state \<Rightarrow> app_request \<Rightarrow> call \<Rightarrow>
    'ks jwks_state \<Rightarrow> string \<Rightarrow> bool" where
  "rightful_change crates self state rq c cache' owner \<longleftrightarrow>
     (\<exists>token claims. request_token rq c = Some token \<and>
        verified_claims crates self (c_now c) token cache' claims \<and>
        has_role state claims (roles_of rq) \<and> subject claims = Inr owner)"

lemma handle_change:
  assumes "mode_of (ov_settings self) \<noteq> MockMode" "jwt_documented crates" "cache_ok crates self cache" "c_now c \<le> done_at"
    and eng: "sql_engine eng table holds" and so: "service_over (sea_repository eng) (as_crud state)"
    and run: "handle crates self redirect state done_at rq c cache w = (resp, cache', w')"
  shows "w_repo w' = w_repo w \<or> (\<exists>owner. rightful_change crates self state rq c cache' owner \<and>
      within_owner owner (table (w_repo w)) (table (w_repo w')) i)"
proof (cases "w_repo w' = w_repo w")
  case False
  obtain token claims tok out where t: "request_token rq c = Some token"
      "decode_bearer_token crates self (c_now c) done_at token cache = (Inr claims, cache')"
      "dispatch redirect rq state c claims tok w = (out, w')"
    using run False
    by (auto simp: handle_def authenticate_token split: option.splits prod.splits sum.splits)
  obtain qid owner cmd rc where o: "has_role state claims (roles_of rq)" "subject claims = Inr owner"
      "issues qid owner cmd rc" "w_repo w' = exec_cmd (sea_repository eng) (c_clock c) rc (w_repo w)"
    using dispatch_repo [OF so t(3) False] by blast
  have "rightful_change crates self state rq c cache' owner"
    unfolding rightful_change_def using t(1) decode_verified [OF assms(1-4) t(2)] o(1,2) by blast
  moreover have "within_owner owner (table (w_repo w)) (table (w_repo w')) i"
    unfolding o(4) by (rule sql_engine.issued_rows [OF eng o(3)])
  ultimately show ?thesis by blast
qed simp

lemma handle_cache_ok:
  assumes "handle crates self redirect state done_at rq c cache w = (resp, cache', w')"
    and "cache_ok crates self cache" "c_now c \<le> done_at"
  shows "cache_ok crates self cache'"
  using assms(1,2) decode_cache_ok [OF _ assms(2,3)]
  by (auto simp: handle_def authenticate_token split: option.splits prod.splits sum.splits)

text \<open>
  C1. In a process that was started outside mock mode, a request by any route that changes a row of
  the table presented a token whose signature jsonwebtoken verified with a key of the provider and
  whose issuer and audience are the configured ones; its claims have a role the route asks for; and
  the row was a live row of the token's subject, or is a new live one of the subject.
\<close>

theorem only_verified_owner_changes_rows:
  assumes "main ccrates env cn now t1 t2 = Running p" and "env ''MODE'' \<noteq> Present ''mock''"
    and "jwt_documented crates" and "cache_ok crates (aw_oidc (ps_wiring p)) cache" and "c_now c \<le> done_at"
    and "sql_engine eng table holds" and "service_over (sea_repository eng) (as_crud state)"
    and "handle crates (aw_oidc (ps_wiring p)) redirect state done_at rq c cache w = (resp, cache', w')"
    and "table (w_repo w') i \<noteq> table (w_repo w) i"
  shows "aw_repository (ps_wiring p) = SeaOrmRepository \<and>
    (\<exists>owner. rightful_change crates (aw_oidc (ps_wiring p)) state rq c cache' owner \<and>
      (case table (w_repo w) i of
         Some h \<Rightarrow> live h \<and> h_owner_id h = owner \<and>
           (\<exists>h'. table (w_repo w') i = Some h' \<and> same_identity h h')
       | None \<Rightarrow> (\<exists>h'. table (w_repo w') i = Some h' \<and> live h' \<and> h_owner_id h' = owner)))"
proof -
  have "mode_of (ps_settings p) \<noteq> MockMode"
    using mock_mode_named [OF main_Running(1) [OF assms(1)]] assms(2) by simp
  moreover have "ov_settings (aw_oidc (ps_wiring p)) = ps_settings p"
    using main_Running(3) [OF assms(1)] by (auto simp: with_resource_server_def)
  ultimately show ?thesis
    using handle_change [OF _ assms(3-8), of i] main_Running(4) [OF assms(1)] assms(9)
    by (auto simp: within_owner_def split: option.splits)
qed

lemma running_verifier:
  assumes "main ccrates env cn now t1 t2 = Running p" and "env ''MODE'' \<noteq> Present ''mock''"
  shows "mode_of (ov_settings (aw_oidc (ps_wiring p))) \<noteq> MockMode"
  using mock_mode_named [OF main_Running(1) [OF assms(1)]] main_Running(3) [OF assms(1)] assms(2)
  by (auto simp: with_resource_server_def)

lemma handle_all_row:
  assumes "mode_of (ov_settings self) \<noteq> MockMode" "jwt_documented crates"
    and eng: "sql_engine eng table holds" and so: "service_over (sea_repository eng) (as_crud state)"
    and "list_all (\<lambda>(done_at, rq, c). c_now c \<le> done_at) rqs" "cache_ok crates self cache"
    and "handle_all crates self redirect state rqs cache w = (resps, cache', w')"
    and "table (w_repo w) i = Some h"
  shows "\<exists>h'. table (w_repo w') i = Some h' \<and> same_identity h h' \<and>
    (h' = h \<or> (live h \<and> (\<exists>done_at rq c cache1. (done_at, rq, c) \<in> set rqs \<and>
        rightful_change crates self state rq c cache1 (h_owner_id h))))"
  using assms(5-8)
proof (induction rqs arbitrary: cache w resps h)
  case Nil
  then show ?case by (simp add: same_identity_def)
next
  case (Cons r rqs)
  obtain done_at rq c where r: "r = (done_at, rq, c)" by (cases r)
  obtain resp cache1 w1 rest where one: "handle crates self redirect state done_at rq c cache w = (resp, cache1, w1)"
      and more: "handle_all crates self redirect state rqs cache1 w1 = (rest, cache', w')"
    using Cons.prems(3) by (auto simp: r split: prod.splits)
  have now: "c_now c \<le> done_at" "list_all (\<lambda>(done_at, rq, c). c_now c \<le> done_at) rqs"
    using Cons.prems(1) by (simp_all add: r)
  obtain h1 where h1: "table (w_repo w1) i = Some h1" "same_identity h h1"
      "h1 = h \<or> (live h \<and> rightful_change crates self state rq c cache1 (h_owner_id h))"
    using handle_change [OF assms(1,2) Cons.prems(2) now(1) eng so one, of i] Cons.prems(4)
    by (auto simp: within_owner_def same_identity_def)
  obtain h' where h': "table (w_repo w') i = Some h'" "same_identity h1 h'"
      "h' = h1 \<or> (live h1 \<and> (\<exists>done_at rq c cache1. (done_at, rq, c) \<in> set rqs \<and>
        rightful_change crates self state rq c cache1 (h_owner_id h1)))"
    using Cons.IH [OF now(2) handle_cache_ok [OF one Cons.prems(2) now(1)] more h1(1)] by blast
  have "h_owner_id h1 = h_owner_id h" "same_identity h h'"
    using h1(2) h'(2) by (auto simp: same_identity_def)
  with h1 h' show ?case unfolding r by auto
qed

text \<open>
  C2. Over any sequence of requests a process serves from its start on, a row keeps its id, owner and
  creation time and never disappears; an archived row never changes again; and a live row changes
  only if one of the requests presented a verified token of the row's owner, with a role its route
  asks for.
\<close>

theorem rows_are_their_owners:
  assumes "main ccrates env cn now t1 t2 = Running p" and "env ''MODE'' \<noteq> Present ''mock''"
    and "jwt_documented crates" and "sql_engine eng table holds"
    and "service_over (sea_repository eng) (as_crud state)"
    and "list_all (\<lambda>(done_at, rq, c). c_now c \<le> done_at) rqs"
    and "handle_all crates (aw_oidc (ps_wiring p)) redirect state rqs None w = (resps, cache', w')"
    and "table (w_repo w) i = Some h"
  shows "\<exists>h'. table (w_repo w') i = Some h' \<and> same_identity h h' \<and>
    (h' = h \<or> (live h \<and> (\<exists>done_at rq c cache1. (done_at, rq, c) \<in> set rqs \<and>
        rightful_change crates (aw_oidc (ps_wiring p)) state rq c cache1 (h_owner_id h))))"
  using handle_all_row [OF running_verifier [OF assms(1,2)] assms(3-6) _ assms(7,8)]
  by (simp add: cache_ok_def)

section \<open>Refused requests\<close>

text \<open>
  C31. A request that does not authenticate changes nothing and reaches no handler. On the API it is
  answered 401, or 503 when the provider is out of reach; on a page, with the page that asks for a
  token when it presented none, and else with the 401 page. The answer carries the security headers
  like any other, and every 401 has a challenge, which names the token as the culprit on the API
  only if one was presented.
\<close>

theorem refused_requests_change_nothing:
  assumes "main ccrates env cn now t1 t2 = Running p"
    and "authenticate crates (aw_oidc (ps_wiring p)) state done_at rq c cache = (Inl refusal, cache')"
  shows "\<exists>resp. handle crates (aw_oidc (ps_wiring p)) redirect state done_at rq c cache w = (resp, cache', w) \<and>
    r_status resp \<in> (if is_page rq then (if request_token rq c = None then {200} else {401}) else
      (if request_token rq c = None then {401} else {401, 503})) \<and>
    list_all (\<lambda>(name, hv). header_of resp name = Some hv) SECURITY_HEADERS \<and>
    (r_status resp = 401 \<longrightarrow> header_of resp www_authenticate =
       Some (''Bearer resource_metadata='' @ [CHR 0x22] @ rs_public_base_url (ov_resource (aw_oidc (ps_wiring p))) @
         ''/.well-known/oauth-protected-resource'' @ [CHR 0x22] @
         (if is_page rq \<or> request_token rq c = None then [] else '', error='' @ [CHR 0x22] @ ''invalid_token'' @ [CHR 0x22])))"
proof -
  have "(\<exists>token err. request_token rq c = Some token \<and> (err = invalid \<or> err = unavailable) \<and>
        refusal = (if is_page rq then rejected_page else app_error_response state err)) \<or>
      (request_token rq c = None \<and>
        refusal = (if is_page rq then html_response (bootstrap_page None) else app_error_response state unauthorized))"
    using assms(2) decode_bearer_token_Inl
    by (fastforce simp: authenticate_token split: option.splits prod.splits sum.splits)
  then have "r_status refusal \<in> (if is_page rq then (if request_token rq c = None then {200} else {401}) else
        (if request_token rq c = None then {401} else {401, 503})) \<and>
      (r_status refusal = 401 \<longrightarrow> r_rejected refusal = (\<not> is_page rq \<and> request_token rq c \<noteq> None))"
    by (auto simp: rejected_page_def html_response_def text_response_def with_status_def app_error_response_def
        invalid_def unavailable_def unauthorized_def into_response_rejected is_invalid_token_def)
  with layers_harden [OF assms(1), of refusal] assms(2) show ?thesis
    by (simp add: handle_def)
qed

section \<open>A process over the reference engine\<close>

text \<open>A provider that answers every issuer and signs one token, for \<open>alice\<close> as a maintainer.\<close>

definition sample_provider :: "(string list, string, string) oidc_crates" where
  "sample_provider = sample_oidc_crates
     \<lparr>http_get := \<lambda>t url. HttpResponse 200 ''keys'',
      jwt_decode := (\<lambda>token d v.
        if token = ''good'' \<and> v_issuers v \<noteq> [] \<and> v_audiences v \<noteq> [] \<and>
           list_all (\<lambda>k. k = ''exp'' \<or> k = ''iss'' \<or> k = ''aud'') (v_required v)
        then Some (JObj [(''iss'', JStr (hd (v_issuers v))), (''aud'', JStr (hd (v_audiences v))),
          (''exp'', JInt 1), (''sub'', JStr ''alice''),
          (''resource_access'', JObj [(''api'', JObj [(''roles'', JArr [JStr ''maintainer''])])])])
        else None)\<rparr>"

definition sample_db_state :: "(ref_db, sample_server, bool) app_state" where
  "sample_db_state =
     \<lparr>as_settings = sample_settings Dev,
      as_crud = crud_over (sea_repository ref_engine) (sea_get ref_engine) (sea_list ref_engine),
      as_redis = sample_commands, as_xml = sample_xml, as_http_date = (\<lambda>t. [])\<rparr>"

definition sample_db_world :: "(ref_db, sample_server) world" where
  "sample_db_world = \<lparr>w_repo = sample_db, w_limiter = Mock Map.empty, w_events = [], w_tracked = []\<rparr>"

definition sample_redirect :: "string \<Rightarrow> response" where
  "sample_redirect uri = set_header ''location'' uri (status_response 303)"

definition sample_removal :: "nat \<times> app_request \<times> call" where
  "sample_removal = (9, FormPost (FormDelete 1), sample_call None [] (bearer_headers ''good''))"

lemma sample_db_service: "service_over (sea_repository ref_engine) (as_crud sample_db_state)"
  by (simp add: sample_db_state_def crud_over_service)

lemma sample_provider_documented: "jwt_documented sample_provider"
  by (auto simp: jwt_documented_def sample_provider_def list_all_iff split: if_splits)

lemma sample_db_deleted:
  "ref_table (snd (sea_delete ref_engine (\<lambda>n. 30) 1 ''alice'' sample_db)) 1 =
     Some ((sample_hero 1 ''Spectra'' ''alice'' None)\<lparr>h_archived_at := Some 30, h_updated_at := 30\<rparr>)"
  "ref_table (snd (sea_delete ref_engine (\<lambda>n. 30) 1 ''alice'' sample_db)) 2 =
     Some (sample_hero 2 ''Vapor'' ''bob'' (Some 20))"
  unfolding sample_db_delete
  by (simp_all add: ref_table_def ref_valid_def sample_hero_def bt_sorted_def)

lemma sample_provider_accepts:
  assumes "mode_of (ov_settings self) \<noteq> MockMode"
  shows "\<exists>claims. decode_bearer_token sample_provider self 5 9 ''good'' None =
      (Inr claims, Some \<lparr>fetched_at = 9, cached_keys = [''k1'']\<rparr>) \<and>
    subject claims = Inr ''alice'' \<and> granted_roles claims ''api'' = [''maintainer'']"
  using assms
  by (simp add: decode_bearer_token_def run_simps jwks_def get_json_def sample_provider_def sample_oidc_crates_def
      token_validation_def subject_def granted_roles_def filter_map_def)

lemma sample_removal_run:
  assumes "mode_of (ov_settings self) \<noteq> MockMode"
  shows "\<exists>resp cache' w'. handle sample_provider self sample_redirect sample_db_state 9 (FormPost (FormDelete 1))
      (sample_call None [] (bearer_headers ''good'')) None sample_db_world = (resp, cache', w') \<and>
    ref_table (w_repo w') 1 =
      Some ((sample_hero 1 ''Spectra'' ''alice'' None)\<lparr>h_archived_at := Some 30, h_updated_at := 30\<rparr>) \<and>
    ref_table (w_repo w') 2 = Some (sample_hero 2 ''Vapor'' ''bob'' (Some 20))"
proof -
  let ?c = "sample_call None [] (bearer_headers ''good'')"
  obtain claims cache' where who: "decode_bearer_token sample_provider self 5 9 ''good'' None = (Inr claims, cache')"
      "subject claims = Inr ''alice''" "granted_roles claims ''api'' = [''maintainer'']"
    using sample_provider_accepts [OF assms] by blast
  have token: "request_token (FormPost (FormDelete 1)) ?c = Some ''good''"
    using strip_prefix_append [of "''Bearer ''" "''good''"]
    by (simp add: request_token_def presented_token_def bearer_headers_str del: append_Cons append_Nil)
  have now: "c_now ?c = 5" and clk: "c_clock ?c = (\<lambda>n. 30)" by (simp_all add: sample_call_def)
  have auth: "authenticate sample_provider self sample_db_state 9 (FormPost (FormDelete 1)) ?c None =
      (Inr (claims, ''good''), cache')"
    by (simp add: authenticate_token token now who)
  obtain l where l: "check_write_rate sample_db_state ?c sample_db_world = (Inr (), sample_db_world\<lparr>w_limiter := l\<rparr>)"
    by (simp add: check_write_rate_def run_simps check_def count_hit_def mock_count_def sample_db_world_def
      nanos_def word_less_def Let_def sample_db_state_def)
  have gate: "require_any_role claims (oidc_client_id (as_settings sample_db_state)) HERO_DELETE_ROLES = Inr ()"
    by (simp add: sample_db_state_def require_any_role_iff who HERO_DELETE_ROLES_def)
  have del: "ca_resolve_delete (as_crud sample_db_state) (\<lambda>n. 30) (Some 1) ''alice'' [] mx True sample_db =
      (Inr DeletedOne, snd (sea_delete ref_engine (\<lambda>n. 30) 1 ''alice'' sample_db))" for mx
    by (simp add: sample_db_state_def crud_over_def sea_repository_def sample_db_delete gone_or_none_def one_answer_def)
  have repo: "w_repo sample_db_world = sample_db" by (simp add: sample_db_world_def)
  show ?thesis
    using auth
    by (simp add: handle_def delete_web_def Let_def run_simps on_repo_def l gate who clk del repo publish_def
        sample_db_deleted)
qed

lemma sample_process:
  "\<exists>p. main sample_config_crates sample_running_env (sample_connections True) 0 1 2 = Running p"
  "sample_running_env ''MODE'' \<noteq> Present ''mock''"
  using sample_start(1) by (auto simp: sample_running_env_def sample_production_env_def sample_env_def)

theorem only_verified_owner_changes_rows_witness:
  "\<exists>p resp cache' w'. main sample_config_crates sample_running_env (sample_connections True) 0 1 2 = Running p \<and>
     handle sample_provider (aw_oidc (ps_wiring p)) sample_redirect sample_db_state 9 (FormPost (FormDelete 1))
       (sample_call None [] (bearer_headers ''good'')) None sample_db_world = (resp, cache', w') \<and>
     ref_table (w_repo w') 1 \<noteq> ref_table (w_repo sample_db_world) 1 \<and>
     rightful_change sample_provider (aw_oidc (ps_wiring p)) sample_db_state (FormPost (FormDelete 1))
       (sample_call None [] (bearer_headers ''good'')) cache' ''alice''"
proof -
  obtain p where p: "main sample_config_crates sample_running_env (sample_connections True) 0 1 2 = Running p"
    using sample_process(1) by blast
  let ?v = "aw_oidc (ps_wiring p)"
  obtain resp cache' w' where run: "handle sample_provider ?v sample_redirect sample_db_state 9
      (FormPost (FormDelete 1)) (sample_call None [] (bearer_headers ''good'')) None sample_db_world = (resp, cache', w')"
    and row: "ref_table (w_repo w') 1 =
      Some ((sample_hero 1 ''Spectra'' ''alice'' None)\<lparr>h_archived_at := Some 30, h_updated_at := 30\<rparr>)"
    using sample_removal_run [OF running_verifier [OF p sample_process(2)]] by blast
  have before: "ref_table (w_repo sample_db_world) 1 = Some (sample_hero 1 ''Spectra'' ''alice'' None)"
    by (simp add: sample_db_world_def sample_db_rows)
  have changed: "ref_table (w_repo w') 1 \<noteq> ref_table (w_repo sample_db_world) 1"
    unfolding row before by (simp add: sample_hero_def)
  have start: "cache_ok sample_provider ?v None" "c_now (sample_call None [] (bearer_headers ''good'')) \<le> 9"
    by (simp_all add: cache_ok_def sample_call_def)
  have "rightful_change sample_provider ?v sample_db_state (FormPost (FormDelete 1))
      (sample_call None [] (bearer_headers ''good'')) cache' ''alice''"
    using only_verified_owner_changes_rows [OF p sample_process(2) sample_provider_documented start
        ref.sql_engine_axioms sample_db_service run changed] before
    by (auto simp: sample_hero_def)
  with p run changed show ?thesis by blast
qed

theorem rows_are_their_owners_witness:
  "\<exists>p resps cache' w'. main sample_config_crates sample_running_env (sample_connections True) 0 1 2 = Running p \<and>
     handle_all sample_provider (aw_oidc (ps_wiring p)) sample_redirect sample_db_state
       [sample_removal, (7, FormGet, sample_call None [] [])] None sample_db_world = (resps, cache', w') \<and>
     ref_table (w_repo w') 2 = Some (sample_hero 2 ''Vapor'' ''bob'' (Some 20))"
proof -
  obtain p where p: "main sample_config_crates sample_running_env (sample_connections True) 0 1 2 = Running p"
    using sample_process(1) by blast
  obtain resps cache' w' where run: "handle_all sample_provider (aw_oidc (ps_wiring p)) sample_redirect sample_db_state
      [sample_removal, (7, FormGet, sample_call None [] [])] None sample_db_world = (resps, cache', w')"
    by (metis prod_cases3)
  have row: "ref_table (w_repo sample_db_world) 2 = Some (sample_hero 2 ''Vapor'' ''bob'' (Some 20))"
    by (simp add: sample_db_world_def sample_db_rows)
  have times: "list_all (\<lambda>(done_at, rq, c). c_now c \<le> done_at) [sample_removal, (7, FormGet, sample_call None [] [])]"
    by (simp add: sample_removal_def sample_call_def)
  show ?thesis
    using rows_are_their_owners [OF p sample_process(2) sample_provider_documented ref.sql_engine_axioms
        sample_db_service times run row] p run
    by (auto simp: live_def sample_hero_def)
qed

theorem refused_requests_change_nothing_witness:
  "\<exists>p resp. main sample_config_crates sample_running_env (sample_connections True) 0 1 2 = Running p \<and>
     handle sample_provider (aw_oidc (ps_wiring p)) sample_redirect sample_db_state 9 (ApiWrite (ViaJson Remove))
       (sample_call (Some 1) [] []) None sample_db_world = (resp, None, sample_db_world) \<and> r_status resp = 401"
proof -
  obtain p where p: "main sample_config_crates sample_running_env (sample_connections True) 0 1 2 = Running p"
    using sample_process(1) by blast
  have none: "request_token (ApiWrite (ViaJson Remove)) (sample_call (Some 1) [] []) = None"
    by (simp add: request_token_def presented_token_def header_str_def header_lookup_def)
  then have "authenticate sample_provider (aw_oidc (ps_wiring p)) sample_db_state 9 (ApiWrite (ViaJson Remove))
      (sample_call (Some 1) [] []) None = (Inl (app_error_response sample_db_state unauthorized), None)"
    by (simp add: authenticate_token)
  from refused_requests_change_nothing [OF p this, of sample_redirect sample_db_world] p none show ?thesis
    by auto
qed

end
