(* ===== verification/Concurrent_Requests.thy ===== *)
theory Concurrent_Requests
  imports Application
begin

text \<open>
  Requests in flight. A handler is an \<open>async fn\<close>: at every \<open>await\<close> another request may run. The
  handlers of the other theories run from start to end; here an authenticated request is a sequence
  of steps between its awaits, and a schedule says whose step comes next. One call of the rate
  limiter, of the crate's service and of the event bus is one step, as each is one Lua script, one
  statement (or one critical section of the in-memory map) and one message. A request left alone
  does what its handler does; under any schedule the repository has gone through one command per
  writing request, each within its caller's rights.
\<close>

section \<open>The steps of a request\<close>

record flight =
  fl_request :: app_request
  fl_call :: call
  fl_claims :: claims
  fl_token :: string

datatype phase =
    Arrived
  | Admitted string write_cmd
  | Checked string write_cmd
  | Written written
  | Answered response

text \<open>A write: limiter and gates, precondition, the write, its announcement.\<close>

fun write_step :: "(app_error \<Rightarrow> 'e) \<Rightarrow> ('e + response \<Rightarrow> response) \<Rightarrow> ('r, 'l, 'sc) app_state \<Rightarrow> call \<Rightarrow> claims \<Rightarrow>
    ('r, 'l, 'e, write_cmd, written) write_steps \<Rightarrow> phase \<Rightarrow> ('r, 'l) world \<Rightarrow> phase \<times> ('r, 'l) world" where
  "write_step g answer state c claims ws Arrived w =
     (case check_write_rate state c w of
        (Inl err, w') \<Rightarrow> (Answered (answer (Inl (g err))), w')
      | (Inr _, w') \<Rightarrow>
          (case and_then_r (map_err g (role_gate state claims (ws_roles ws))) (\<lambda>_.
                and_then_r (ws_prepare ws) (\<lambda>p.
                and_then_r (map_err g (subject claims)) (\<lambda>owner_id. Inr (Admitted owner_id p)))) of
             Inl err \<Rightarrow> (Answered (answer (Inl err)), w')
           | Inr ph \<Rightarrow> (ph, w')))"
| "write_step g answer state c claims ws (Admitted owner_id p) w =
     (case ws_precondition ws w of
        (Inl err, w') \<Rightarrow> (Answered (answer (Inl err)), w')
      | (Inr _, w') \<Rightarrow> (Checked owner_id p, w'))"
| "write_step g answer state c claims ws (Checked owner_id p) w =
     (case ws_perform ws owner_id p w of
        (Inl err, w') \<Rightarrow> (Answered (answer (Inl err)), w')
      | (Inr out, w') \<Rightarrow> (Written out, w'))"
| "write_step g answer state c claims ws (Written out) w =
     (case and_then (publish HERO_EVENT_RESOURCE (fst (ws_announce ws out)) (snd (ws_announce ws out)))
            (\<lambda>_. ws_track ws out) w of
        (Inl err, w') \<Rightarrow> (Answered (answer (Inl err)), w')
      | (Inr _, w') \<Rightarrow> (Answered (answer (ws_respond ws out)), w'))"
| "write_step g answer state c claims ws (Answered response) w = (Answered response, w)"

text \<open>A read is one step: its one call reads, and nothing it does after that is shared.\<close>

definition flight_step :: "(string \<Rightarrow> response) \<Rightarrow> ('r, 'l, 'sc) app_state \<Rightarrow> flight \<Rightarrow> phase \<Rightarrow> ('r, 'l) world \<Rightarrow>
    phase \<times> ('r, 'l) world" where
  "flight_step redirect state fl ph w =
     (let c = fl_call fl; claims = fl_claims fl in
      case fl_request fl of
        ApiWrite rq \<Rightarrow> write_step (\<lambda>e. e) (render_error state) state c claims (api_steps rq state c) ph w
      | FormPost post \<Rightarrow>
          write_step (app_error_response state) either_response state c claims
            (web_steps (redirect, fl_token fl, post) state c) ph w
      | rq \<Rightarrow>
          (case ph of
             Answered response \<Rightarrow> (ph, w)
           | _ \<Rightarrow> (case dispatch redirect rq state c claims (fl_token fl) w of
                    (response, w') \<Rightarrow> (Answered response, w'))))"

fun run_schedule :: "(string \<Rightarrow> response) \<Rightarrow> ('r, 'l, 'sc) app_state \<Rightarrow> flight list \<Rightarrow> nat list \<Rightarrow>
    phase list \<times> ('r, 'l) world \<Rightarrow> phase list \<times> ('r, 'l) world" where
  "run_schedule redirect state fls [] s = s"
| "run_schedule redirect state fls (i # schedule) (phs, w) =
     run_schedule redirect state fls schedule
       (if i < length fls
        then (case flight_step redirect state (fls ! i) (phs ! i) w of (ph, w') \<Rightarrow> (phs[i := ph], w'))
        else (phs, w))"

section \<open>Alone, a request is its handler\<close>

lemma write_step_whole:
  assumes "(ph1, w1) = write_step g answer state c claims ws Arrived w"
    and "(ph2, w2) = write_step g answer state c claims ws ph1 w1"
    and "(ph3, w3) = write_step g answer state c claims ws ph2 w2"
    and "(ph4, w4) = write_step g answer state c claims ws ph3 w3"
  shows "(ph4, w4) = (case write_pipeline g state c claims ws w of (res, w') \<Rightarrow> (Answered (answer res), w'))"
proof (cases "check_write_rate state c w")
  case limit: (Pair lr wa)
  show ?thesis
  proof (cases "\<exists>u. lr = Inr u \<and> role_gate state claims (ws_roles ws) = Inr () \<and> (\<exists>p owner. ws_prepare ws = Inr p \<and> subject claims = Inr owner)")
    case False
    then show ?thesis
      using assms limit
      by (cases lr; cases "role_gate state claims (ws_roles ws)"; cases "ws_prepare ws"; cases "subject claims")
        (auto simp: write_pipeline_def run_simps and_then_r_def or_return_def)
  next
    case True
    then obtain p owner where on: "lr = Inr ()" "role_gate state claims (ws_roles ws) = Inr ()"
        "ws_prepare ws = Inr p" "subject claims = Inr owner" by auto
    show ?thesis
      using assms limit on
      by (cases "ws_precondition ws wa"; cases "fst (ws_precondition ws wa)";
          cases "ws_perform ws owner p (snd (ws_precondition ws wa))";
          cases "fst (ws_perform ws owner p (snd (ws_precondition ws wa)))")
        (auto simp: write_pipeline_def run_simps and_then_r_def or_return_def split: prod.splits sum.splits)
  qed
qed

lemma flight_step_writes:
  "fl_request fl = ApiWrite rq \<Longrightarrow> flight_step redirect state fl =
     write_step (\<lambda>e. e) (render_error state) state (fl_call fl) (fl_claims fl) (api_steps rq state (fl_call fl))"
  "fl_request fl = FormPost post \<Longrightarrow> flight_step redirect state fl =
     write_step (app_error_response state) either_response state (fl_call fl) (fl_claims fl)
       (web_steps (redirect, fl_token fl, post) state (fl_call fl))"
  by (simp_all add: flight_step_def Let_def fun_eq_iff del: write_step.simps)

lemma flight_whole:
  assumes "(ph1, w1) = flight_step redirect state fl Arrived w"
    and "(ph2, w2) = flight_step redirect state fl ph1 w1"
    and "(ph3, w3) = flight_step redirect state fl ph2 w2"
    and "(ph4, w4) = flight_step redirect state fl ph3 w3"
  shows "(ph4, w4) = (case dispatch redirect (fl_request fl) state (fl_call fl) (fl_claims fl) (fl_token fl) w of
     (response, w') \<Rightarrow> (Answered response, w'))"
proof (cases "fl_request fl")
  case (ApiWrite rq)
  then show ?thesis
    using write_step_whole [OF assms [unfolded flight_step_writes(1) [OF ApiWrite]]]
    by (simp add: serve_write_implements split: prod.splits)
next
  case (FormPost post)
  then show ?thesis
    using write_step_whole [OF assms [unfolded flight_step_writes(2) [OF FormPost]]]
    by (simp add: web_implements del: serve_web.simps web_steps.simps split: prod.splits)
qed (use assms in \<open>auto simp: flight_step_def split: prod.splits\<close>)

text \<open>
  C12. A request no other request gets in between of does in its steps what its handler does from
  start to end, with the same answer, whatever else is in flight.
\<close>

theorem uninterrupted_is_sequential:
  assumes "i < length fls" and "length phs = length fls" and "phs ! i = Arrived"
    and "dispatch redirect (fl_request (fls ! i)) state (fl_call (fls ! i)) (fl_claims (fls ! i))
      (fl_token (fls ! i)) w = (response, w')"
  shows "run_schedule redirect state fls [i, i, i, i] (phs, w) = (phs[i := Answered response], w')"
proof -
  obtain ph1 w1 ph2 w2 ph3 w3 ph4 w4 where s:
      "flight_step redirect state (fls ! i) Arrived w = (ph1, w1)"
      "flight_step redirect state (fls ! i) ph1 w1 = (ph2, w2)"
      "flight_step redirect state (fls ! i) ph2 w2 = (ph3, w3)"
      "flight_step redirect state (fls ! i) ph3 w3 = (ph4, w4)" by (metis surj_pair)
  have "ph4 = Answered response" "w4 = w'"
    using flight_whole [OF s [symmetric]] assms(4) by simp_all
  then show ?thesis using assms(1-3) s by simp
qed

section \<open>Under any schedule\<close>

fun target_id :: "flight \<Rightarrow> int option" where
  "target_id fl = (case fl_request fl of
     ApiWrite _ \<Rightarrow> hq_id (c_query (fl_call fl)) | FormPost post \<Rightarrow> path_id post | _ \<Rightarrow> None)"

text \<open>A repository command within the rights of the request's caller.\<close>

definition permitted :: "('r, 'l, 'sc) app_state \<Rightarrow> flight \<Rightarrow> repo_cmd \<Rightarrow> bool" where
  "permitted state fl rc \<longleftrightarrow>
     has_role state (fl_claims fl) (roles_of (fl_request fl)) \<and>
     (\<exists>owner cmd. subject (fl_claims fl) = Inr owner \<and> issues (target_id fl) owner cmd rc)"

fun going :: "phase \<Rightarrow> (string \<times> write_cmd) option" where
  "going (Admitted owner_id p) = Some (owner_id, p)"
| "going (Checked owner_id p) = Some (owner_id, p)"
| "going _ = None"

fun past_write :: "phase \<Rightarrow> bool" where
  "past_write (Written out) = True"
| "past_write (Answered response) = True"
| "past_write _ = False"

definition phase_ok :: "('r, 'l, 'sc) app_state \<Rightarrow> flight \<Rightarrow> phase \<Rightarrow> bool" where
  "phase_ok state fl ph = (case going ph of
     None \<Rightarrow> True
   | Some (owner_id, p) \<Rightarrow>
       has_role state (fl_claims fl) (roles_of (fl_request fl)) \<and> subject (fl_claims fl) = Inr owner_id \<and>
       (case fl_request fl of ApiWrite _ \<Rightarrow> True | FormPost post \<Rightarrow> web_cmd post = Inr p | _ \<Rightarrow> False))"

text \<open>What one step of a write does, in terms of the phase it starts in.\<close>

definition lawful_step :: "('r, 'l, 'sc) app_state \<Rightarrow> claims \<Rightarrow> ('r, 'l, 'e, write_cmd, written) write_steps \<Rightarrow>
    phase \<Rightarrow> ('r, 'l) world \<Rightarrow> phase \<Rightarrow> ('r, 'l) world \<Rightarrow> bool" where
  "lawful_step state claims ws ph w ph' w' \<longleftrightarrow>
     (past_write ph \<longrightarrow> past_write ph') \<and>
     (going ph' \<noteq> None \<longrightarrow> going ph' = going ph \<or> (ph = Arrived \<and> (\<exists>owner p. ph' = Admitted owner p \<and>
        subject claims = Inr owner \<and> ws_prepare ws = Inr p \<and> role_gate state claims (ws_roles ws) = Inr ()))) \<and>
     (w_repo w' = w_repo w \<or> (\<exists>owner p res. ph = Checked owner p \<and> past_write ph' \<and>
        ws_perform ws owner p w = (res, w'))) \<and>
     (w_events w' = w_events w \<or> (\<exists>out. ph = Written out \<and> (\<exists>response. ph' = Answered response) \<and>
        w_events w' = w_events w @ [\<lparr>ev_resource = HERO_EVENT_RESOURCE, ev_action = fst (ws_announce ws out),
          ev_ids = snd (ws_announce ws out)\<rparr>]))"

lemma write_step_laws:
  assumes "write_step g answer state c claims ws ph w = (ph', w')"
    and pre: "\<And>w. snd (ws_precondition ws w) = w"
    and track: "\<And>out w. \<exists>ts. ws_track ws out w = (Inr (), w\<lparr>w_tracked := w_tracked w @ ts\<rparr>)"
    and perf: "\<And>owner p res w w'. ws_perform ws owner p w = (res, w') \<Longrightarrow> w' = w\<lparr>w_repo := w_repo w'\<rparr>"
  shows "lawful_step state claims ws ph w ph' w'"
proof (cases ph)
  case Arrived
  obtain lr wa where limit: "check_write_rate state c w = (lr, wa)" by force
  then have "limiter_only w wa" by (rule check_write_rate_limiter)
  then have quiet: "w_repo wa = w_repo w" "w_events wa = w_events w" using limiter_only_quiet by (auto simp: quiet_def)
  then show ?thesis
    using assms(1) limit Arrived
    by (cases lr; cases "role_gate state claims (ws_roles ws)"; cases "ws_prepare ws"; cases "subject claims")
      (auto simp: and_then_r_def lawful_step_def)
next
  case (Admitted owner p)
  then show ?thesis
    using assms(1) pre [of w] by (auto simp: lawful_step_def split: prod.splits sum.splits)
next
  case (Checked owner p)
  obtain res w1 where op: "ws_perform ws owner p w = (res, w1)" by force
  have "w_events w1 = w_events w" by (subst perf [OF op]) simp
  then show ?thesis
    using assms(1) Checked op by (cases res) (auto simp: lawful_step_def)
next
  case (Written out)
  then show ?thesis
    using assms(1) track [of out "snd (publish HERO_EVENT_RESOURCE (fst (ws_announce ws out)) (snd (ws_announce ws out)) w)"]
    by (auto simp: publish_def run_simps lawful_step_def)
next
  case (Answered response)
  then show ?thesis using assms(1) by (simp add: lawful_step_def)
qed

text \<open>One step of a request in flight.\<close>

lemma flight_step_read:
  assumes "reads_keep (as_crud state)" and "flight_step redirect state fl ph w = (ph', w')"
    and "fl_request fl = FormGet \<or> (\<exists>rd. fl_request fl = ApiRead rd)"
  shows "w' = w \<and> (\<exists>response. ph' = Answered response)"
  using assms(2,3)
  by (cases ph)
    (auto simp: flight_step_def Let_def split: prod.splits dest!: read_keeps_world [OF assms(1)])

lemma flight_step_lawful:
  assumes "reads_keep (as_crud state)" and "flight_step redirect state fl ph w = (ph', w')"
  shows "fl_request fl = ApiWrite rq \<Longrightarrow>
      lawful_step state (fl_claims fl) (api_steps rq state (fl_call fl)) ph w ph' w'"
    and "fl_request fl = FormPost post \<Longrightarrow>
      lawful_step state (fl_claims fl) (web_steps (redirect, fl_token fl, post) state (fl_call fl)) ph w ph' w'"
proof -
  show "lawful_step state (fl_claims fl) (api_steps rq state (fl_call fl)) ph w ph' w'"
    if rq: "fl_request fl = ApiWrite rq"
  proof (rule write_step_laws [OF assms(2) [unfolded flight_step_writes(1) [OF rq]]])
    show "snd (ws_precondition (api_steps rq state (fl_call fl)) v) = v" for v
      using api.precondition_keeps [OF assms(1), of rq "fl_call fl" v] by (metis prod.collapse)
  qed (use api.track_only api.perform_repo in blast)+
  show "lawful_step state (fl_claims fl) (web_steps (redirect, fl_token fl, post) state (fl_call fl)) ph w ph' w'"
    if post: "fl_request fl = FormPost post"
  proof (rule write_step_laws [OF assms(2) [unfolded flight_step_writes(2) [OF post]]])
    show "snd (ws_precondition (web_steps (redirect, fl_token fl, post) state (fl_call fl)) v) = v" for v
      by (simp add: ok_def)
  qed (use web.track_only web.perform_repo in blast)+
qed

lemma flight_step_laws:
  assumes so: "service_over rp (as_crud state)" and ok: "phase_ok state fl ph"
    and run: "flight_step redirect state fl ph w = (ph', w')"
  shows "phase_ok state fl ph' \<and> (past_write ph \<longrightarrow> past_write ph') \<and>
    (w_repo w' = w_repo w \<or> (\<not> past_write ph \<and> past_write ph' \<and> (\<exists>rc. permitted state fl rc \<and>
       w_repo w' = exec_cmd rp (c_clock (fl_call fl)) rc (w_repo w)))) \<and>
    (w_events w' = w_events w \<or> ((\<exists>out. ph = Written out) \<and> (\<exists>response. ph' = Answered response) \<and>
       (\<exists>ev. w_events w' = w_events w @ [ev])))"
proof (cases "fl_request fl")
  case (ApiWrite rq)
  note law = flight_step_lawful(1) [OF service_overD(1) [OF so] run ApiWrite, unfolded lawful_step_def]
  have "phase_ok state fl ph'"
    using law ok ApiWrite
    by (auto simp: phase_ok_def api_steps_roles role_gate_iff split: option.splits if_splits)
  moreover have "\<exists>rc. permitted state fl rc \<and> w_repo w' = exec_cmd rp (c_clock (fl_call fl)) rc (w_repo w)"
    if "ph = Checked owner p" "ws_perform (api_steps rq state (fl_call fl)) owner p w = (res, w')"
      "w_repo w' \<noteq> w_repo w" for owner p res
    using that ok ApiWrite perform_issues [OF so, of "fl_call fl" owner p w res w']
    by (auto simp: phase_ok_def permitted_def api_perform)
  ultimately show ?thesis using law by auto
next
  case (FormPost post)
  note law = flight_step_lawful(2) [OF service_overD(1) [OF so] run FormPost, unfolded lawful_step_def]
  have "phase_ok state fl ph'"
    using law ok FormPost
    by (auto simp: phase_ok_def role_gate_iff split: option.splits if_splits sum.splits)
  moreover have "\<exists>rc. permitted state fl rc \<and> w_repo w' = exec_cmd rp (c_clock (fl_call fl)) rc (w_repo w)"
    if "ph = Checked owner p" "web_perform post state (fl_call fl) owner p w = (res, w')"
      "w_repo w' \<noteq> w_repo w" for owner p res
    using that ok FormPost web_perform_issues [OF so, of post p "fl_call fl" owner w res w']
    by (auto simp: phase_ok_def permitted_def)
  ultimately show ?thesis using law by auto
qed (use flight_step_read [OF service_overD(1) [OF so] run] in \<open>auto simp: phase_ok_def\<close>)

fun is_answered :: "phase \<Rightarrow> bool" where
  "is_answered (Answered response) = True"
| "is_answered _ = False"

lemma is_answered_iff: "is_answered ph \<longleftrightarrow> (\<exists>response. ph = Answered response)"
  by (cases ph) simp_all

lemma count_answered:
  "i < length phs \<Longrightarrow> length (filter is_answered (phs[i := ph])) + (if is_answered (phs ! i) then 1 else 0) =
     length (filter is_answered phs) + (if is_answered ph then 1 else 0)"
proof (induction phs arbitrary: i)
  case (Cons x phs)
  then show ?case by (cases i) auto
qed simp

lemma answered_stays:
  "flight_step redirect state fl (Answered response) w = (Answered response, w)"
  by (simp add: flight_step_def Let_def split: app_request.split)

text \<open>What holds at the start and survives every step holds at the end of a schedule.\<close>

lemma run_schedule_invariant:
  assumes "run_schedule redirect state fls schedule (phs, w) = (phs', w')" and "length phs = length fls" and "I phs w"
    and step: "\<And>i phs w ph w1. i < length fls \<Longrightarrow> length phs = length fls \<Longrightarrow> I phs w \<Longrightarrow>
      flight_step redirect state (fls ! i) (phs ! i) w = (ph, w1) \<Longrightarrow> I (phs[i := ph]) w1"
  shows "I phs' w'"
  using assms(1-3)
proof (induction schedule arbitrary: phs w)
  case Nil
  then show ?case by simp
next
  case (Cons i schedule)
  obtain ph w1 where run: "flight_step redirect state (fls ! i) (phs ! i) w = (ph, w1)" by force
  show ?case
  proof (cases "i < length fls")
    case True
    then show ?thesis
      using Cons.IH [of "phs[i := ph]" w1] Cons.prems run step [OF True Cons.prems(2,3) run] by simp
  next
    case False
    then show ?thesis using Cons by simp
  qed
qed

text \<open>The three invariants: the phases, the commands with the requests they came from, the events.\<close>

definition phases_ok :: "('r, 'l, 'sc) app_state \<Rightarrow> flight list \<Rightarrow> phase list \<Rightarrow> bool" where
  "phases_ok state fls phs \<longleftrightarrow> (\<forall>i < length fls. phase_ok state (fls ! i) (phs ! i))"

definition commands :: "flight list \<Rightarrow> (nat \<times> repo_cmd) list \<Rightarrow> (clock \<times> repo_cmd) list" where
  "commands fls log = map (\<lambda>(i, rc). (c_clock (fl_call (fls ! i)), rc)) log"

definition log_ok :: "'r repository \<Rightarrow> ('r, 'l, 'sc) app_state \<Rightarrow> flight list \<Rightarrow> 'r \<Rightarrow> phase list \<Rightarrow> 'r \<Rightarrow> bool" where
  "log_ok rp state fls start phs r \<longleftrightarrow> (\<exists>log. distinct (map fst log) \<and>
     (\<forall>(i, rc) \<in> set log. i < length fls \<and> past_write (phs ! i) \<and> permitted state (fls ! i) rc) \<and>
     r = exec_cmds rp (commands fls log) start)"

definition events_ok :: "published list \<Rightarrow> phase list \<Rightarrow> published list \<Rightarrow> bool" where
  "events_ok start phs now \<longleftrightarrow> (\<exists>evs. now = start @ evs \<and> length evs \<le> length (filter is_answered phs))"

lemma exec_cmds_append: "exec_cmds rp (cs @ ds) r = exec_cmds rp ds (exec_cmds rp cs r)"
  by (induction rp cs r rule: exec_cmds.induct) simp_all

lemma log_ok_step:
  assumes "log_ok rp state fls start phs r" and "i < length phs" "length phs = length fls"
    and "past_write (phs ! i) \<longrightarrow> past_write ph"
    and "r' = r \<or> (\<not> past_write (phs ! i) \<and> past_write ph \<and> (\<exists>rc. permitted state (fls ! i) rc \<and>
       r' = exec_cmd rp (c_clock (fl_call (fls ! i))) rc r))"
  shows "log_ok rp state fls start (phs[i := ph]) r'"
proof -
  obtain log where log: "distinct (map fst log)" "r = exec_cmds rp (commands fls log) start"
      "\<And>j rc. (j, rc) \<in> set log \<Longrightarrow> j < length fls \<and> past_write (phs ! j) \<and> permitted state (fls ! j) rc"
    using assms(1) unfolding log_ok_def by blast
  have same: "j < length fls \<and> past_write (phs[i := ph] ! j) \<and> permitted state (fls ! j) rc"
    if "(j, rc) \<in> set log" for j rc
    using log(3) [OF that] assms(2-4) by (cases "i = j") auto
  show ?thesis
  proof (cases "r' = r")
    case True
    then show ?thesis unfolding log_ok_def using log(1,2) same by blast
  next
    case False
    then obtain rc where rc: "\<not> past_write (phs ! i)" "past_write ph" "permitted state (fls ! i) rc"
        "r' = exec_cmd rp (c_clock (fl_call (fls ! i))) rc r"
      using assms(5) by blast
    have "i \<notin> fst ` set log" using log(3) rc(1) by force
    then show ?thesis
      unfolding log_ok_def
      using log(1,2) same rc assms(2,3)
      by (intro exI [where x = "log @ [(i, rc)]"]) (auto simp: commands_def exec_cmds_append)
  qed
qed

lemma events_ok_step:
  assumes "events_ok start phs now" and "i < length phs"
    and "flight_step redirect state fl (phs ! i) w = (ph, w1)"
    and "now' = now \<or> ((\<exists>out. phs ! i = Written out) \<and> (\<exists>response. ph = Answered response) \<and> (\<exists>ev. now' = now @ [ev]))"
  shows "events_ok start (phs[i := ph]) now'"
proof -
  obtain evs where evs: "now = start @ evs" "length evs \<le> length (filter is_answered phs)"
    using assms(1) unfolding events_ok_def by blast
  have "is_answered ph" if answered: "is_answered (phs ! i)"
  proof -
    obtain response where "phs ! i = Answered response" using answered is_answered_iff by blast
    then show ?thesis using assms(3) answered_stays by (metis Pair_inject is_answered.simps(1))
  qed
  then have "length (filter is_answered phs) \<le> length (filter is_answered (phs[i := ph]))"
    using count_answered [OF assms(2), of ph] by (cases "is_answered (phs ! i)"; cases "is_answered ph") simp_all
  then have "events_ok start (phs[i := ph]) now"
    unfolding events_ok_def using evs by (intro exI [where x = evs]) simp
  moreover have "events_ok start (phs[i := ph]) (now @ [ev])" if "phs ! i = Written out" "ph = Answered response" for ev out response
  proof -
    have "length (filter is_answered (phs[i := ph])) = length (filter is_answered phs) + 1"
      using count_answered [OF assms(2), of ph] that by simp
    then show ?thesis unfolding events_ok_def using evs by (intro exI [where x = "evs @ [ev]"]) simp
  qed
  ultimately show ?thesis using assms(4) by blast
qed

lemma schedule_invariants:
  assumes so: "service_over rp (as_crud state)"
    and run: "run_schedule redirect state fls schedule (replicate (length fls) Arrived, w) = (phs', w')"
  shows "log_ok rp state fls (w_repo w) phs' (w_repo w') \<and> events_ok (w_events w) phs' (w_events w')"
proof -
  let ?inv = "\<lambda>phs v. phases_ok state fls phs \<and> log_ok rp state fls (w_repo w) phs (w_repo v) \<and>
    events_ok (w_events w) phs (w_events v)"
  have "?inv phs' w'"
  proof (rule run_schedule_invariant [OF run])
    show "?inv (replicate (length fls) Arrived) w"
      by (auto simp: phases_ok_def phase_ok_def log_ok_def events_ok_def commands_def intro: exI [where x = "[]"])
  next
    fix i phs v ph v1
    assume i: "i < length fls" "length phs = length fls" and old: "?inv phs v"
      and step: "flight_step redirect state (fls ! i) (phs ! i) v = (ph, v1)"
    have "phase_ok state (fls ! i) (phs ! i)" using old i(1) by (simp add: phases_ok_def)
    note law = flight_step_laws [OF so this step]
    have "phases_ok state fls (phs[i := ph])"
      using old i law by (auto simp: phases_ok_def nth_list_update)
    then show "?inv (phs[i := ph]) v1"
      using log_ok_step [of rp state fls "w_repo w" phs "w_repo v" i ph "w_repo v1"]
        events_ok_step [OF _ _ step, of "w_events w" "w_events v" "w_events v1"] old i law by simp
  qed simp
  then show ?thesis by blast
qed

text \<open>
  C4. However the steps of any number of authenticated requests interleave, what the repository
  has gone through is a sequence of whole commands, at most one of each request, each
  within the rights of its caller: the role its route asks for, and the rows of its own subject.
  There are at most as many events as answered requests.
\<close>

theorem interleaved_writes_serialize:
  assumes "service_over rp (as_crud state)"
    and "run_schedule redirect state fls schedule (replicate (length fls) Arrived, w) = (phs', w')"
  shows "\<exists>log evs. distinct (map fst log) \<and>
    list_all (\<lambda>(i, rc). i < length fls \<and> permitted state (fls ! i) rc) log \<and>
    w_repo w' = exec_cmds rp (commands fls log) (w_repo w) \<and>
    w_events w' = w_events w @ evs \<and> length evs \<le> length (filter is_answered phs')"
  using schedule_invariants [OF assms]
  unfolding log_ok_def events_ok_def by (fastforce simp: list_all_iff)

context sql_engine
begin

lemma issued_all_rows:
  assumes "list_all (\<lambda>(clk, rc). \<exists>owner qid cmd. P owner \<and> issues qid owner cmd rc) cs" and "table d i = Some h"
  shows "\<exists>h'. table (exec_cmds (sea_repository eng) cs d) i = Some h' \<and> same_identity h h' \<and>
    (h' = h \<or> (live h \<and> P (h_owner_id h)))"
  using assms
proof (induction cs arbitrary: d h)
  case Nil
  then show ?case by (simp add: same_identity_def)
next
  case (Cons c cs)
  obtain clk rc owner qid cmd where c: "c = (clk, rc)" "P owner" "issues qid owner cmd rc"
    using Cons.prems(1) by (cases c) auto
  obtain h1 where h1: "table (exec_cmd (sea_repository eng) clk rc d) i = Some h1" "same_identity h h1"
      "h1 = h \<or> (live h \<and> h_owner_id h = owner)"
    using issued_rows [OF c(3), of d clk i] Cons.prems(2) by (auto simp: within_owner_def)
  obtain h' where "table (exec_cmds (sea_repository eng) cs (exec_cmd (sea_repository eng) clk rc d)) i = Some h'"
      "same_identity h1 h'" "h' = h1 \<or> (live h1 \<and> P (h_owner_id h1))"
    using Cons.IH [OF _ h1(1)] Cons.prems(1) by auto
  with h1 c show ?case by (auto simp: same_identity_def)
qed

end

text \<open>
  C3. Interleaving gives no request a row of someone else: under any schedule a row of the
  Postgres table keeps its id, owner and creation time, an archived row stays as it is, and a row that
  changed has an owner whose own request, with a role of its route, was in flight.
\<close>

theorem interleaved_rows_are_their_owners:
  assumes eng: "sql_engine eng table holds" and so: "service_over (sea_repository eng) (as_crud state)"
    and run: "run_schedule redirect state fls schedule (replicate (length fls) Arrived, w) = (phs', w')"
    and row: "table (w_repo w) r = Some h"
  shows "\<exists>h'. table (w_repo w') r = Some h' \<and> same_identity h h' \<and>
    (h' = h \<or> (live h \<and> (\<exists>fl \<in> set fls. has_role state (fl_claims fl) (roles_of (fl_request fl)) \<and>
       subject (fl_claims fl) = Inr (h_owner_id h))))"
proof -
  let ?P = "\<lambda>owner. \<exists>fl \<in> set fls. has_role state (fl_claims fl) (roles_of (fl_request fl)) \<and>
     subject (fl_claims fl) = Inr owner"
  obtain log where log: "\<forall>(i, rc) \<in> set log. i < length fls \<and> past_write (phs' ! i) \<and> permitted state (fls ! i) rc"
      "w_repo w' = exec_cmds (sea_repository eng) (commands fls log) (w_repo w)"
    using schedule_invariants [OF so run] unfolding log_ok_def by blast
  have "list_all (\<lambda>(clk, rc). \<exists>owner qid cmd. ?P owner \<and> issues qid owner cmd rc) (commands fls log)"
    using log(1) by (fastforce simp: list_all_iff permitted_def commands_def)
  from sql_engine.issued_all_rows [OF eng this row] show ?thesis unfolding log(2) .
qed

section \<open>Two writers and one tag\<close>

definition sample_rename :: "string \<Rightarrow> hero_update" where
  "sample_rename name = \<lparr>hu_name = Some name, hu_powers = None, hu_power_level = None\<rparr>"

definition sample_patch :: "string \<Rightarrow> flight" where
  "sample_patch name =
     \<lparr>fl_request = ApiWrite (ViaJson (Patch (sample_rename name))),
      fl_call = sample_call (Some 1) [] [(IF_MATCH, Visible (sample_tag (sample_hero 1 ''Spectra'' ''alice'' None)))],
      fl_claims = sample_claims ''alice'' ''maintainer'', fl_token = []\<rparr>"

lemma sample_patch_call:
  "c_now (fl_call (sample_patch name)) = 5" "c_clock (fl_call (sample_patch name)) = (\<lambda>n. 30)"
  "hq_id (c_query (fl_call (sample_patch name))) = Some 1" "c_params (fl_call (sample_patch name)) = []"
  "c_ip (fl_call (sample_patch name)) = ''10.0.0.1''"
  "c_headers (fl_call (sample_patch name)) =
     [(IF_MATCH, Visible (sample_tag (sample_hero 1 ''Spectra'' ''alice'' None)))]"
  "fl_claims (sample_patch name) = sample_claims ''alice'' ''maintainer''"
  "fl_request (sample_patch name) = ApiWrite (ViaJson (Patch (sample_rename name)))"
  by (simp_all add: sample_patch_def sample_call_def)

lemma sample_patch_prepare:
  assumes "validate_update (sample_rename name) = Inr ()"
  shows "ws_prepare (api_steps (ViaJson (Patch (sample_rename name))) sample_state (fl_call (sample_patch name))) =
    Inr (WriteUpdate [] (sample_rename name))"
  using assms
  by (simp add: api_steps_def steps_of_def update_steps_def hero_write_def query_filters_def sample_patch_call
      sample_crud_eq param_flag_def name_filters_def checked_body_def and_then_r_def)

lemma sample_patch_arrives:
  assumes "validate_update (sample_rename name) = Inr ()"
    and "w_limiter w = Mock m" "m = Map.empty \<or> m = [rate_key HERO_WRITE_RATE_SCOPE ''10.0.0.1'' \<mapsto> (1, 5)]"
  shows "\<exists>w1 m'. flight_step sample_redirect sample_state (sample_patch name) Arrived w =
      (Admitted ''alice'' (WriteUpdate [] (sample_rename name)), w1) \<and> w_repo w1 = w_repo w \<and> w_limiter w1 = Mock m' \<and>
    (m = Map.empty \<longrightarrow> m' = [rate_key HERO_WRITE_RATE_SCOPE ''10.0.0.1'' \<mapsto> (1, 5)])"
proof -
  have gate: "role_gate sample_state (sample_claims ''alice'' ''maintainer'')
      (ws_roles (api_steps (ViaJson (Patch (sample_rename name))) sample_state (fl_call (sample_patch name)))) = Inr ()"
    by (simp add: api_steps_roles role_gate_iff sample_role required_roles_def HERO_WRITE_ROLES_def)
  obtain m' where m': "check_write_rate sample_state (fl_call (sample_patch name)) w = (Inr (), w\<lparr>w_limiter := Mock m'\<rparr>)"
      "m = Map.empty \<longrightarrow> m' = [rate_key HERO_WRITE_RATE_SCOPE ''10.0.0.1'' \<mapsto> (1, 5)]"
    using assms(2,3)
    by (auto simp: check_write_rate_def run_simps check_def count_hit_def mock_count_def nanos_def word_less_def
        Let_def sample_patch_call)
  then show ?thesis
    using gate
    by (intro exI [where x = "w\<lparr>w_limiter := Mock m'\<rparr>"] exI [where x = m']) (simp add: flight_step_writes(1) [OF sample_patch_call(8)]
      sample_patch_prepare [OF assms(1)] sample_patch_call(7) sample_claims_subject and_then_r_def)
qed

lemma sample_patch_checked:
  assumes "w_repo w = sample_repo\<lparr>records := (1, h) # rest\<rparr>" and "h_archived_at h = None"
  shows "flight_step sample_redirect sample_state (sample_patch name) (Admitted owner p) w =
    (if sample_tag h = sample_tag (sample_hero 1 ''Spectra'' ''alice'' None) then (Checked owner p, w)
     else (Answered (render_error sample_state (Inl (from_crud_error
       (CrudPreconditionFailed ''Hero was modified since the supplied If-Match'')))), w))"
proof -
  have head: "header_str [(IF_MATCH, Visible t)] IF_MATCH = Some t" "contains_key [(IF_MATCH, Visible t)] IF_MATCH" for t
    by (simp_all add: contains_key_def header_str_def header_lookup_def IF_MATCH_def to_lowercase_def char_lower_def code_def)
  show ?thesis
    using assms
    by (auto simp: flight_step_writes(1) [OF sample_patch_call(8)] api_steps_def steps_of_def update_steps_def
        hero_write_def if_match_of_def enforce_if_match_def sample_patch_call head Let_def run_simps
        sample_crud_eq mem_get_def param_flag_def on_repo_def)
qed

lemma sample_patch_writes:
  assumes "w_repo w = sample_repo\<lparr>records := (1, h) # rest\<rparr>" and "h_archived_at h = None" "h_owner_id h = ''alice''"
  shows "\<exists>w1. flight_step sample_redirect sample_state (sample_patch name) (Checked ''alice'' (WriteUpdate [] (sample_rename name))) w =
      (Written (Updated (UpdatedOne (h\<lparr>h_name := Some name, h_updated_at := 30\<rparr>))), w1) \<and>
    w_repo w1 = sample_repo\<lparr>records := (1, h\<lparr>h_name := Some name, h_updated_at := 30\<rparr>) # rest\<rparr> \<and>
    w_limiter w1 = w_limiter w"
  using assms
  by (simp add: flight_step_writes(1) [OF sample_patch_call(8)] api_perform perform_def run_simps Let_def sample_patch_call
      sample_crud_eq one_answer_def mem_update_def apply_update_def sample_rename_def on_repo_def)

lemma sample_patch_answers:
  "\<exists>response w1. flight_step sample_redirect sample_state (sample_patch name) (Written (Updated (UpdatedOne h))) w =
    (Answered response, w1) \<and> r_status response = 200 \<and> w_repo w1 = w_repo w \<and> w_limiter w1 = w_limiter w"
  by (simp add: flight_step_writes(1) [OF sample_patch_call(8)] run_simps api.track_only api_respond api_announce
      publish_def reply_def json_codec_def render_def and_then_r_def render_error_def json_response_def)

lemma sample_names: "validate_update (sample_rename ''Nova'') = Inr ()" "validate_update (sample_rename ''Blaze'') = Inr ()"
  by (simp_all add: validate_update_def sample_rename_def validate_text_field_def text_length_ok_def errors_result_def
      MAX_LEN_def Let_def)

lemma sample_stale_now: "sample_tag ((sample_hero 1 ''Spectra'' ''alice'' None)\<lparr>h_name := n, h_updated_at := 30\<rparr>) \<noteq>
    sample_tag (sample_hero 1 ''Spectra'' ''alice'' None)"
  by (simp add: sample_tag_def sample_hero_def show_int_def show_nat.simps)

abbreviation patch_step :: "string \<Rightarrow> phase \<Rightarrow> (hero_memory, sample_server) world \<Rightarrow>
    phase \<times> (hero_memory, sample_server) world" where
  "patch_step name \<equiv> flight_step sample_redirect sample_state (sample_patch name)"

abbreviation spectra :: hero where
  "spectra \<equiv> sample_hero 1 ''Spectra'' ''alice'' None"

abbreviation renamed :: "string \<Rightarrow> hero" where
  "renamed name \<equiv> spectra\<lparr>h_name := Some name, h_updated_at := 30\<rparr>"

definition holding :: "hero \<Rightarrow> hero_memory" where
  "holding h = sample_repo\<lparr>records := [(1, h), (2, sample_hero 2 ''Vapor'' ''bob'' (Some 20))]\<rparr>"

lemma alice_live:
  "h_archived_at spectra = None" "h_owner_id spectra = ''alice''"
  "h_archived_at (renamed name) = None" "h_owner_id (renamed name) = ''alice''"
  by (simp_all add: sample_hero_def)

lemma nova_checked:
  "\<exists>w. patch_step ''Nova'' Arrived sample_world = (Admitted ''alice'' (WriteUpdate [] (sample_rename ''Nova'')), w) \<and>
     patch_step ''Nova'' (Admitted ''alice'' (WriteUpdate [] (sample_rename ''Nova''))) w =
       (Checked ''alice'' (WriteUpdate [] (sample_rename ''Nova'')), w) \<and>
     w_repo w = holding spectra \<and> w_limiter w = Mock [rate_key HERO_WRITE_RATE_SCOPE ''10.0.0.1'' \<mapsto> (1, 5)]"
proof -
  have repo: "w_repo sample_world = holding spectra" by (simp add: holding_def sample_repo_def)
  obtain w where "patch_step ''Nova'' Arrived sample_world = (Admitted ''alice'' (WriteUpdate [] (sample_rename ''Nova'')), w)"
      "w_repo w = holding spectra" "w_limiter w = Mock [rate_key HERO_WRITE_RATE_SCOPE ''10.0.0.1'' \<mapsto> (1, 5)]"
    using sample_patch_arrives [OF sample_names(1), of sample_world Map.empty] repo by (auto simp: sample_world_def)
  then show ?thesis
    using sample_patch_checked [of w spectra, OF _ alice_live(1)] by (auto simp: holding_def)
qed

text \<open>
  Two updates of one record with one tag. When the second checks before the first writes, both are
  answered 200 and the first update is lost; one after the other, the second is told that the record
  was modified.
\<close>

lemma tag_check_is_not_atomic:
  "\<exists>r1 r2 w'. run_schedule sample_redirect sample_state [sample_patch ''Nova'', sample_patch ''Blaze'']
      [0, 0, 1, 1, 0, 0, 1, 1] ([Arrived, Arrived], sample_world) = ([Answered r1, Answered r2], w') \<and>
     r_status r1 = 200 \<and> r_status r2 = 200 \<and> w_repo w' = holding (renamed ''Blaze'')"
proof -
  obtain w1 where s1: "patch_step ''Nova'' Arrived sample_world = (Admitted ''alice'' (WriteUpdate [] (sample_rename ''Nova'')), w1)"
      "patch_step ''Nova'' (Admitted ''alice'' (WriteUpdate [] (sample_rename ''Nova''))) w1 =
        (Checked ''alice'' (WriteUpdate [] (sample_rename ''Nova'')), w1)"
      "w_repo w1 = holding spectra" "w_limiter w1 = Mock [rate_key HERO_WRITE_RATE_SCOPE ''10.0.0.1'' \<mapsto> (1, 5)]"
    using nova_checked by blast
  obtain w2 where s2: "patch_step ''Blaze'' Arrived w1 = (Admitted ''alice'' (WriteUpdate [] (sample_rename ''Blaze'')), w2)"
      "w_repo w2 = holding spectra"
    using sample_patch_arrives [OF sample_names(2) s1(4)] s1(3) by auto
  have c2: "patch_step ''Blaze'' (Admitted ''alice'' p) w2 = (Checked ''alice'' p, w2)" for p
    using sample_patch_checked [OF s2(2) [unfolded holding_def] alice_live(1)] by simp
  obtain w3 where s3: "patch_step ''Nova'' (Checked ''alice'' (WriteUpdate [] (sample_rename ''Nova''))) w2 =
        (Written (Updated (UpdatedOne (renamed ''Nova''))), w3)" "w_repo w3 = holding (renamed ''Nova'')"
    using sample_patch_writes [OF s2(2) [unfolded holding_def] alice_live(1,2)] by (auto simp: holding_def)
  obtain r1 w4 where s4: "patch_step ''Nova'' (Written (Updated (UpdatedOne (renamed ''Nova'')))) w3 = (Answered r1, w4)"
      "r_status r1 = 200" "w_repo w4 = holding (renamed ''Nova'')"
    using sample_patch_answers s3(2) by metis
  obtain w5 where s5: "patch_step ''Blaze'' (Checked ''alice'' (WriteUpdate [] (sample_rename ''Blaze''))) w4 =
        (Written (Updated (UpdatedOne (renamed ''Blaze''))), w5)" "w_repo w5 = holding (renamed ''Blaze'')"
    using sample_patch_writes [OF s4(3) [unfolded holding_def] alice_live(3,4), of "''Blaze''"] by (auto simp: holding_def)
  obtain r2 w6 where s6: "patch_step ''Blaze'' (Written (Updated (UpdatedOne (renamed ''Blaze'')))) w5 = (Answered r2, w6)"
      "r_status r2 = 200" "w_repo w6 = holding (renamed ''Blaze'')"
    using sample_patch_answers s5(2) by metis
  show ?thesis
    by (simp add: s1(1,2) s2(1) c2 s3(1) s4(1,2) s5(1) s6)
qed

lemma tag_check_in_order:
  "\<exists>r1 r2 w'. run_schedule sample_redirect sample_state [sample_patch ''Nova'', sample_patch ''Blaze'']
      [0, 0, 0, 0, 1, 1, 1, 1] ([Arrived, Arrived], sample_world) = ([Answered r1, Answered r2], w') \<and>
     r_status r1 = 200 \<and> r_status r2 = 412 \<and> w_repo w' = holding (renamed ''Nova'')"
proof -
  obtain w1 where s1: "patch_step ''Nova'' Arrived sample_world = (Admitted ''alice'' (WriteUpdate [] (sample_rename ''Nova'')), w1)"
      "patch_step ''Nova'' (Admitted ''alice'' (WriteUpdate [] (sample_rename ''Nova''))) w1 =
        (Checked ''alice'' (WriteUpdate [] (sample_rename ''Nova'')), w1)"
      "w_repo w1 = holding spectra" "w_limiter w1 = Mock [rate_key HERO_WRITE_RATE_SCOPE ''10.0.0.1'' \<mapsto> (1, 5)]"
    using nova_checked by blast
  obtain w2 where s2: "patch_step ''Nova'' (Checked ''alice'' (WriteUpdate [] (sample_rename ''Nova''))) w1 =
        (Written (Updated (UpdatedOne (renamed ''Nova''))), w2)"
      "w_repo w2 = holding (renamed ''Nova'')" "w_limiter w2 = w_limiter w1"
    using sample_patch_writes [OF s1(3) [unfolded holding_def] alice_live(1,2)] by (auto simp: holding_def)
  obtain r1 w3 where s3: "patch_step ''Nova'' (Written (Updated (UpdatedOne (renamed ''Nova'')))) w2 = (Answered r1, w3)"
      "r_status r1 = 200" "w_repo w3 = holding (renamed ''Nova'')" "w_limiter w3 = w_limiter w1"
    using sample_patch_answers s2(2,3) by metis
  obtain w4 where s4: "patch_step ''Blaze'' Arrived w3 = (Admitted ''alice'' (WriteUpdate [] (sample_rename ''Blaze'')), w4)"
      "w_repo w4 = holding (renamed ''Nova'')"
    using sample_patch_arrives [OF sample_names(2) s3(4) [unfolded s1(4)]] s3(3) by auto
  obtain r2 where s5: "\<And>p. patch_step ''Blaze'' (Admitted ''alice'' p) w4 = (Answered r2, w4)" "r_status r2 = 412"
    using sample_patch_checked [OF s4(2) [unfolded holding_def] alice_live(3)] sample_stale_now
    by (simp add: render_error_def app_error_response_def)
  show ?thesis
    by (simp add: s1(1,2) s2(1) s3(1,2) s4 s5 answered_stays)
qed

section \<open>Witnesses\<close>

definition sample_flight :: flight where
  "sample_flight =
     \<lparr>fl_request = FormPost (FormDelete 1), fl_call = sample_call None [] [],
      fl_claims = sample_claims ''alice'' ''maintainer'', fl_token = ''good''\<rparr>"

theorem uninterrupted_is_sequential_witness:
  "\<exists>response w'. dispatch sample_redirect (fl_request sample_flight) sample_db_state (fl_call sample_flight)
       (fl_claims sample_flight) (fl_token sample_flight) sample_db_world = (response, w') \<and>
     run_schedule sample_redirect sample_db_state [sample_flight, sample_flight] [1, 1, 1, 1]
       ([Arrived, Arrived], sample_db_world) = ([Arrived, Answered response], w')"
proof -
  obtain response w' where run: "dispatch sample_redirect (fl_request sample_flight) sample_db_state (fl_call sample_flight)
       (fl_claims sample_flight) (fl_token sample_flight) sample_db_world = (response, w')" by force
  then show ?thesis
    using uninterrupted_is_sequential [of 1 "[sample_flight, sample_flight]" "[Arrived, Arrived]" sample_redirect
        sample_db_state sample_db_world response w'] by simp
qed

theorem interleaved_writes_serialize_witness:
  "\<exists>r1 r2 w' log. run_schedule sample_redirect sample_state [sample_patch ''Nova'', sample_patch ''Blaze'']
       [0, 0, 1, 1, 0, 0, 1, 1] (replicate 2 Arrived, sample_world) = ([Answered r1, Answered r2], w') \<and>
     distinct (map fst log) \<and>
     w_repo w' = exec_cmds memory_repository (commands [sample_patch ''Nova'', sample_patch ''Blaze''] log) sample_repo"
proof -
  obtain r1 r2 w' where run: "run_schedule sample_redirect sample_state [sample_patch ''Nova'', sample_patch ''Blaze'']
      [0, 0, 1, 1, 0, 0, 1, 1] (replicate 2 Arrived, sample_world) = ([Answered r1, Answered r2], w')"
    using tag_check_is_not_atomic(1) by (auto simp: numeral_2_eq_2)
  have so: "service_over memory_repository (as_crud sample_state)" by (simp add: sample_service)
  have "length [sample_patch ''Nova'', sample_patch ''Blaze''] = 2" by simp
  from interleaved_writes_serialize [OF so, of sample_redirect "[sample_patch ''Nova'', sample_patch ''Blaze'']",
      unfolded this, OF run] run
  show ?thesis by auto
qed

theorem interleaved_rows_are_their_owners_witness:
  "\<exists>phs' w'. run_schedule sample_redirect sample_db_state [sample_flight, sample_flight] [0, 1, 0, 1, 1, 0]
       (replicate 2 Arrived, sample_db_world) = (phs', w') \<and>
     ref_table (w_repo w') 2 = Some (sample_hero 2 ''Vapor'' ''bob'' (Some 20))"
proof -
  obtain phs' w' where run: "run_schedule sample_redirect sample_db_state [sample_flight, sample_flight] [0, 1, 0, 1, 1, 0]
      (replicate 2 Arrived, sample_db_world) = (phs', w')" by force
  have row: "ref_table (w_repo sample_db_world) 2 = Some (sample_hero 2 ''Vapor'' ''bob'' (Some 20))"
    by (simp add: sample_db_world_def sample_db_rows)
  have "length [sample_flight, sample_flight] = 2" by simp
  from interleaved_rows_are_their_owners [OF ref.sql_engine_axioms sample_db_service, of sample_redirect
      "[sample_flight, sample_flight]", unfolded this, OF run row] run
  show ?thesis by (auto simp: live_def sample_hero_def)
qed

end
