(* ===== verification/Manifest.thy ===== *)
theory Manifest
  imports Wiring
begin

text \<open>
  The manifest of \<open>src/lib.rs\<close> (\<open>hero_descriptor\<close>, \<open>build_manifest_registry\<close> and the configuration of
  \<open>discovery_routers\<close>): the schemas, roles and paths the service advertises for Hero. They are
  compared with what the routes accept and answer: \<open>schema_accepts\<close> is JSON Schema's reading of the
  keywords the schemas use, and serde's derived decoding of the request bodies is written out from
  the structs' fields and attributes.
\<close>

section \<open>Descriptors\<close>

definition schema :: "(string \<times> json) list \<Rightarrow> string list \<Rightarrow> json" where
  "schema properties required =
     JObj [(''type'', JStr ''object''), (''properties'', JObj properties), (''required'', json_strs required)]"

record manifest_field =
  mf_spec :: field_spec
  mf_required :: bool
  mf_read_only :: bool

record features =
  fe_stats :: bool
  fe_predict :: bool
  fe_conditional_requests :: bool

datatype replay = ReplayNone | ReplayPersistent

record access =
  ac_public_read :: bool
  ac_read_roles :: "string list"
  ac_write_roles :: "string list"
  ac_delete_roles :: "string list"

record resource_descriptor =
  rd_resource :: string
  rd_title :: string
  rd_version :: string
  rd_path :: string
  rd_read :: json
  rd_create :: json
  rd_update :: json
  rd_formats :: "(string \<times> string) list"
  rd_fields :: "manifest_field list"
  rd_features :: features
  rd_events :: "(string \<times> replay) option"
  rd_access :: access

definition text_schema :: json where
  "text_schema = JObj [(''type'', JStr ''string''), (''minLength'', JInt 1), (''maxLength'', JInt 200)]"

definition power_schema :: "bool \<Rightarrow> string \<times> json" where
  "power_schema v2 =
     (if v2 then (''powers'', JObj [(''type'', JStr ''array''), (''items'', text_schema), (''minItems'', JInt 1)])
      else (''superpower'', text_schema))"

definition body_schema :: "bool \<Rightarrow> string list \<Rightarrow> json" where
  "body_schema v2 required =
     (let properties =
            [(''name'', text_schema), (''power_level'', JObj [(''type'', json_strs [''integer'', ''null''])])];
          properties = properties @ [power_schema v2]
      in schema properties required)"

definition date_time :: "json \<Rightarrow> json" where
  "date_time ty = JObj [(''type'', ty), (''format'', JStr ''date-time'')]"

definition read_properties :: "bool \<Rightarrow> (string \<times> json) list" where
  "read_properties v2 =
     [(''id'', JObj [(''type'', JStr ''integer'')]),
      (''name'', JObj [(''type'', json_strs [''string'', ''null''])]),
      (''power_level'', JObj [(''type'', json_strs [''integer'', ''null''])]),
      (''owner_id'', JObj [(''type'', JStr ''string'')]),
      (''archived_at'', date_time (json_strs [''string'', ''null''])),
      (''created_at'', date_time (JStr ''string'')),
      (''updated_at'', date_time (JStr ''string''))] @
     [(fst (power_schema v2),
       if v2 then JObj [(''type'', json_strs [''array'', ''null'']), (''items'', JObj [(''type'', JStr ''string'')])]
       else JObj [(''type'', json_strs [''string'', ''null''])])]"

definition describe_field :: "field_spec \<Rightarrow> manifest_field" where
  "describe_field spec =
     (let field = \<lparr>mf_spec = spec, mf_required = False, mf_read_only = False\<rparr> in
      if fst spec = ''name'' then field\<lparr>mf_required := True\<rparr>
      else if fst spec \<in> {''id'', ''owner_id'', ''archived_at'', ''created_at'', ''updated_at''}
      then field\<lparr>mf_read_only := True\<rparr>
      else field)"

definition hero_descriptor :: "string \<Rightarrow> mode \<Rightarrow> resource_descriptor" where
  "hero_descriptor version mode =
     (let v2 = (version = ''v2'');
          power_key = fst (power_schema v2);
          json_path = ''/crud/v1/heroes/'' @ version @ ''/json'';
          title = (if v2 then ''Heroes'' else ''Heroes (v1, deprecated)'')
      in \<lparr>rd_resource = ''heroes'', rd_title = title, rd_version = version, rd_path = json_path,
          rd_read = schema (read_properties v2) [''id'', ''owner_id'', ''created_at'', ''updated_at''],
          rd_create = body_schema v2 [''name'', power_key],
          rd_update = body_schema v2 [],
          rd_formats = [(''xml'', ''/crud/v1/heroes/'' @ version @ ''/xml'')],
          rd_fields = map describe_field HERO_FIELD_SPECS,
          rd_features = \<lparr>fe_stats = v2, fe_predict = v2, fe_conditional_requests = True\<rparr>,
          rd_events = Some (HERO_EVENT_RESOURCE, if mode = MockMode then ReplayNone else ReplayPersistent),
          rd_access = \<lparr>ac_public_read = False, ac_read_roles = HERO_READ_ROLES,
            ac_write_roles = HERO_WRITE_ROLES, ac_delete_roles = HERO_DELETE_ROLES\<rparr>\<rparr>)"

definition build_manifest_registry :: "mode \<Rightarrow> resource_descriptor list" where
  "build_manifest_registry mode = map (\<lambda>version. hero_descriptor version mode) [''v2'', ''v1'']"

section \<open>Discovery\<close>

record manifest_config =
  mc_app_name :: string
  mc_app_version :: string
  mc_oidc_discovery_url :: "string option"
  mc_stats_ttl :: "nat option"
  mc_bulk_max_matched :: nat

text \<open>\<open>pkg\<close> is the crate's version, which Cargo compiles in.\<close>

definition discovery_config :: "string \<Rightarrow> env \<Rightarrow> settings \<Rightarrow> resource_server \<Rightarrow> manifest_config" where
  "discovery_config pkg env settings resource =
     \<lparr>mc_app_name = app_name settings,
      mc_app_version = (case env ''APP_VERSION'' of Present v \<Rightarrow> v | _ \<Rightarrow> pkg),
      mc_oidc_discovery_url = Some (public_discovery_url resource),
      mc_stats_ttl = (case stats_cache_ttl env of Inr ttl \<Rightarrow> ttl | Inl _ \<Rightarrow> None),
      mc_bulk_max_matched = bulk_action_max_matched settings\<rparr>"

definition api_catalog :: "resource_server \<Rightarrow> string \<times> string option \<times> string option" where
  "api_catalog resource = (''/api/_crud/manifest'', None, Some (rs_public_base_url resource))"

section \<open>JSON Schema\<close>

text \<open>A number is an integer by its value, not by how it is written: \<open>5.0\<close> is one.\<close>

definition dec_integral :: "int \<Rightarrow> int \<Rightarrow> bool" where
  "dec_integral m e = (0 \<le> e \<or> 10 ^ nat (- e) dvd m)"

fun type_matches :: "string \<Rightarrow> json \<Rightarrow> bool" where
  "type_matches ty JNull = (ty = ''null'')"
| "type_matches ty (JBool b) = (ty = ''boolean'')"
| "type_matches ty (JInt n) = (ty = ''integer'' \<or> ty = ''number'')"
| "type_matches ty (JDec m e) = (ty = ''number'' \<or> (ty = ''integer'' \<and> dec_integral m e))"
| "type_matches ty (JStr s) = (ty = ''string'')"
| "type_matches ty (JTime t) = (ty = ''string'')"
| "type_matches ty (JArr js) = (ty = ''array'')"
| "type_matches ty (JObj kvs) = (ty = ''object'')"
| "type_matches ty (JCrate c) = False"

fun type_names :: "json \<Rightarrow> string list" where
  "type_names (JStr ty) = [ty]"
| "type_names (JArr tys) = filter_map as_str tys"
| "type_names _ = []"

definition keyword :: "json \<Rightarrow> string \<Rightarrow> (json \<Rightarrow> bool) \<Rightarrow> bool" where
  "keyword s k p = (case json_get s k of None \<Rightarrow> True | Some arg \<Rightarrow> p arg)"

text \<open>
  \<open>n\<close> bounds the nesting of the schema; a schema nested deeper accepts nothing. \<open>fmt\<close> is what a validator
  makes of \<open>format\<close>: by default it only annotates (\<open>annotated\<close>), a validator may be told to assert it.
\<close>

definition annotated :: "string \<Rightarrow> json \<Rightarrow> bool" where
  "annotated name v = True"

fun schema_accepts :: "(string \<Rightarrow> json \<Rightarrow> bool) \<Rightarrow> nat \<Rightarrow> json \<Rightarrow> json \<Rightarrow> bool" where
  "schema_accepts fmt 0 s v = False"
| "schema_accepts fmt (Suc n) s v =
     (keyword s ''format'' (\<lambda>f. case f of JStr name \<Rightarrow> fmt name v | _ \<Rightarrow> True) \<and>
      keyword s ''type'' (\<lambda>ty. list_ex (\<lambda>ty. type_matches ty v) (type_names ty)) \<and>
      keyword s ''minLength'' (\<lambda>m. case (m, v) of (JInt m, JStr t) \<Rightarrow> m \<le> int (length t) | _ \<Rightarrow> True) \<and>
      keyword s ''maxLength'' (\<lambda>m. case (m, v) of (JInt m, JStr t) \<Rightarrow> int (length t) \<le> m | _ \<Rightarrow> True) \<and>
      keyword s ''minItems'' (\<lambda>m. case (m, v) of (JInt m, JArr js) \<Rightarrow> m \<le> int (length js) | _ \<Rightarrow> True) \<and>
      keyword s ''items'' (\<lambda>sub. case v of JArr js \<Rightarrow> list_all (schema_accepts fmt n sub) js | _ \<Rightarrow> True) \<and>
      keyword s ''properties'' (\<lambda>props. case (props, v) of
        (JObj subs, JObj kvs) \<Rightarrow> list_all (\<lambda>(k, sub).
          case map_of kvs k of None \<Rightarrow> True | Some x \<Rightarrow> schema_accepts fmt n sub x) subs
      | _ \<Rightarrow> True) \<and>
      keyword s ''required'' (\<lambda>names. case v of
        JObj kvs \<Rightarrow> list_all (\<lambda>k. k \<in> fst ` set kvs) (type_names names) | _ \<Rightarrow> True))"

section \<open>RFC 3339\<close>

definition is_digit :: "char \<Rightarrow> bool" where
  "is_digit c = (CHR ''0'' \<le> c \<and> c \<le> CHR ''9'')"

text \<open>A text of the shape of a pattern, in which \<open>d\<close> is any digit.\<close>

definition shaped :: "string \<Rightarrow> string \<Rightarrow> bool" where
  "shaped pattern t = list_all2 (\<lambda>p c. if p = CHR ''d'' then is_digit c else p = c) pattern t"

definition time_offset :: "string \<Rightarrow> bool" where
  "time_offset t = (t = ''Z'' \<or> t = ''z'' \<or> shaped ''+dd:dd'' t \<or> shaped ''-dd:dd'' t)"

text \<open>The fraction of a second with the offset, and a whole \<open>date-time\<close>.\<close>

definition fraction_offset :: "string \<Rightarrow> bool" where
  "fraction_offset t =
     (case t of
        [] \<Rightarrow> False
      | c # rest \<Rightarrow>
          if c = CHR ''.'' then takeWhile is_digit rest \<noteq> [] \<and> time_offset (dropWhile is_digit rest)
          else time_offset t)"

definition rfc3339_date_time :: "string \<Rightarrow> bool" where
  "rfc3339_date_time t =
     ((shaped ''dddd-dd-ddTdd:dd:dd'' (take 19 t) \<or> shaped ''dddd-dd-ddtdd:dd:dd'' (take 19 t)) \<and>
      fraction_offset (drop 19 t))"

text \<open>
  A validator that asserts formats. \<open>time_text\<close> is the text serde gives a timestamp, which is chrono's;
  chrono documents for a \<open>NaiveDateTime\<close> the date, a \<open>T\<close> and the time of day, without offset.
\<close>

definition asserted :: "(int \<Rightarrow> string) \<Rightarrow> string \<Rightarrow> json \<Rightarrow> bool" where
  "asserted time_text name v =
     (name = ''date-time'' \<longrightarrow>
      (case v of
         JTime t \<Rightarrow> rfc3339_date_time (time_text t)
       | JStr t \<Rightarrow> rfc3339_date_time t
       | _ \<Rightarrow> True))"

definition clock_char :: "char \<Rightarrow> bool" where
  "clock_char c = (is_digit c \<or> c \<in> {CHR '':'', CHR ''.''})"

definition naive_documented :: "(int \<Rightarrow> string) \<Rightarrow> bool" where
  "naive_documented time_text \<longleftrightarrow>
     (\<forall>t. \<exists>date time. time_text t = date @ ''T'' @ time \<and> list_all clock_char time)"

lemma shaped_chars: "shaped pattern t \<Longrightarrow> c \<in> set t \<Longrightarrow> is_digit c \<or> c \<in> set pattern"
  unfolding shaped_def by (induction rule: list_all2_induct) (auto split: if_splits)

text \<open>An offset holds no \<open>T\<close>, and a character no clock time holds.\<close>

lemma offset_chars:
  assumes "time_offset t"
  shows "CHR ''T'' \<notin> set t \<and> (\<exists>c rest. t = c # rest \<and> \<not> clock_char c)"
proof -
  have no: "CHR ''T'' \<notin> set t" "\<not> clock_char s" "s \<noteq> CHR ''d''"
    if "shaped (s # ''dd:dd'') t" "s \<in> {CHR ''+'', CHR ''-''}" for s
  proof -
    show "\<not> clock_char s" "s \<noteq> CHR ''d''" using that(2) by (auto simp: clock_char_def is_digit_def)
    have "\<not> is_digit (CHR ''T'')" by (simp add: is_digit_def)
    then show "CHR ''T'' \<notin> set t" using shaped_chars [OF that(1), of "CHR ''T''"] that(2) by auto
  qed
  have first: "\<exists>rest. t = s # rest" if "shaped (s # ''dd:dd'') t" "s \<noteq> CHR ''d''" for s
    using that unfolding shaped_def list_all2_Cons1 by auto
  consider "t = ''Z'' \<or> t = ''z''" | s where "shaped (s # ''dd:dd'') t" "s \<in> {CHR ''+'', CHR ''-''}"
    using assms unfolding time_offset_def by blast
  then show ?thesis
  proof cases
    case 1
    moreover have "\<not> clock_char (CHR ''Z'')" "\<not> clock_char (CHR ''z'')" by (simp_all add: clock_char_def is_digit_def)
    ultimately show ?thesis by (elim disjE) simp_all
  next
    case (2 s)
    then show ?thesis using no [OF 2] first [OF 2(1)] by blast
  qed
qed

text \<open>So every \<open>date-time\<close> ends in an offset: a suffix whose first character no clock time holds.\<close>

lemma date_time_ends:
  assumes "rfc3339_date_time t"
  shows "\<exists>before suffix. t = before @ suffix \<and> time_offset suffix"
proof -
  have "fraction_offset (drop 19 t)" using assms by (simp add: rfc3339_date_time_def)
  then obtain before suffix where "drop 19 t = before @ suffix" "time_offset suffix"
  proof (cases "drop 19 t")
    case (Cons c rest)
    show thesis
    proof (cases "c = CHR ''.''")
      case True
      then have "time_offset (dropWhile is_digit rest)"
        using \<open>fraction_offset (drop 19 t)\<close> Cons by (simp add: fraction_offset_def)
      moreover have "drop 19 t = (c # takeWhile is_digit rest) @ dropWhile is_digit rest"
        using Cons by simp
      ultimately show thesis by (rule that [rotated])
    next
      case False
      then have "time_offset (drop 19 t)"
        using \<open>fraction_offset (drop 19 t)\<close> Cons by (simp add: fraction_offset_def)
      then show thesis using that [of "[]"] by simp
    qed
  qed (simp add: fraction_offset_def)
  then have "t = (take 19 t @ before) @ suffix" using append_take_drop_id [of 19 t] by simp
  with \<open>time_offset suffix\<close> show ?thesis by blast
qed

lemma naive_not_date_time:
  assumes "naive_documented time_text"
  shows "\<not> rfc3339_date_time (time_text t)"
proof
  assume "rfc3339_date_time (time_text t)"
  then obtain before suffix where s: "time_text t = before @ suffix" "time_offset suffix"
    using date_time_ends by blast
  obtain date time where n: "time_text t = date @ ''T'' @ time" "list_all clock_char time"
    using assms unfolding naive_documented_def by blast
  have "before @ suffix = (date @ ''T'') @ time" using s n by simp
  then obtain us where "(before = (date @ ''T'') @ us \<and> us @ suffix = time) \<or>
      (before @ us = date @ ''T'' \<and> suffix = us @ time)"
    unfolding append_eq_append_conv2 [of before suffix "date @ ''T''" time] by blast
  then show False
  proof
    assume "before = (date @ ''T'') @ us \<and> us @ suffix = time"
    then show False using n(2) offset_chars [OF s(2)] by auto
  next
    assume us: "before @ us = date @ ''T'' \<and> suffix = us @ time"
    show False
    proof (cases us rule: rev_cases)
      case Nil
      then show False using us n(2) offset_chars [OF s(2)] by auto
    next
      case (snoc xs x)
      then have "x = CHR ''T''" using us by (metis append_assoc last_snoc)
      then show False using snoc us offset_chars [OF s(2)] by auto
    qed
  qed
qed

section \<open>Decoding a request body\<close>

text \<open>
  serde's derived \<open>Deserialize\<close> of a struct from JSON. From an object: a member of an \<open>Option\<close> field may be
  missing (\<open>#[serde(default)]\<close>) or null, any other member must be there, no field may come twice, unknown
  members are ignored. From an array: the fields in their order, of which defaulted ones may be missing
  at the end, and nothing after them. A number read as an \<open>f64\<close> is no \<open>i32\<close>. The outer \<open>None\<close> is a body
  that does not decode.
\<close>

fun json_i32 :: "json \<Rightarrow> int option" where
  "json_i32 (JInt n) = (if i32_range n then Some n else None)"
| "json_i32 _ = None"

fun json_str_list :: "json \<Rightarrow> string list option" where
  "json_str_list (JArr js) = (if list_all (\<lambda>j. as_str j \<noteq> None) js then Some (filter_map as_str js) else None)"
| "json_str_list _ = None"

definition field_at :: "string list \<Rightarrow> json \<Rightarrow> string \<Rightarrow> json option" where
  "field_at names v k =
     (case v of
        JObj kvs \<Rightarrow> map_of kvs k
      | JArr js \<Rightarrow> map_of (zip names js) k
      | _ \<Rightarrow> None)"

definition struct_shaped :: "string list \<Rightarrow> json \<Rightarrow> bool" where
  "struct_shaped names v =
     (case v of
        JObj kvs \<Rightarrow> list_all (\<lambda>k. length (filter (\<lambda>(k', x). k' = k) kvs) \<le> 1) names
      | JArr js \<Rightarrow> length js \<le> length names
      | _ \<Rightarrow> False)"

definition req_member :: "(json \<Rightarrow> 'a option) \<Rightarrow> json option \<Rightarrow> 'a option" where
  "req_member dec v = (case v of None \<Rightarrow> None | Some v \<Rightarrow> dec v)"

definition opt_member :: "(json \<Rightarrow> 'a option) \<Rightarrow> json option \<Rightarrow> 'a option option" where
  "opt_member dec v =
     (case v of
        None \<Rightarrow> Some None
      | Some v \<Rightarrow> if v = JNull then Some None else (case dec v of None \<Rightarrow> None | Some x \<Rightarrow> Some (Some x)))"

definition v2_fields :: "string list" where
  "v2_fields = [''name'', ''powers'', ''power_level'']"

definition v1_fields :: "string list" where
  "v1_fields = [''name'', ''superpower'', ''power_level'']"

definition decode_create :: "json \<Rightarrow> hero_create option" where
  "decode_create v =
     (let member = field_at v2_fields v in
      case (struct_shaped v2_fields v, req_member as_str (member ''name''),
            req_member json_str_list (member ''powers''), opt_member json_i32 (member ''power_level'')) of
        (True, Some name, Some powers, Some power_level) \<Rightarrow>
          Some \<lparr>hc_name = name, hc_powers = powers, hc_power_level = power_level\<rparr>
      | _ \<Rightarrow> None)"

definition decode_update :: "json \<Rightarrow> hero_update option" where
  "decode_update v =
     (let member = field_at v2_fields v in
      case (struct_shaped v2_fields v, opt_member as_str (member ''name''),
            opt_member json_str_list (member ''powers''), opt_member json_i32 (member ''power_level'')) of
        (True, Some name, Some powers, Some power_level) \<Rightarrow>
          Some \<lparr>hu_name = name, hu_powers = powers, hu_power_level = power_level\<rparr>
      | _ \<Rightarrow> None)"

definition decode_create_v1 :: "json \<Rightarrow> hero_create_v1 option" where
  "decode_create_v1 v =
     (let member = field_at v1_fields v in
      case (struct_shaped v1_fields v, req_member as_str (member ''name''),
            req_member as_str (member ''superpower''), opt_member json_i32 (member ''power_level'')) of
        (True, Some name, Some superpower, Some power_level) \<Rightarrow>
          Some \<lparr>hc1_name = name, hc1_superpower = superpower, hc1_power_level = power_level\<rparr>
      | _ \<Rightarrow> None)"

definition decode_update_v1 :: "json \<Rightarrow> hero_update_v1 option" where
  "decode_update_v1 v =
     (let member = field_at v1_fields v in
      case (struct_shaped v1_fields v, opt_member as_str (member ''name''),
            opt_member as_str (member ''superpower''), opt_member json_i32 (member ''power_level'')) of
        (True, Some name, Some superpower, Some power_level) \<Rightarrow>
          Some \<lparr>hu1_name = name, hu1_superpower = superpower, hu1_power_level = power_level\<rparr>
      | _ \<Rightarrow> None)"

text \<open>A value a JSON text can hold: instants and the crate's values only occur in responses.\<close>

fun received :: "json \<Rightarrow> bool" where
  "received (JTime t) = False"
| "received (JCrate c) = False"
| "received (JArr js) = list_all received js"
| "received (JObj kvs) = list_all (\<lambda>(k, v). received v) kvs"
| "received _ = True"

section \<open>The advertised schemas\<close>

lemma filter_map_as_str: "filter_map as_str (map JStr ss) = ss"
  by (induction ss) (simp_all add: filter_map_def)

lemmas schema_eval = keyword_def json_strs_def filter_map_as_str

lemma text_schema_accepts:
  "received v \<Longrightarrow> schema_accepts fmt (Suc n) text_schema v \<longleftrightarrow> (\<exists>t. as_str v = Some t \<and> text_length_ok t)"
  by (cases v) (auto simp: text_schema_def schema_eval text_length_ok_def MAX_LEN_def)

lemma level_schema_accepts:
  "received v \<Longrightarrow> schema_accepts fmt (Suc n) (JObj [(''type'', json_strs [''integer'', ''null''])]) v \<longleftrightarrow>
     v = JNull \<or> type_matches ''integer'' v"
  by (cases v) (auto simp: schema_eval filter_map_def)

lemma str_items:
  "list_all received js \<Longrightarrow> list_all (schema_accepts fmt (Suc n) text_schema) js \<longleftrightarrow>
     (\<exists>ss. js = map JStr ss \<and> list_all text_length_ok ss)"
proof (induction js)
  case (Cons j js)
  then show ?case
    using text_schema_accepts [of j fmt n] by (cases j) (auto simp: Cons_eq_map_conv)
qed simp

lemma json_str_list_iff: "json_str_list (JArr js) = Some ss \<longleftrightarrow> js = map JStr ss"
proof (induction js arbitrary: ss)
  case (Cons j js)
  have "json_str_list (JArr (j # js)) = Some ss \<longleftrightarrow>
      (\<exists>s rest. j = JStr s \<and> json_str_list (JArr js) = Some rest \<and> ss = s # rest)"
    by (cases j) (auto simp: filter_map_def)
  also have "\<dots> \<longleftrightarrow> j # js = map JStr ss"
    unfolding Cons.IH by (cases ss) auto
  finally show ?case .
qed (auto simp: filter_map_def)

lemma powers_schema_accepts:
  assumes "received v"
  shows "schema_accepts fmt (Suc (Suc n)) (snd (power_schema True)) v \<longleftrightarrow>
    (\<exists>ss. json_str_list v = Some ss \<and> ss \<noteq> [] \<and> list_all text_length_ok ss)"
proof (cases v)
  case (JArr js)
  have "schema_accepts fmt (Suc (Suc n)) (snd (power_schema True)) v \<longleftrightarrow>
      js \<noteq> [] \<and> list_all (schema_accepts fmt (Suc n) text_schema) js"
    using JArr by (cases js) (simp_all add: power_schema_def schema_eval del: schema_accepts.simps(2) add: schema_accepts.simps(2) [of fmt "Suc n"])
  also have "\<dots> \<longleftrightarrow> (\<exists>ss. js = map JStr ss \<and> ss \<noteq> [] \<and> list_all text_length_ok ss)"
    using str_items [of js fmt n] assms JArr by auto
  finally show ?thesis by (simp only: JArr json_str_list_iff)
qed (auto simp: power_schema_def schema_eval)

definition member_ok :: "(json \<Rightarrow> bool) \<Rightarrow> (string \<times> json) list \<Rightarrow> string \<Rightarrow> bool" where
  "member_ok p kvs k = (case map_of kvs k of None \<Rightarrow> True | Some v \<Rightarrow> p v)"

lemma required_names: "filter_map as_str (map JStr ks) = ks" "type_names (json_strs ks) = ks"
  by (simp_all add: filter_map_as_str json_strs_def)

lemma object_schema_accepts:
  "schema_accepts fmt (Suc n) (schema properties required) (JObj kvs) \<longleftrightarrow>
     list_all (\<lambda>(k, sub). member_ok (schema_accepts fmt n sub) kvs k) properties \<and>
     list_all (\<lambda>k. map_of kvs k \<noteq> None) required"
  by (simp add: schema_def keyword_def required_names member_ok_def map_of_eq_None_iff)

lemma received_member: "received (JObj kvs) \<Longrightarrow> map_of kvs k = Some v \<Longrightarrow> received v"
  using map_of_SomeD [of kvs k v] by (auto simp: list_all_iff)

lemma member_ok_cong:
  assumes "received (JObj kvs)" and "\<And>v. received v \<Longrightarrow> p v = q v"
  shows "member_ok p kvs k = member_ok q kvs k"
  using assms(2) received_member [OF assms(1), of k] unfolding member_ok_def by (cases "map_of kvs k") simp_all

text \<open>What the body schemas say, in terms of the members.\<close>

lemma body_schema_accepts:
  assumes "received (JObj kvs)"
  shows "schema_accepts fmt (Suc (Suc (Suc n))) (body_schema v2 required) (JObj kvs) \<longleftrightarrow>
    member_ok (\<lambda>v. \<exists>t. as_str v = Some t \<and> text_length_ok t) kvs ''name'' \<and>
    member_ok (\<lambda>v. v = JNull \<or> type_matches ''integer'' v) kvs ''power_level'' \<and>
    (if v2 then member_ok (\<lambda>v. \<exists>ss. json_str_list v = Some ss \<and> ss \<noteq> [] \<and> list_all text_length_ok ss) kvs ''powers''
     else member_ok (\<lambda>v. \<exists>t. as_str v = Some t \<and> text_length_ok t) kvs ''superpower'') \<and>
    list_all (\<lambda>k. map_of kvs k \<noteq> None) required"
proof -
  have names: "member_ok (schema_accepts fmt (Suc (Suc n)) text_schema) kvs k =
      member_ok (\<lambda>v. \<exists>t. as_str v = Some t \<and> text_length_ok t) kvs k" for k
    by (rule member_ok_cong [OF assms text_schema_accepts])
  have level: "member_ok (schema_accepts fmt (Suc (Suc n)) (JObj [(''type'', json_strs [''integer'', ''null''])])) kvs k =
      member_ok (\<lambda>v. v = JNull \<or> type_matches ''integer'' v) kvs k" for k
    by (rule member_ok_cong [OF assms level_schema_accepts])
  have powers: "member_ok (schema_accepts fmt (Suc (Suc n)) (snd (power_schema True))) kvs k =
      member_ok (\<lambda>v. \<exists>ss. json_str_list v = Some ss \<and> ss \<noteq> [] \<and> list_all text_length_ok ss) kvs k" for k
    by (rule member_ok_cong [OF assms powers_schema_accepts])
  have "power_schema v2 = (if v2 then (''powers'', snd (power_schema True)) else (''superpower'', text_schema))"
    by (simp add: power_schema_def)
  then show ?thesis
    unfolding body_schema_def Let_def object_schema_accepts
    using names level powers by (simp del: schema_accepts.simps)
qed

text \<open>An integer the schema admits and serde cannot read as an \<open>i32\<close>: too wide, or written with a fraction.\<close>

definition wide_level :: "(string \<times> json) list \<Rightarrow> bool" where
  "wide_level kvs =
     (case map_of kvs ''power_level'' of
        None \<Rightarrow> False
      | Some v \<Rightarrow> type_matches ''integer'' v \<and> json_i32 v = None)"

definition without_level :: "(string \<times> json) list \<Rightarrow> (string \<times> json) list" where
  "without_level kvs = filter (\<lambda>p. fst p \<noteq> ''power_level'') kvs"

lemma without_level_lookup [simp]:
  "map_of (without_level kvs) k = (if k = ''power_level'' then None else map_of kvs k)"
  by (simp add: without_level_def map_of_filter_key)

lemma level_member:
  "member_ok (\<lambda>v. v = JNull \<or> type_matches ''integer'' v) kvs ''power_level'' \<longleftrightarrow>
    (\<exists>l. opt_member json_i32 (map_of kvs ''power_level'') = Some l) \<or> wide_level kvs"
proof (cases "map_of kvs ''power_level''")
  case (Some v)
  then show ?thesis by (cases v) (auto simp: member_ok_def opt_member_def wide_level_def)
qed (simp add: member_ok_def opt_member_def)

lemma req_member_ok:
  "(\<exists>x. req_member dec (map_of kvs k) = Some x \<and> P x) \<longleftrightarrow>
   map_of kvs k \<noteq> None \<and> member_ok (\<lambda>v. \<exists>x. dec v = Some x \<and> P x) kvs k"
  by (cases "map_of kvs k") (simp_all add: req_member_def member_ok_def)

text \<open>A member the schema admits is one the route decodes and validates, and is not null.\<close>

lemma member_not_null:
  assumes "dec JNull = None"
  shows "member_ok (\<lambda>v. \<exists>x. dec v = Some x \<and> P x) kvs k \<longleftrightarrow>
    (\<exists>x. opt_member dec (map_of kvs k) = Some x \<and> (\<forall>y. x = Some y \<longrightarrow> P y)) \<and> map_of kvs k \<noteq> Some JNull"
  using assms by (cases "map_of kvs k") (auto simp: opt_member_def member_ok_def split: option.splits)

fun accepted :: "'a option \<Rightarrow> ('a \<Rightarrow> 'e + unit) \<Rightarrow> bool" where
  "accepted None validate = False"
| "accepted (Some b) validate = (validate b = Inr ())"

lemma object_fields:
  assumes "distinct (map fst kvs)"
  shows "field_at names (JObj kvs) k = map_of kvs k" and "struct_shaped names (JObj kvs)"
proof -
  have "length (filter (\<lambda>(k', x). k' = k) kvs) \<le> 1" for k
    using assms by (induction kvs) (auto simp: filter_empty_conv rev_image_eqI)
  then show "struct_shaped names (JObj kvs)" by (simp add: struct_shaped_def list_all_iff)
qed (simp add: field_at_def)

lemma accepted_create:
  assumes "distinct (map fst kvs)"
  shows "accepted (decode_create (JObj kvs)) validate_create \<longleftrightarrow>
   (\<exists>x. req_member as_str (map_of kvs ''name'') = Some x \<and> text_length_ok x) \<and>
   (\<exists>x. req_member json_str_list (map_of kvs ''powers'') = Some x \<and> x \<noteq> [] \<and> list_all text_length_ok x) \<and>
   (\<exists>l. opt_member json_i32 (map_of kvs ''power_level'') = Some l)"
  by (cases "req_member as_str (map_of kvs ''name'')"; cases "req_member json_str_list (map_of kvs ''powers'')";
      cases "opt_member json_i32 (map_of kvs ''power_level'')")
    (simp_all add: decode_create_def Let_def object_fields [OF assms] validate_defs)

lemma accepted_create_v1:
  assumes "distinct (map fst kvs)"
  shows "accepted (decode_create_v1 (JObj kvs)) validate_create_v1 \<longleftrightarrow>
   (\<exists>x. req_member as_str (map_of kvs ''name'') = Some x \<and> text_length_ok x) \<and>
   (\<exists>x. req_member as_str (map_of kvs ''superpower'') = Some x \<and> text_length_ok x) \<and>
   (\<exists>l. opt_member json_i32 (map_of kvs ''power_level'') = Some l)"
  by (cases "req_member as_str (map_of kvs ''name'')"; cases "req_member as_str (map_of kvs ''superpower'')";
      cases "opt_member json_i32 (map_of kvs ''power_level'')")
    (simp_all add: decode_create_v1_def Let_def object_fields [OF assms] validate_defs)

lemma accepted_update:
  assumes "distinct (map fst kvs)"
  shows "accepted (decode_update (JObj kvs)) validate_update \<longleftrightarrow>
   (\<exists>x. opt_member as_str (map_of kvs ''name'') = Some x \<and> (\<forall>y. x = Some y \<longrightarrow> text_length_ok y)) \<and>
   (\<exists>x. opt_member json_str_list (map_of kvs ''powers'') = Some x \<and>
      (\<forall>y. x = Some y \<longrightarrow> y \<noteq> [] \<and> list_all text_length_ok y)) \<and>
   (\<exists>l. opt_member json_i32 (map_of kvs ''power_level'') = Some l)"
  by (cases "opt_member as_str (map_of kvs ''name'')"; cases "opt_member json_str_list (map_of kvs ''powers'')";
      cases "opt_member json_i32 (map_of kvs ''power_level'')")
    (auto simp: decode_update_def Let_def object_fields [OF assms] validate_defs split: option.splits)

lemma accepted_update_v1:
  assumes "distinct (map fst kvs)"
  shows "accepted (decode_update_v1 (JObj kvs)) validate_update_v1 \<longleftrightarrow>
   (\<exists>x. opt_member as_str (map_of kvs ''name'') = Some x \<and> (\<forall>y. x = Some y \<longrightarrow> text_length_ok y)) \<and>
   (\<exists>x. opt_member as_str (map_of kvs ''superpower'') = Some x \<and> (\<forall>y. x = Some y \<longrightarrow> text_length_ok y)) \<and>
   (\<exists>l. opt_member json_i32 (map_of kvs ''power_level'') = Some l)"
  by (cases "opt_member as_str (map_of kvs ''name'')"; cases "opt_member as_str (map_of kvs ''superpower'')";
      cases "opt_member json_i32 (map_of kvs ''power_level'')")
    (auto simp: decode_update_v1_def Let_def object_fields [OF assms] validate_defs split: option.splits)

text \<open>
  C20. How the advertised body schemas relate to what the routes accept, for a JSON body whose objects
  name no member twice. A create schema admits an object if and only if the route decodes and validates
  it, or would without its power level and that is an integer serde cannot read as an \<open>i32\<close> (too wide, or
  written like \<open>5.0\<close>): so it refuses nothing that the route takes. The update schema differs from its
  route in the same way, and moreover refuses a null name or null powers, which the routes read as absent.
  No schema admits an array, though the routes decode one that lists the fields in order.
\<close>

theorem advertised_bodies:
  fixes n :: nat and fmt :: "string \<Rightarrow> json \<Rightarrow> bool"
  assumes "received (JObj kvs)" and "distinct (map fst kvs)"
  defines "valid s v \<equiv> schema_accepts fmt (Suc (Suc (Suc n))) s v"
    and "rest \<equiv> JObj (without_level kvs)"
  shows "valid (rd_create (hero_descriptor ''v2'' m)) (JObj kvs) =
      (accepted (decode_create (JObj kvs)) validate_create \<or>
       (wide_level kvs \<and> accepted (decode_create rest) validate_create)) \<and>
    valid (rd_create (hero_descriptor ''v1'' m)) (JObj kvs) =
      (accepted (decode_create_v1 (JObj kvs)) validate_create_v1 \<or>
       (wide_level kvs \<and> accepted (decode_create_v1 rest) validate_create_v1)) \<and>
    valid (rd_update (hero_descriptor ''v2'' m)) (JObj kvs) =
      ((accepted (decode_update (JObj kvs)) validate_update \<or>
        (wide_level kvs \<and> accepted (decode_update rest) validate_update)) \<and>
       map_of kvs ''name'' \<noteq> Some JNull \<and> map_of kvs ''powers'' \<noteq> Some JNull) \<and>
    valid (rd_update (hero_descriptor ''v1'' m)) (JObj kvs) =
      ((accepted (decode_update_v1 (JObj kvs)) validate_update_v1 \<or>
        (wide_level kvs \<and> accepted (decode_update_v1 rest) validate_update_v1)) \<and>
       map_of kvs ''name'' \<noteq> Some JNull \<and> map_of kvs ''superpower'' \<noteq> Some JNull) \<and>
    (\<forall>d \<in> set (build_manifest_registry m). \<not> valid (rd_create d) (JArr js) \<and> \<not> valid (rd_update d) (JArr js))"
proof -
  have n: "as_str JNull = None" "json_str_list JNull = None" by simp_all
  have "distinct (map fst (without_level kvs))" using assms(2) by (simp add: without_level_def distinct_map_filter)
  note routes = accepted_create [OF this] accepted_create_v1 [OF this] accepted_update [OF this]
    accepted_update_v1 [OF this] accepted_create [OF assms(2)] accepted_create_v1 [OF assms(2)]
    accepted_update [OF assms(2)] accepted_update_v1 [OF assms(2)]
  have none: "\<exists>l. opt_member json_i32 None = Some l" by (simp add: opt_member_def)
  have lookup: "map_of (without_level kvs) ''name'' = map_of kvs ''name''"
      "map_of (without_level kvs) ''powers'' = map_of kvs ''powers''"
      "map_of (without_level kvs) ''superpower'' = map_of kvs ''superpower''"
      "map_of (without_level kvs) ''power_level'' = None"
    by simp_all
  have k: "fst (power_schema True) = ''powers''" "fst (power_schema False) = ''superpower''"
    by (simp_all add: power_schema_def)
  have bodies: "valid (body_schema v2 required) (JObj kvs) \<longleftrightarrow>
      member_ok (\<lambda>v. \<exists>t. as_str v = Some t \<and> text_length_ok t) kvs ''name'' \<and>
      ((\<exists>l. opt_member json_i32 (map_of kvs ''power_level'') = Some l) \<or> wide_level kvs) \<and>
      (if v2 then member_ok (\<lambda>v. \<exists>ss. json_str_list v = Some ss \<and> ss \<noteq> [] \<and> list_all text_length_ok ss) kvs ''powers''
       else member_ok (\<lambda>v. \<exists>t. as_str v = Some t \<and> text_length_ok t) kvs ''superpower'') \<and>
      list_all (\<lambda>k. map_of kvs k \<noteq> None) required" for v2 required
    unfolding valid_def body_schema_accepts [OF assms(1)] level_member ..
  have arrays: "\<not> valid (body_schema v2 required) (JArr js)" for v2 required
    by (simp add: valid_def body_schema_def schema_def keyword_def Let_def)
  show ?thesis
    unfolding rest_def routes lookup req_member_ok
    by (auto simp: hero_descriptor_def Let_def bodies none k build_manifest_registry_def arrays
        member_not_null [where dec = as_str, OF n(1)] member_not_null [where dec = json_str_list, OF n(2)])
qed

text \<open>An array of the fields in order is decoded, and so is a shorter one for an update.\<close>

lemma array_bodies:
  "accepted (decode_create (JArr [JStr ''Storm'', json_strs [''weather'']])) validate_create"
  "accepted (decode_update (JArr [])) validate_update"
  by (simp_all add: decode_create_def decode_update_def Let_def field_at_def struct_shaped_def v2_fields_def
      req_member_def opt_member_def json_strs_def filter_map_def validate_defs text_length_ok_def MAX_LEN_def)

text \<open>
  C37. Every record a JSON route answers is an instance of the read schema its version advertises,
  whatever the record holds, as long as a validator takes \<open>format\<close> for an annotation, or if timestamps were
  written as RFC 3339 asks. As they are written, without an offset, no record of either version is an
  instance for a validator that asserts the advertised \<open>date-time\<close>.
\<close>

theorem advertised_reads:
  fixes n :: nat and m :: mode and h :: hero
  assumes "naive_documented time_text" and "\<And>t. rfc3339_date_time (offset_text t)"
  defines "v2 fmt \<equiv> schema_accepts fmt (Suc (Suc (Suc n))) (rd_read (hero_descriptor ''v2'' m)) (read_json (read_from_model h))"
    and "v1 fmt \<equiv> schema_accepts fmt (Suc (Suc (Suc n))) (rd_read (hero_descriptor ''v1'' m)) (read_v1_json (read_v1_from_model h))"
  shows "v2 annotated \<and> v1 annotated \<and> v2 (asserted offset_text) \<and> v1 (asserted offset_text) \<and>
    \<not> v2 (asserted time_text) \<and> \<not> v1 (asserted time_text)"
proof -
  have yes: "v2 fmt \<and> v1 fmt" if "\<And>t. fmt ''date-time'' (JTime t)" "fmt ''date-time'' JNull" for fmt
    using that unfolding v2_def v1_def hero_descriptor_def Let_def
    by (simp add: object_schema_accepts read_properties_def power_schema_def date_time_def read_json_def read_v1_json_def
        del: schema_accepts.simps)
      (auto simp: member_ok_def keyword_def json_strs_def json_opt_def filter_map_def list_all_iff split: option.splits)
  have "asserted time_text ''date-time'' (JTime t) = False" for t
    using naive_not_date_time [OF assms(1)] by (simp add: asserted_def)
  then have "\<not> v2 (asserted time_text) \<and> \<not> v1 (asserted time_text)"
    unfolding v2_def v1_def hero_descriptor_def Let_def
    by (simp add: object_schema_accepts read_properties_def power_schema_def date_time_def read_json_def read_v1_json_def
        del: schema_accepts.simps)
      (simp add: member_ok_def keyword_def)
  then show ?thesis
    using yes [of annotated] yes [of "asserted offset_text"] assms(2) by (simp add: annotated_def asserted_def)
qed

section \<open>Concrete values\<close>

definition sample_body :: "(string \<times> json) list" where
  "sample_body = [(''name'', JStr ''Storm''), (''powers'', json_strs [''weather'']), (''power_level'', JInt 9)]"

text \<open>A body whose power level the schema admits and the \<open>i32\<close> of the route cannot hold.\<close>

definition wide_body :: "(string \<times> json) list" where
  "wide_body = [(''name'', JStr ''Storm''), (''powers'', json_strs [''weather'']), (''power_level'', JDec 50 (- 1))]"

lemma sample_bodies:
  "accepted (decode_create (JObj sample_body)) validate_create"
  "\<not> accepted (decode_create_v1 (JObj sample_body)) validate_create_v1"
  "\<not> accepted (decode_create (JObj wide_body)) validate_create"
  "accepted (decode_create (JObj (without_level wide_body))) validate_create"
  "wide_level wide_body"
  by (simp_all add: sample_body_def wide_body_def without_level_def wide_level_def decode_create_def decode_create_v1_def
      Let_def field_at_def struct_shaped_def v2_fields_def v1_fields_def req_member_def opt_member_def json_strs_def
      filter_map_def i32_range_def validate_create_Inr text_length_ok_def MAX_LEN_def dec_integral_def)

theorem advertised_bodies_witness:
  "schema_accepts annotated 3 (rd_create (hero_descriptor ''v2'' Production)) (JObj sample_body) \<and>
   \<not> schema_accepts annotated 3 (rd_create (hero_descriptor ''v1'' Production)) (JObj sample_body) \<and>
   schema_accepts annotated 3 (rd_create (hero_descriptor ''v2'' Production)) (JObj wide_body) \<and>
   \<not> accepted (decode_create (JObj wide_body)) validate_create"
proof -
  have s: "received (JObj sample_body)" "distinct (map fst sample_body)" "\<not> wide_level sample_body"
    by (simp_all add: sample_body_def json_strs_def wide_level_def i32_range_def)
  have w: "received (JObj wide_body)" "distinct (map fst wide_body)" by (simp_all add: wide_body_def json_strs_def)
  from advertised_bodies [OF s(1,2), of annotated 0 Production] advertised_bodies [OF w, of annotated 0 Production]
    sample_bodies s(3)
  show ?thesis by (simp add: numeral_3_eq_3 del: schema_accepts.simps)
qed

text \<open>A clock of two seconds, with the text of an offset or without.\<close>

definition sample_time_text :: "string \<Rightarrow> int \<Rightarrow> string" where
  "sample_time_text offset t = (if even t then ''2026-01-01T00:00:00'' else ''2026-01-01T00:00:01'') @ offset"

lemma sample_time_texts:
  "naive_documented (sample_time_text [])" "rfc3339_date_time (sample_time_text ''Z'' t)"
proof -
  have "sample_time_text [] t = ''2026-01-01'' @ ''T'' @ (if even t then ''00:00:00'' else ''00:00:01'')" for t
    by (simp add: sample_time_text_def)
  then show "naive_documented (sample_time_text [])"
    unfolding naive_documented_def by (intro allI exI conjI) (assumption, simp add: clock_char_def is_digit_def)
  show "rfc3339_date_time (sample_time_text ''Z'' t)"
    by (simp add: sample_time_text_def rfc3339_date_time_def shaped_def fraction_offset_def time_offset_def is_digit_def)
qed

theorem advertised_reads_witness:
  "schema_accepts annotated 3 (rd_read (hero_descriptor ''v2'' Dev))
     (read_json (read_from_model (sample_hero 1 ''Spectra'' ''alice'' None))) \<and>
   \<not> schema_accepts (asserted (sample_time_text [])) 3 (rd_read (hero_descriptor ''v2'' Dev))
     (read_json (read_from_model (sample_hero 1 ''Spectra'' ''alice'' None)))"
  using advertised_reads [OF sample_time_texts, of 0 Dev "sample_hero 1 ''Spectra'' ''alice'' None"]
  by (simp add: numeral_3_eq_3 del: schema_accepts.simps)

end
