(* ===== verification/Migration.thy ===== *)
theory Migration
  imports Hero_Sea_Orm Hero_Endpoint
begin

text \<open>
  \<open>src/migration/\<close>: the table the one migration creates, as data, and its two steps over a schema
  manager (a parameter). A repository over an engine that checks every statement against that table
  behaves like one over the engine itself: no statement the repository sends is ill-typed, misses
  a column that must not be null, or names a column the table does not have.
\<close>

section \<open>The migration\<close>

datatype column_type = IntegerType | StringType | TextArrayType | TimestampType

record column_def =
  cd_name :: string
  cd_type :: column_type
  cd_not_null :: bool
  cd_auto_increment :: bool
  cd_primary_key :: bool

definition column_new :: "string \<Rightarrow> column_type \<Rightarrow> column_def" where
  "column_new name ty =
     \<lparr>cd_name = name, cd_type = ty, cd_not_null = False, cd_auto_increment = False, cd_primary_key = False\<rparr>"

record table_create =
  tc_table :: string
  tc_if_not_exists :: bool
  tc_columns :: "column_def list"

record index_create =
  ic_name :: string
  ic_table :: string
  ic_columns :: "string list"

datatype ddl = CreateTable table_create | CreateIndex index_create | DropTable string

definition heroes_table :: table_create where
  "heroes_table =
     \<lparr>tc_table = ''heroes'', tc_if_not_exists = True,
      tc_columns =
        [(column_new ''id'' IntegerType)\<lparr>cd_not_null := True, cd_auto_increment := True, cd_primary_key := True\<rparr>,
         column_new ''name'' StringType,
         column_new ''powers'' TextArrayType,
         column_new ''power_level'' IntegerType,
         (column_new ''owner_id'' StringType)\<lparr>cd_not_null := True\<rparr>,
         column_new ''archived_at'' TimestampType,
         (column_new ''created_at'' TimestampType)\<lparr>cd_not_null := True\<rparr>,
         (column_new ''updated_at'' TimestampType)\<lparr>cd_not_null := True\<rparr>]\<rparr>"

definition heroes_owner_index :: index_create where
  "heroes_owner_index = \<lparr>ic_name = ''ix_heroes_owner_id'', ic_table = ''heroes'', ic_columns = [''owner_id'']\<rparr>"

definition up :: "(ddl \<Rightarrow> ('db, string, unit) eff) \<Rightarrow> ('db, string, unit) eff" where
  "up manager = and_then (manager (CreateTable heroes_table)) (\<lambda>_. manager (CreateIndex heroes_owner_index))"

definition down :: "(ddl \<Rightarrow> ('db, string, unit) eff) \<Rightarrow> ('db, string, unit) eff" where
  "down manager = manager (DropTable ''heroes'')"

section \<open>Statements against a table\<close>

text \<open>The values a statement binds, and what a column takes.\<close>

datatype cell = CNull | CInt int | CText string | CTextArray "string list" | CTimestamp int

fun cell_fits :: "column_def \<Rightarrow> cell \<Rightarrow> bool" where
  "cell_fits cd CNull = (\<not> cd_not_null cd)"
| "cell_fits cd (CInt v) = (cd_type cd = IntegerType \<and> i32_range v)"
| "cell_fits cd (CText v) = (cd_type cd = StringType)"
| "cell_fits cd (CTextArray v) = (cd_type cd = TextArrayType)"
| "cell_fits cd (CTimestamp v) = (cd_type cd = TimestampType)"

definition cell_opt :: "('a \<Rightarrow> cell) \<Rightarrow> 'a option \<Rightarrow> cell" where
  "cell_opt f v = (case v of None \<Rightarrow> CNull | Some x \<Rightarrow> f x)"

definition active_map :: "('a \<Rightarrow> cell) \<Rightarrow> 'a active_value \<Rightarrow> cell option" where
  "active_map f v = (case v of NotSet \<Rightarrow> None | Set x \<Rightarrow> Some (f x))"

text \<open>The columns an active model sets, by the names of \<open>Model\<close>'s fields.\<close>

definition am_cells :: "active_model \<Rightarrow> (string \<times> cell option) list" where
  "am_cells am =
     [(''id'', active_map CInt (am_id am)), (''name'', active_map (cell_opt CText) (am_name am)),
      (''powers'', active_map (cell_opt CTextArray) (am_powers am)),
      (''power_level'', active_map (cell_opt CInt) (am_power_level am)),
      (''owner_id'', active_map CText (am_owner_id am)),
      (''archived_at'', active_map (cell_opt CTimestamp) (am_archived_at am)),
      (''created_at'', active_map CTimestamp (am_created_at am)),
      (''updated_at'', active_map CTimestamp (am_updated_at am))]"

definition find_column :: "column_def list \<Rightarrow> string \<Rightarrow> column_def option" where
  "find_column cols name = find (\<lambda>cd. cd_name cd = name) cols"

definition values_fit :: "column_def list \<Rightarrow> active_model \<Rightarrow> bool" where
  "values_fit cols am =
     list_all (\<lambda>(name, v). case v of None \<Rightarrow> True
       | Some cell \<Rightarrow> (case find_column cols name of None \<Rightarrow> False | Some cd \<Rightarrow> cell_fits cd cell)) (am_cells am)"

text \<open>An \<open>INSERT\<close> also has to give every column that may not be null and has no default.\<close>

definition insert_fits :: "column_def list \<Rightarrow> active_model \<Rightarrow> bool" where
  "insert_fits cols am =
     (values_fit cols am \<and>
      list_all (\<lambda>cd. \<not> cd_not_null cd \<or> cd_auto_increment cd \<or>
        map_of (am_cells am) (cd_name cd) \<notin> {None, Some None}) cols)"

fun column_name :: "column \<Rightarrow> string" where
  "column_name ColId = ''id''"
| "column_name ColName = ''name''"
| "column_name ColPowers = ''powers''"
| "column_name ColPowerLevel = ''power_level''"
| "column_name ColOwnerId = ''owner_id''"
| "column_name ColArchivedAt = ''archived_at''"
| "column_name ColCreatedAt = ''created_at''"
| "column_name ColUpdatedAt = ''updated_at''"

text \<open>The comparisons Postgres has an operator for, among the bound types.\<close>

fun comparable :: "column_type \<Rightarrow> sea_value \<Rightarrow> bool" where
  "comparable IntegerType (VInt v) = (case v of None \<Rightarrow> True | Some n \<Rightarrow> i32_range n)"
| "comparable IntegerType (VDouble v) = True"
| "comparable StringType (VString v) = True"
| "comparable TimestampType (VDateTime v) = True"
| "comparable ty v = False"

definition column_is :: "column_def list \<Rightarrow> (column_type \<Rightarrow> bool) \<Rightarrow> column \<Rightarrow> bool" where
  "column_is cols p c = (case find_column cols (column_name c) of None \<Rightarrow> False | Some cd \<Rightarrow> p (cd_type cd))"

fun expr_fits :: "column_def list \<Rightarrow> simple_expr \<Rightarrow> bool" where
  "expr_fits cols (ValEq a b) = True"
| "expr_fits cols (ColCmp op c v) = column_is cols (\<lambda>ty. comparable ty v) c"
| "expr_fits cols (ColIn c vs) = column_is cols (\<lambda>ty. list_all (comparable ty) vs) c"
| "expr_fits cols (ColContains c t) = column_is cols (\<lambda>ty. ty = StringType) c"
| "expr_fits cols (LowerLike c pat) = column_is cols (\<lambda>ty. ty = StringType) c"
| "expr_fits cols (ColIsNull c) = column_is cols (\<lambda>ty. True) c"
| "expr_fits cols (ColIsNotNull c) = column_is cols (\<lambda>ty. True) c"

definition select_fits :: "column_def list \<Rightarrow> select \<Rightarrow> bool" where
  "select_fits cols q =
     (list_all (expr_fits cols) (q_where q) \<and> list_all (\<lambda>(c, _). column_is cols (\<lambda>ty. True) c) (q_order q))"

text \<open>The engine that refuses whatever does not fit.\<close>

definition checked :: "column_def list \<Rightarrow> 'db engine \<Rightarrow> 'db engine" where
  "checked cols eng =
     \<lparr>db_all = (\<lambda>q d. if select_fits cols q then db_all eng q d else Inl ''schema''),
      db_count = (\<lambda>q d. if select_fits cols q then db_count eng q d else Inl ''schema''),
      db_one = (\<lambda>q d. if select_fits cols q then db_one eng q d else Inl ''schema''),
      db_insert = (\<lambda>am d. if insert_fits cols am then db_insert eng am d else (Inl ''schema'', d)),
      db_update_returning = (\<lambda>am es d.
        if values_fit cols am \<and> list_all (expr_fits cols) es then db_update_returning eng am es d
        else (Inl ''schema'', d))\<rparr>"

section \<open>The repository's statements fit the migrated table\<close>

text \<open>
  What the crate's query parser promises of a filter, given the field specifications: a known field,
  a value of the field's kind (a list of them for \<open>In\<close>), a text search only on a text field.
\<close>

fun value_of_kind :: "field_kind \<Rightarrow> filter_value \<Rightarrow> bool" where
  "value_of_kind NumberField (FInt v) = True"
| "value_of_kind NumberField (FFloat v) = True"
| "value_of_kind StringField (FStr v) = True"
| "value_of_kind DatetimeField (FDateTime v) = True"
| "value_of_kind k v = False"

definition clause_typed :: "field_spec list \<Rightarrow> filter_clause \<Rightarrow> bool" where
  "clause_typed specs c =
     (case map_of specs (fc_field c) of
        None \<Rightarrow> False
      | Some k \<Rightarrow>
          if fc_op c = In then list_of_values (value_of_kind k) (fc_value c)
          else value_of_kind k (fc_value c) \<and> (fc_op c = Contains \<or> fc_op c = Icontains \<longrightarrow> k = StringField))"

definition level_ok :: "int option \<Rightarrow> bool" where
  "level_ok v = (case v of None \<Rightarrow> True | Some n \<Rightarrow> i32_range n)"

abbreviation heroes_columns :: "column_def list" where
  "heroes_columns \<equiv> tc_columns heroes_table"

lemma find_heroes_column:
  "find_column heroes_columns ''id'' =
     Some ((column_new ''id'' IntegerType)\<lparr>cd_not_null := True, cd_auto_increment := True, cd_primary_key := True\<rparr>)"
  "find_column heroes_columns ''name'' = Some (column_new ''name'' StringType)"
  "find_column heroes_columns ''powers'' = Some (column_new ''powers'' TextArrayType)"
  "find_column heroes_columns ''power_level'' = Some (column_new ''power_level'' IntegerType)"
  "find_column heroes_columns ''owner_id'' = Some ((column_new ''owner_id'' StringType)\<lparr>cd_not_null := True\<rparr>)"
  "find_column heroes_columns ''archived_at'' = Some (column_new ''archived_at'' TimestampType)"
  "find_column heroes_columns ''created_at'' = Some ((column_new ''created_at'' TimestampType)\<lparr>cd_not_null := True\<rparr>)"
  "find_column heroes_columns ''updated_at'' = Some ((column_new ''updated_at'' TimestampType)\<lparr>cd_not_null := True\<rparr>)"
  by (simp_all add: find_column_def heroes_table_def column_new_def)

lemma column_type_heroes [simp]:
  "column_is heroes_columns p ColId = p IntegerType" "column_is heroes_columns p ColName = p StringType"
  "column_is heroes_columns p ColPowers = p TextArrayType" "column_is heroes_columns p ColPowerLevel = p IntegerType"
  "column_is heroes_columns p ColOwnerId = p StringType" "column_is heroes_columns p ColArchivedAt = p TimestampType"
  "column_is heroes_columns p ColCreatedAt = p TimestampType" "column_is heroes_columns p ColUpdatedAt = p TimestampType"
  by (simp_all add: column_is_def find_heroes_column column_new_def)

lemma any_column [simp]: "column_is heroes_columns (\<lambda>_. True) c"
  by (cases c) simp_all

lemmas fits_defs = values_fit_def am_cells_def active_map_def cell_opt_def find_heroes_column column_new_def
  default_active_def

text \<open>A typed value fits the column the filter's field names.\<close>

fun kind_type :: "field_kind \<Rightarrow> column_type" where
  "kind_type NumberField = IntegerType"
| "kind_type StringField = StringType"
| "kind_type DatetimeField = TimestampType"

lemma value_comparable: "value_of_kind k v \<Longrightarrow> comparable (kind_type k) (scalar v)"
  by (cases k; cases v) (simp_all add: as_i32_range)

lemma values_comparable: "list_all (value_of_kind k) vs \<Longrightarrow> list_all (comparable (kind_type k)) (map scalar vs)"
  by (induction vs) (simp_all add: value_comparable)

lemma spec_column:
  assumes "map_of HERO_FIELD_SPECS f = Some k"
  shows "\<exists>col. column_for f = Some col \<and> (\<forall>p. column_is heroes_columns p col = p (kind_type k))"
  using assms by (auto simp: HERO_FIELD_SPECS_def column_for_def split: if_splits)

lemma clause_fits:
  assumes "clause_typed HERO_FIELD_SPECS c"
  shows "expr_fits heroes_columns (condition_for c)"
proof -
  obtain k where k: "map_of HERO_FIELD_SPECS (fc_field c) = Some k"
    using assms by (auto simp: clause_typed_def split: option.splits)
  obtain col where col: "column_for (fc_field c) = Some col" "\<And>p. column_is heroes_columns p col = p (kind_type k)"
    using spec_column [OF k] by blast
  show ?thesis
  proof (cases "fc_op c = In")
    case True
    then obtain vs where "fc_value c = FList vs" "list_all (value_of_kind k) vs"
      using assms k by (cases "fc_value c") (auto simp: clause_typed_def)
    then show ?thesis using True col values_comparable by (simp add: condition_for_def)
  next
    case False
    then have "value_of_kind k (fc_value c)" "fc_op c = Contains \<or> fc_op c = Icontains \<Longrightarrow> k = StringField"
      using assms k by (auto simp: clause_typed_def)
    then show ?thesis
      using False col value_comparable [of k "fc_value c"] by (cases "fc_op c") (simp_all add: condition_for_def)
  qed
qed

lemma filters_fit:
  "list_all (clause_typed HERO_FIELD_SPECS) filters \<Longrightarrow> list_all (expr_fits heroes_columns) (map condition_for filters)"
  by (induction filters) (simp_all add: clause_fits)

lemma fold_and_where:
  "q_where (apply_filters filter_where q filters) = q_where q @ map condition_for filters"
  "q_order (apply_filters filter_where q filters) = q_order q"
  by (induction filters arbitrary: q) (simp_all add: apply_filters_def filter_where_def)

lemma archive_scope_fits [simp]:
  "select_fits heroes_columns (archive_scope find_all a b)" "q_order (archive_scope find_all a b) = []"
  by (simp_all add: archive_scope_def find_all_def filter_where_def select_fits_def)

lemma sort_fits: "select_fits heroes_columns (sea_apply_sort q clauses) = select_fits heroes_columns q"
  by (induction clauses arbitrary: q)
    (auto simp: sea_apply_sort_def select_fits_def order_by_def split: option.splits)

lemma filtered_fits:
  assumes "list_all (clause_typed HERO_FIELD_SPECS) filters" "select_fits heroes_columns q"
  shows "select_fits heroes_columns (apply_filters filter_where q filters)"
  using assms filters_fit [of filters] by (simp add: select_fits_def fold_and_where)

lemma list_query_fits:
  assumes "list_all (clause_typed HERO_FIELD_SPECS) (lo_filters opts)"
  shows "select_fits heroes_columns (sea_list_query opts)"
proof -
  have limited: "select_fits heroes_columns (q\<lparr>q_offset := a, q_limit := b\<rparr>) = select_fits heroes_columns q" for q a b
    by (simp add: select_fits_def)
  have ordered: "select_fits heroes_columns (order_by ColId d q) = select_fits heroes_columns q" for d q
    by (simp add: select_fits_def order_by_def)
  show ?thesis
    using filtered_fits [OF assms, of "archive_scope find_all (lo_include_archived opts) (lo_only_archived opts)"]
    by (simp add: sea_list_query_def Let_def limited ordered sort_fits)
qed

lemma update_values_fit: "level_ok (hu_power_level data) \<Longrightarrow> values_fit heroes_columns (update_values_am data now)"
  by (cases "hu_name data"; cases "hu_powers data"; cases "hu_power_level data")
    (simp_all add: update_values_am_def level_ok_def fits_defs Let_def)

lemma archive_values_fit: "values_fit heroes_columns (archive_values now)"
  by (simp add: archive_values_def fits_defs)

lemma create_values_fit:
  assumes "level_ok (hc_power_level data)"
  shows "insert_fits heroes_columns (default_active\<lparr>am_name := Set (Some (hc_name data)),
    am_powers := Set (Some (hc_powers data)), am_power_level := Set (hc_power_level data),
    am_owner_id := Set owner, am_archived_at := Set None, am_created_at := Set now, am_updated_at := Set now\<rparr>)"
  using assms
  by (cases "hc_power_level data") (simp_all add: insert_fits_def level_ok_def fits_defs heroes_table_def find_column_def)

lemma bulk_where_fits:
  assumes "list_all (clause_typed HERO_FIELD_SPECS) filters"
  shows "list_all (expr_fits heroes_columns) (apply_filters (\<lambda>e es. es @ [e]) [ColIsNull ColArchivedAt] filters)"
  using filters_fit [OF assms] by (simp add: apply_filters_list)

text \<open>
  C19. Every statement the repository sends fits the table the migration creates: over an engine that
  refuses an ill-typed value, an integer out of the column's range, a missing value of a column that
  may not be null, an unknown column, or a comparison without an operator, each operation does what
  it does over the engine itself, for integers the request types admit and filters typed by
  \<open>HERO_FIELD_SPECS\<close>.
\<close>

theorem statements_fit_schema:
  fixes eng :: "'db engine"
  assumes "i32_range i" and "level_ok (hc_power_level new)" and "level_ok (hu_power_level data)"
    and "list_all (clause_typed HERO_FIELD_SPECS) filters"
    and "list_all (clause_typed HERO_FIELD_SPECS) (lo_filters opts)"
  defines "eng' \<equiv> checked (tc_columns heroes_table) eng"
  shows "sea_list eng' opts d = sea_list eng opts d \<and>
    sea_count eng' filters a b d = sea_count eng filters a b d \<and>
    sea_get eng' i a d = sea_get eng i a d \<and>
    sea_create eng' clk owner new d = sea_create eng clk owner new d \<and>
    sea_update eng' clk i owner data d = sea_update eng clk i owner data d \<and>
    sea_update_many eng' clk filters data d = sea_update_many eng clk filters data d \<and>
    sea_delete eng' clk i owner d = sea_delete eng clk i owner d \<and>
    sea_delete_many eng' clk filters d = sea_delete_many eng clk filters d"
proof -
  have one: "list_all (expr_fits heroes_columns)
      [ColCmp SEq ColId (VInt (Some i)), ColCmp SEq ColOwnerId (VString owner), ColIsNull ColArchivedAt]"
    using assms(1) by simp
  have got: "select_fits heroes_columns (filter_where (ColCmp SEq ColId (VInt (Some i))) find_all)"
      "select_fits heroes_columns (filter_where (ColIsNull ColArchivedAt)
         (filter_where (ColCmp SEq ColId (VInt (Some i))) find_all))"
    using assms(1) by (simp_all add: select_fits_def filter_where_def find_all_def)
  have counted: "select_fits heroes_columns (apply_filters filter_where (archive_scope find_all a b) filters)"
    using filtered_fits [OF assms(4)] by simp
  note fits = one got counted list_query_fits [OF assms(5)] bulk_where_fits [OF assms(4)]
    update_values_fit [OF assms(3)] archive_values_fit create_values_fit [OF assms(2)]
  show ?thesis
    using fits
    by (simp add: eng'_def checked_def sea_list_def sea_count_def sea_get_def sea_create_def sea_update_def
        sea_update_many_def sea_delete_def sea_delete_many_def Let_def)
qed

theorem statements_fit_schema_witness:
  "sea_create (checked (tc_columns heroes_table) ref_engine) (\<lambda>n. 5) ''alice''
     \<lparr>hc_name = ''Storm'', hc_powers = [''weather''], hc_power_level = Some 9\<rparr> sample_db =
   sea_create ref_engine (\<lambda>n. 5) ''alice''
     \<lparr>hc_name = ''Storm'', hc_powers = [''weather''], hc_power_level = Some 9\<rparr> sample_db \<and>
   sea_delete_many (checked (tc_columns heroes_table) ref_engine) (\<lambda>n. 5)
     [\<lparr>fc_field = ''id'', fc_op = Lt, fc_value = FInt 7\<rparr>] sample_db =
   sea_delete_many ref_engine (\<lambda>n. 5) [\<lparr>fc_field = ''id'', fc_op = Lt, fc_value = FInt 7\<rparr>] sample_db"
proof -
  let ?new = "\<lparr>hc_name = ''Storm'', hc_powers = [''weather''], hc_power_level = Some 9\<rparr>"
  let ?data = "\<lparr>hu_name = None, hu_powers = None, hu_power_level = None\<rparr>"
  let ?filters = "[\<lparr>fc_field = ''id'', fc_op = Lt, fc_value = FInt 7\<rparr>]"
  let ?opts = "\<lparr>lo_skip = 0, lo_limit = 1, lo_include_archived = False, lo_only_archived = False,
    lo_filters = [], lo_sort = []\<rparr>"
  have "i32_range 1" "level_ok (hc_power_level ?new)" "level_ok (hu_power_level ?data)"
      "list_all (clause_typed HERO_FIELD_SPECS) ?filters" "list_all (clause_typed HERO_FIELD_SPECS) (lo_filters ?opts)"
    by (simp_all add: i32_range_def level_ok_def clause_typed_def HERO_FIELD_SPECS_def)
  from statements_fit_schema [OF this, where eng = ref_engine and d = sample_db and clk = "\<lambda>n. 5"
    and owner = "''alice''"] show ?thesis by blast
qed

end
