(* ===== verification/Spec2Isabelle.thy ===== *)
theory Spec2Isabelle
  imports Concurrent_Requests Manifest Migration
begin

text \<open>
  A verification development of the axum service template of this repository, a web service with one
  resource, Hero, served on four API routers and a set of HTML forms.

  \<^bold>\<open>The program.\<close> \<open>src/main.rs\<close> reads and checks the configuration (\<open>src/config.rs\<close>), opens and migrates
  the database (\<open>src/db.rs\<close>, \<open>src/migration/\<close>), builds the state (\<open>src/lib.rs\<close>), serves the router and
  closes down in order. The mode decides the infrastructure: mock mode keeps everything in memory,
  the others use Postgres, Redis, MQTT and an identity provider. A request passes the response
  layers (\<open>src/http_headers.rs\<close>, \<open>src/problem_details.rs\<close>), is authenticated by the extractor of its route
  (\<open>src/oidc/mod.rs\<close>, or \<open>WebAuthClaims\<close> of \<open>heroes_web.rs\<close>), and reaches a handler of
  \<open>src/hero/controllers/\<close>. A write handler spends a token of the rate limiter (\<open>src/rate_limit.rs\<close>), checks
  the roles, decodes and validates the body (\<open>src/hero/views/\<close>), checks \<open>If-Match\<close>, calls the service of
  the crate \<open>craftainer_crud\<close> over one of two repositories (\<open>src/hero/repositories/\<close>), publishes an event
  and tracks it. A background task (\<open>src/cache.rs\<close>) invalidates cached statistics on these events.

  \<^bold>\<open>How it is modelled.\<close> A handler is a function from a world to a result and a world (\<open>eff\<close> of
  \<open>Prelude_Axum\<close>; an early return is \<open>Inl\<close>); the world (\<open>world\<close> of \<open>App_State\<close>) holds the repository, the
  limiter and the logs of events and tracked actions. Structs are records, enums datatypes, the
  integers of the limiter, the bodies and the filters have their widths (words, or \<open>int\<close> with the range
  or the wrap written out), a panic and \<open>exit(1)\<close> are values (\<open>started\<close>). A clock is a function of how often
  it was read, or the time is an argument.

  \<^bold>\<open>Theories and sources.\<close>
  \<^item> \<open>Prelude_Axum\<close>: effects, strings, association-list B-trees, stable sorting; the collections
    \<open>run_simps\<close> and \<open>std_simps\<close>. \<open>Http\<close>: JSON values, headers, responses.
  \<^item> \<open>Http_Headers\<close>, \<open>Problem_Details\<close>: \<open>http_headers.rs\<close>, \<open>problem_details.rs\<close>; the shape of every error
    response and the two response layers.
  \<^item> \<open>Config\<close>, \<open>Db\<close>: \<open>config.rs\<close>, \<open>db.rs\<close>; every setting, its checks and messages, \<open>security.txt\<close>, and what a
    process in production is sure to have.
  \<^item> \<open>Oidc\<close>: \<open>oidc/mod.rs\<close>, \<open>oidc/well_known.rs\<close>; the JWKS cache with its 300 seconds, verification, roles, the
    documents under \<open>.well-known\<close>.
  \<^item> \<open>Rate_Limit\<close>: \<open>rate_limit.rs\<close>; both backends against one reference, the locale \<open>fixed_window\<close>.
  \<^item> \<open>Hero_Views\<close>: \<open>hero/models\<close> and \<open>hero/views\<close>; validation and conversion of bodies and records.
  \<^item> \<open>Hero_Repository\<close>: the query types of the crate, repository commands, and the repository contract
    as the locale \<open>hero_repository\<close>, with counts \<open>counted_repository\<close>. \<open>Hero_Memory\<close> (\<open>hero_memory.rs\<close>)
    interprets both; \<open>Hero_Sea_Orm\<close> (\<open>hero_sea_orm.rs\<close>) does so for every engine of the locales
    \<open>sql_engine\<close> and \<open>counting_engine\<close>, by sublocales, and compares the rows the two select. \<open>Migration\<close>: the table, and that every statement fits it.
  \<^item> \<open>App_State\<close> (\<open>controllers/mod.rs\<close>, \<open>analytics.rs\<close>), \<open>Crud_Service\<close> (what the crate's service does over
    a repository), \<open>Hero_Endpoint\<close> (the write pipeline and read lookup the routers share, the locale
    \<open>write_endpoint\<close>).
  \<^item> \<open>Heroes_Json\<close>, \<open>Heroes_Xml\<close>, \<open>Heroes_V1\<close>, \<open>Heroes_V1_Xml\<close>: the handlers of the four routers, each as its
    file writes it; \<open>Heroes_Routes\<close> interprets \<open>write_endpoint\<close> on them and proves gates, ownership,
    conditional requests and announcements; \<open>Heroes_Siblings\<close> compares the routers.
  \<^item> \<open>Html_Pages\<close>, \<open>Heroes_Web\<close>: \<open>heroes_web.rs\<close>; escaping, the pages, the second interpretation of
    \<open>write_endpoint\<close>, and that a form post is the JSON write.
  \<^item> \<open>Hero_Stats\<close>: statistics, prediction and event stream of \<open>heroes.rs\<close>; \<open>Stats_Cache\<close>: \<open>cache.rs\<close>, with the
    invalidation task as the step relation \<open>run_invalidation\<close>; \<open>Generic_Controllers\<close>: \<open>audit.rs\<close>, \<open>mock.rs\<close>.
  \<^item> \<open>Wiring\<close>: \<open>lib.rs\<close>, \<open>main.rs\<close>, from the logger to the last await; \<open>Manifest\<close>: the descriptors of
    \<open>lib.rs\<close> against the routes, with the keywords of JSON Schema they use and serde's decoding; \<open>Application\<close>: one
    request, and a sequence of them, through all of it; \<open>Concurrent_Requests\<close>: requests whose steps
    between their awaits interleave. \<open>Sample_App\<close>: the instance of the witnesses.

  \<^bold>\<open>What is shown.\<close> End to end, in \<open>Application\<close>: outside mock mode a row changes only by a request with a
  token that was verified under the configured issuer and audience, whose claims have a role of the
  route and whose subject owns the row; over any sequence of requests a row keeps its identity and an
  archived one stays as it is; a request that does not authenticate changes nothing. Under any
  interleaving of the steps of authenticated requests (\<open>run_schedule\<close>) the repository goes through whole
  commands, at most one of each request and within its caller's rights; the check of \<open>If-Match\<close> and the
  write are two steps, and \<open>tag_check_is_not_atomic\<close> shows the lost update this allows. Below that:
  both repositories keep one contract per command; listings are pages of a strictly ordered
  sequence; the limiter gives each client the verdicts of its own requests, on both backends; each
  write passes limiter and roles before it does anything, is announced exactly once, and a stale
  \<open>If-Match\<close> stops it; the four routers and the forms have the same effects; invalidation returns
  and drops every version of an entry, and the task catches up; the markup of the pages does not
  depend on stored values or tokens; a token is refused as such, or with 503 for want of a key set,
  exactly when it should be; the archived count of \<open>/stats\<close> does not wrap on Postgres whatever runs
  between its two counts. The advertised body schemas are compared with the routes member by member:
  they admit what the routes accept, integers too wide for an \<open>i32\<close> besides, and no null name or powers
  in an update, which the routes take; the read schemas fit every record but for the asserted
  \<open>date-time\<close>, which the timestamps are not, having no offset. A start panics only on a failed logger,
  connection, migration or port. A signalled process with a timeout leaves its server within it and
  closes in order; only the analytics flush has a bound of its own, and \<open>main\<close> returns if and only if
  the invalidation task, the pool and the telemetry shutdown do end.

  \<^bold>\<open>Parameters and hypotheses.\<close> Code outside the repository is an argument, and what is relied on is a
  named predicate with an instance that satisfies it.
  \<^item> \<open>service_over\<close>, \<open>reads_keep\<close>, \<open>plain_crate\<close>, \<open>parses_empty\<close>: \<open>craftainer_crud\<close>. A resolve function makes one call
    of the repository with the caller's \<open>owner_id\<close>, reads do not write, and so on (\<open>crud_over\<close>).
  \<^item> \<open>sql_engine\<close>, \<open>counting_engine\<close>: Postgres runs the statements as SQL says (\<open>ref_engine\<close>). \<open>clause_typed\<close>: the crate hands
    over filter values of the type the field table names.
  \<^item> \<open>jwt_documented\<close>, \<open>jwt_compact\<close>, \<open>encodes_compact\<close>: jsonwebtoken and base64.
  \<^item> \<open>redis_documented\<close>, \<open>redis_store_documented\<close>, \<open>glob_documented\<close>: the Redis commands used.
  \<^item> \<open>cached_stats_documented\<close>, \<open>stats_over\<close>, \<open>f64_exact\<close>: the statistics helpers and floating point.
  \<^item> \<open>naive_documented\<close>: chrono writes a \<open>NaiveDateTime\<close> without offset (\<open>sample_time_text\<close>).
  \<^item> \<open>connections\<close>, \<open>closing_world\<close>, futures: what connecting, binding and installing the logger answer, and
    when the server, a signal and the awaits of the end complete, if they do.

  \<^bold>\<open>Bounds.\<close> \<open>schema_accepts\<close> takes a nesting bound, and 3 suffices for the advertised schemas.
  \<open>scan_loop\<close> is a partial function in the option monad, as Redis decides how often it turns; it is
  shown to return. What is shown of the limiter holds of runs of fewer than \<open>2 ^ 32\<close> requests, as its
  counter has 32 bits. All other recursion is structural.

  \<^bold>\<open>Not modelled.\<close> What the logger and the telemetry do; the tracing, span and request-id layers, which do
  not touch a response but for the id they echo; connection tasks that outlive the server, and the
  runtime's wait for a flush that was given up; rendering a JSON or XML value, a template string of
  the crate or a date as text; path and query decoding by axum, so a request comes with its typed
  path and query; threads that run at the same instant, a call of the limiter, the service or the bus
  being one step; the tests. \<open>dispatch\<close> covers the create, read, update and delete handlers of the four
  Hero routers and the form pages; the handlers of the statistics, event, audit and mock endpoints are
  modelled beside it, and \<open>/health\<close> is the crate's. Postgres keeps microseconds where the model keeps the
  instant it was given, which no statement here depends on; \<open>sql_holds\<close>, where the two repositories'
  filters are compared, is a reading of SQL written out here; an event reaches a live subscription of
  the invalidation task by \<open>environment_step\<close>, not by a law of the bus.
\<close>

end
